(* ===== verification/Prelude.thy ===== *)
theory Prelude
  imports Main "HOL-Library.Word"
begin

text \<open>
  Shared vocabulary of the development: machine words and byte strings, the host's byte order
  with the packed-struct memory image that the headers are copied to and from, the fixed I/O
  block, and the generic list and word lemmas the components use.  Facts that several component
  proofs rewrite with are collected in \<open>wire_simps\<close> (byte images of headers) and
  \<open>buf_simps\<close> (buffer contents after an operation).
\<close>

named_theorems wire_simps \<open>byte images of packed headers\<close>
named_theorems buf_simps \<open>contents of a buffer after an operation\<close>

unbundle bit_operations_syntax

section \<open>Words and byte strings\<close>

type_synonym u8 = "8 word"
type_synonym u16 = "16 word"
type_synonym u32 = "32 word"

text \<open>A \<^verbatim>\<open>std::string\<close> or \<^verbatim>\<open>std::vector<char>\<close> holding network data is a list of bytes.\<close>

type_synonym bytes = "u8 list"

text \<open>The bytes of a C++ string literal.\<close>

definition str_bytes :: "string \<Rightarrow> bytes" where
  "str_bytes s = map of_char s"

lemma length_str_bytes [simp]: "length (str_bytes s) = length s"
  by (simp add: str_bytes_def)

lemma str_bytes_eq_Nil [simp]: "str_bytes s = [] \<longleftrightarrow> s = []"
  by (simp add: str_bytes_def)

lemma unat_u8_less: "unat (w :: u8) < 256"
  using unsigned_less [where 'a = nat, of w] by simp

lemma unat_u16_less: "unat (w :: u16) < 65536"
  using unsigned_less [where 'a = nat, of w] by simp

lemma unat_u32_less: "unat (w :: u32) < 2 ^ 32"
  using unsigned_less [where 'a = nat, of w] by simp

text \<open>The conversion \<^verbatim>\<open>static_cast<uint32_t>(v.size())\<close> keeps the low 32 bits.\<close>

definition u32_of_size :: "nat \<Rightarrow> u32" where
  "u32_of_size n = word_of_nat n"

lemma unat_u32_of_size: "unat (u32_of_size n) = n mod 2 ^ 32"
  by (simp add: u32_of_size_def unat_of_nat)

lemma unat_u32_of_size_small [simp]: "n < 2 ^ 32 \<Longrightarrow> unat (u32_of_size n) = n"
  by (simp add: unat_u32_of_size)

lemma unat_u32_of_size_le: "unat (u32_of_size n) \<le> n"
  by (simp add: unat_u32_of_size)

lemma u32_of_size_unat [simp]: "u32_of_size (unat w) = w"
  by (simp add: u32_of_size_def)

section \<open>Byte order of the host\<close>

text \<open>
  The headers are packed structs that the program copies to and from byte strings with
  \<^verbatim>\<open>reinterpret_cast\<close> and \<^verbatim>\<open>memcpy\<close>, after \<^verbatim>\<open>htobe16\<close>, \<^verbatim>\<open>be32toh\<close> and their kin from
  \<^verbatim>\<open>endian.h\<close>.  Both depend on the byte order of the machine, so the model takes it as an
  argument.
\<close>

datatype endian = Little | Big

definition lo8 :: "u16 \<Rightarrow> u8" where
  "lo8 w = ucast w"

definition hi8 :: "u16 \<Rightarrow> u8" where
  "hi8 w = ucast (drop_bit 8 w)"

definition join16 :: "u8 \<Rightarrow> u8 \<Rightarrow> u16" where
  "join16 h l = push_bit 8 (ucast h) OR ucast l"

definition lo16 :: "u32 \<Rightarrow> u16" where
  "lo16 w = ucast w"

definition hi16 :: "u32 \<Rightarrow> u16" where
  "hi16 w = ucast (drop_bit 16 w)"

definition join32 :: "u16 \<Rightarrow> u16 \<Rightarrow> u32" where
  "join32 h l = push_bit 16 (ucast h) OR ucast l"

definition swap16 :: "u16 \<Rightarrow> u16" where
  "swap16 w = join16 (lo8 w) (hi8 w)"

definition swap32 :: "u32 \<Rightarrow> u32" where
  "swap32 w = join32 (swap16 (lo16 w)) (swap16 (hi16 w))"

lemma lo8_join16 [simp]: "lo8 (join16 h l) = l"
  unfolding lo8_def join16_def by (rule bit_word_eqI) (auto simp: bit_simps)

lemma hi8_join16 [simp]: "hi8 (join16 h l) = h"
  unfolding hi8_def join16_def
  by (rule bit_word_eqI) (auto simp: bit_simps dest: bit_imp_le_length)

lemma join16_hi8_lo8 [simp]: "join16 (hi8 w) (lo8 w) = w"
  unfolding hi8_def lo8_def join16_def by (rule bit_word_eqI) (auto simp: bit_simps)

lemma lo16_join32 [simp]: "lo16 (join32 h l) = l"
  unfolding lo16_def join32_def by (rule bit_word_eqI) (auto simp: bit_simps)

lemma hi16_join32 [simp]: "hi16 (join32 h l) = h"
  unfolding hi16_def join32_def
  by (rule bit_word_eqI) (auto simp: bit_simps dest: bit_imp_le_length)

lemma join32_hi16_lo16 [simp]: "join32 (hi16 w) (lo16 w) = w"
  unfolding hi16_def lo16_def join32_def by (rule bit_word_eqI) (auto simp: bit_simps)

lemma lo8_swap16 [simp]: "lo8 (swap16 w) = hi8 w"
  by (simp add: swap16_def)

lemma hi8_swap16 [simp]: "hi8 (swap16 w) = lo8 w"
  by (simp add: swap16_def)

lemma swap16_swap16 [simp]: "swap16 (swap16 w) = w"
  by (simp add: swap16_def)

lemma lo16_swap32 [simp]: "lo16 (swap32 w) = swap16 (hi16 w)"
  by (simp add: swap32_def)

lemma hi16_swap32 [simp]: "hi16 (swap32 w) = swap16 (lo16 w)"
  by (simp add: swap32_def)

lemma swap32_swap32 [simp]: "swap32 (swap32 w) = w"
  by (simp add: swap32_def)

text \<open>\<^verbatim>\<open>endian.h\<close>: the conversions swap on a little-endian host and do nothing on a big-endian one.\<close>

fun htobe16 :: "endian \<Rightarrow> u16 \<Rightarrow> u16" where
  "htobe16 Little w = swap16 w"
| "htobe16 Big w = w"

fun be16toh :: "endian \<Rightarrow> u16 \<Rightarrow> u16" where
  "be16toh Little w = swap16 w"
| "be16toh Big w = w"

fun htobe32 :: "endian \<Rightarrow> u32 \<Rightarrow> u32" where
  "htobe32 Little w = swap32 w"
| "htobe32 Big w = w"

fun be32toh :: "endian \<Rightarrow> u32 \<Rightarrow> u32" where
  "be32toh Little w = swap32 w"
| "be32toh Big w = w"

lemma be16toh_htobe16 [simp]: "be16toh e (htobe16 e w) = w"
  by (cases e) simp_all

lemma be32toh_htobe32 [simp]: "be32toh e (htobe32 e w) = w"
  by (cases e) simp_all

text \<open>The memory image of an integer field on the host, and reading one back at an offset.\<close>

fun mem16 :: "endian \<Rightarrow> u16 \<Rightarrow> bytes" where
  "mem16 Little w = [lo8 w, hi8 w]"
| "mem16 Big w = [hi8 w, lo8 w]"

fun mem32 :: "endian \<Rightarrow> u32 \<Rightarrow> bytes" where
  "mem32 Little w = mem16 Little (lo16 w) @ mem16 Little (hi16 w)"
| "mem32 Big w = mem16 Big (hi16 w) @ mem16 Big (lo16 w)"

fun get16 :: "endian \<Rightarrow> nat \<Rightarrow> bytes \<Rightarrow> u16" where
  "get16 Little i bs = join16 (bs ! Suc i) (bs ! i)"
| "get16 Big i bs = join16 (bs ! i) (bs ! Suc i)"

fun get32 :: "endian \<Rightarrow> nat \<Rightarrow> bytes \<Rightarrow> u32" where
  "get32 Little i bs = join32 (get16 Little (i + 2) bs) (get16 Little i bs)"
| "get32 Big i bs = join32 (get16 Big i bs) (get16 Big (i + 2) bs)"

lemma length_mem16 [simp]: "length (mem16 e w) = 2"
  by (cases e) simp_all

lemma length_mem32 [simp]: "length (mem32 e w) = 4"
  by (cases e) simp_all

text \<open>
  Network order: most significant byte first, whatever the host.  Converting a field with
  \<open>htobe16\<close>/\<open>htobe32\<close> and taking its memory image gives exactly these bytes.
\<close>

definition be16 :: "u16 \<Rightarrow> bytes" where
  "be16 w = [hi8 w, lo8 w]"

definition be32 :: "u32 \<Rightarrow> bytes" where
  "be32 w = be16 (hi16 w) @ be16 (lo16 w)"

lemma length_be16 [simp]: "length (be16 w) = 2"
  by (simp add: be16_def)

lemma length_be32 [simp]: "length (be32 w) = 4"
  by (simp add: be32_def)

lemma mem16_htobe16 [wire_simps]: "mem16 e (htobe16 e w) = be16 w"
  by (cases e) (simp_all add: be16_def)

lemma mem32_htobe32 [wire_simps]: "mem32 e (htobe32 e w) = be32 w"
  by (cases e) (simp_all add: be32_def be16_def)

text \<open>Reading a field that starts right after a prefix of known length.\<close>

lemma get16_mem16 [wire_simps]: "length xs = i \<Longrightarrow> get16 e i (xs @ mem16 e w @ ys) = w"
  by (cases e) (auto simp: nth_append)

lemma get32_mem32 [wire_simps]: "length xs = i \<Longrightarrow> get32 e i (xs @ mem32 e w @ ys) = w"
  by (cases e) (auto simp: nth_append)

lemma be16toh_get16 [wire_simps]:
  "length xs = i \<Longrightarrow> be16toh e (get16 e i (xs @ be16 w @ ys)) = w"
  using get16_mem16 [of xs i e "htobe16 e w" ys] by (simp add: mem16_htobe16)

lemma be32toh_get32 [wire_simps]:
  "length xs = i \<Longrightarrow> be32toh e (get32 e i (xs @ be32 w @ ys)) = w"
  using get32_mem32 [of xs i e "htobe32 e w" ys] by (simp add: mem32_htobe32)

text \<open>A field only depends on the bytes up to its end.\<close>

lemma get16_take: "i + 2 \<le> n \<Longrightarrow> get16 e i (take n bs) = get16 e i bs"
  by (cases e) simp_all

lemma get32_take: "i + 4 \<le> n \<Longrightarrow> get32 e i (take n bs) = get32 e i bs"
  by (cases e) simp_all

text \<open>Network order is injective: two words with the same image are equal.\<close>

lemma be16_inject [simp]: "be16 v = be16 w \<longleftrightarrow> v = w"
  unfolding be16_def by (metis join16_hi8_lo8 list.inject)

lemma be32_inject [simp]: "be32 v = be32 w \<longleftrightarrow> v = w"
proof
  assume "be32 v = be32 w"
  then have "hi16 v = hi16 w" and "lo16 v = lo16 w"
    by (simp_all add: be32_def)
  then show "v = w" by (metis join32_hi16_lo16)
qed simp

section \<open>Lists\<close>

text \<open>Overwriting the front of a fixed block, as \<^verbatim>\<open>memcpy(block, data, n)\<close> does.\<close>

definition blit :: "'a list \<Rightarrow> 'a list \<Rightarrow> 'a list" where
  "blit src dst = src @ drop (length src) dst"

lemma length_blit [simp]: "length src \<le> length dst \<Longrightarrow> length (blit src dst) = length dst"
  by (simp add: blit_def)

lemma take_blit [simp]: "take (length src) (blit src dst) = src"
  by (simp add: blit_def)

lemma take_blit': "n = length src \<Longrightarrow> take n (blit src dst) = src"
  by simp

section \<open>Printing numbers\<close>

text \<open>Digits of a number in a base, most significant first, as \<^verbatim>\<open>printf\<close> and \<^verbatim>\<open>std::to_string\<close> print them.\<close>

fun radix :: "nat \<Rightarrow> nat \<Rightarrow> nat list" where
  "radix b n = (if b < 2 \<or> n < b then [n] else radix b (n div b) @ [n mod b])"

declare radix.simps [simp del]

lemma length_radix_le: "2 \<le> b \<Longrightarrow> 0 < k \<Longrightarrow> n < b ^ k \<Longrightarrow> length (radix b n) \<le> k"
proof (induction b n arbitrary: k rule: radix.induct)
  case (1 b n)
  show ?case
  proof (cases "n < b")
    case True
    with "1.prems" show ?thesis by (simp add: radix.simps [of b n])
  next
    case False
    obtain k' where k: "k = Suc k'" using "1.prems"(2) by (cases k) simp_all
    have "0 < k'"
    proof (rule ccontr)
      assume "\<not> 0 < k'"
      with "1.prems"(3) k False show False by simp
    qed
    moreover have "n div b < b ^ k'"
      using "1.prems" k by (simp add: less_mult_imp_div_less mult.commute)
    ultimately have "length (radix b (n div b)) \<le> k'"
      using "1.IH" "1.prems"(1) False by simp
    with False "1.prems"(1) k show ?thesis by (simp add: radix.simps [of b n])
  qed
qed

lemma radix_small: "\<forall>d \<in> set (radix b n). 2 \<le> b \<longrightarrow> d < b"
proof (induction b n rule: radix.induct)
  case (1 b n)
  then show ?case by (subst radix.simps) auto
qed

definition digit_char :: "nat \<Rightarrow> char" where
  "digit_char d = ''0123456789abcdef'' ! d"

definition show_hex :: "nat \<Rightarrow> string" where
  "show_hex n = map digit_char (radix 16 n)"

definition show_dec :: "nat \<Rightarrow> string" where
  "show_dec n = map digit_char (radix 10 n)"

definition show_int :: "int \<Rightarrow> string" where
  "show_int i = (if i < 0 then ''-'' @ show_dec (nat (- i)) else show_dec (nat i))"

text \<open>\<^verbatim>\<open>snprintf(buf, n, ...)\<close> keeps at most \<open>n - 1\<close> characters.\<close>

definition snprintf :: "nat \<Rightarrow> string \<Rightarrow> string" where
  "snprintf n s = take (n - 1) s"

lemma length_show_hex_u16: "length (show_hex (unat (w :: u16))) \<le> 4"
  unfolding show_hex_def using length_radix_le [of 16 4 "unat w"] unat_u16_less [of w] by simp

lemma length_show_dec_u32: "length (show_dec (unat (w :: u32))) \<le> 10"
  unfolding show_dec_def using length_radix_le [of 10 10 "unat w"] unat_u32_less [of w] by simp

end
