(* ===== verification/Message.thy ===== *)
theory Message
  imports Prelude
begin

text \<open>
  \<^verbatim>\<open>source/Core/Message.h\<close>: the 16-byte packed frame header and the message it starts.
  The trailing underscore of C++ member names is dropped.  The wire image of a header is the
  memory image of the struct after \<^verbatim>\<open>to_net_endian\<close>; the lemmas show that magic, version and
  length travel in network order whatever the two hosts are, and that the two reserved words,
  which \<^verbatim>\<open>to_net_endian\<close> does not convert, travel in the sender's byte order.
\<close>

section \<open>Header\<close>

definition kHeaderMagic :: u16 where
  "kHeaderMagic = 0x746b"

definition kHeaderVersion :: u16 where
  "kHeaderVersion = 0x01"

record Header =
  h_magic :: u16
  h_version :: u16
  h_length :: u32
  h_rev1 :: u32
  h_rev2 :: u32

text \<open>\<^verbatim>\<open>sizeof(Header)\<close> of the packed struct, and the value-initialised header \<^verbatim>\<open>header_({ })\<close>.\<close>

definition sizeof_Header :: nat where
  "sizeof_Header = 16"

definition Header_zero :: Header where
  "Header_zero = \<lparr>h_magic = 0, h_version = 0, h_length = 0, h_rev1 = 0, h_rev2 = 0\<rparr>"

definition Header_dump :: "Header \<Rightarrow> string" where
  "Header_dump h = snprintf 64
     (''mgc:'' @ show_hex (unat (h_magic h)) @ '', ver:'' @ show_hex (unat (h_version h)) @
      '', len:'' @ show_dec (unat (h_length h)))"

definition Header_from_net_endian :: "endian \<Rightarrow> Header \<Rightarrow> Header" where
  "Header_from_net_endian e h = h\<lparr>
     h_magic := be16toh e (h_magic h),
     h_version := be16toh e (h_version h),
     h_length := be32toh e (h_length h)\<rparr>"

definition Header_to_net_endian :: "endian \<Rightarrow> Header \<Rightarrow> Header" where
  "Header_to_net_endian e h = h\<lparr>
     h_magic := htobe16 e (h_magic h),
     h_version := htobe16 e (h_version h),
     h_length := htobe32 e (h_length h)\<rparr>"

text \<open>The struct's memory image and the struct that \<^verbatim>\<open>memcpy\<close> from 16 bytes gives.\<close>

definition Header_mem :: "endian \<Rightarrow> Header \<Rightarrow> bytes" where
  "Header_mem e h = mem16 e (h_magic h) @ mem16 e (h_version h) @ mem32 e (h_length h) @
     mem32 e (h_rev1 h) @ mem32 e (h_rev2 h)"

definition Header_of_mem :: "endian \<Rightarrow> bytes \<Rightarrow> Header" where
  "Header_of_mem e bs = \<lparr>h_magic = get16 e 0 bs, h_version = get16 e 2 bs,
     h_length = get32 e 4 bs, h_rev1 = get32 e 8 bs, h_rev2 = get32 e 12 bs\<rparr>"

section \<open>Message\<close>

record Message =
  m_header :: Header
  m_payload :: bytes

definition Message_default :: Message where
  "Message_default = \<lparr>m_header = Header_zero, m_payload = []\<rparr>"

definition Message_of :: "bytes \<Rightarrow> Message" where
  "Message_of data = \<lparr>m_header = Header_zero\<lparr>h_magic := kHeaderMagic, h_version := kHeaderVersion,
     h_length := u32_of_size (length data)\<rparr>, m_payload = data\<rparr>"

definition Message_dump :: "Message \<Rightarrow> string" where
  "Message_dump m = ''header: '' @ Header_dump (m_header m) @ '', msg_len: '' @
     show_dec (length (m_payload m)) @ '']''"

definition Message_net_str :: "endian \<Rightarrow> Message \<Rightarrow> bytes" where
  "Message_net_str e m =
     (let header = Header_to_net_endian e (m_header m);
          header_str = Header_mem e header
      in header_str @ m_payload m)"

section \<open>Wire format\<close>

lemma length_Header_mem [simp]: "length (Header_mem e h) = sizeof_Header"
  by (simp add: Header_mem_def sizeof_Header_def)

text \<open>The header as it is on the wire.\<close>

definition Header_wire :: "endian \<Rightarrow> Header \<Rightarrow> bytes" where
  "Header_wire e h = be16 (h_magic h) @ be16 (h_version h) @ be32 (h_length h) @
     mem32 e (h_rev1 h) @ mem32 e (h_rev2 h)"

lemma Header_mem_to_net [wire_simps]: "Header_mem e (Header_to_net_endian e h) = Header_wire e h"
  by (simp add: Header_mem_def Header_to_net_endian_def Header_wire_def mem16_htobe16 mem32_htobe32)

lemma length_Header_wire [simp]: "length (Header_wire e h) = sizeof_Header"
  by (simp add: Header_wire_def sizeof_Header_def)

lemma Message_net_str_wire [wire_simps]: "Message_net_str e m = Header_wire e (m_header m) @ m_payload m"
  by (simp add: Message_net_str_def Header_mem_to_net)

text \<open>Decoding 16 received bytes, as every \<^verbatim>\<open>parse_header\<close> of the program does.\<close>

definition Header_decode :: "endian \<Rightarrow> bytes \<Rightarrow> Header" where
  "Header_decode e bs = Header_from_net_endian e (Header_of_mem e bs)"

lemma Header_decode_magic [simp]: "h_magic (Header_decode e (Header_wire e' h @ ys)) = h_magic h"
  using be16toh_get16 [of "[]" 0 e "h_magic h"]
  by (simp add: Header_decode_def Header_from_net_endian_def Header_of_mem_def Header_wire_def)

lemma Header_decode_version [simp]: "h_version (Header_decode e (Header_wire e' h @ ys)) = h_version h"
  using be16toh_get16 [of "be16 (h_magic h)" 2 e "h_version h"]
  by (simp add: Header_decode_def Header_from_net_endian_def Header_of_mem_def Header_wire_def)

lemma Header_decode_length [simp]: "h_length (Header_decode e (Header_wire e' h @ ys)) = h_length h"
  using be32toh_get32 [of "be16 (h_magic h) @ be16 (h_version h)" 4 e "h_length h"]
  by (simp add: Header_decode_def Header_from_net_endian_def Header_of_mem_def Header_wire_def)

lemma Header_decode_rev1: "h_rev1 (Header_decode e (Header_wire e' h @ ys)) = get32 e 0 (mem32 e' (h_rev1 h))"
  by (cases e) (simp_all add: Header_decode_def Header_from_net_endian_def Header_of_mem_def
    Header_wire_def nth_append numeral_2_eq_2 numeral_3_eq_3)

lemma Header_decode_rev2: "h_rev2 (Header_decode e (Header_wire e' h @ ys)) = get32 e 0 (mem32 e' (h_rev2 h))"
  by (cases e) (simp_all add: Header_decode_def Header_from_net_endian_def Header_of_mem_def
    Header_wire_def nth_append numeral_2_eq_2 numeral_3_eq_3)

lemma get32_mem32_same [simp]: "get32 e 0 (mem32 e w) = w"
  using get32_mem32 [of "[]" 0 e w "[]"] by simp

lemma mem32_zero: "mem32 e 0 = [0, 0, 0, 0]"
proof -
  have "lo16 0 = 0" "hi16 0 = 0" "lo8 0 = 0" "hi8 0 = 0"
    by (simp_all add: lo16_def hi16_def lo8_def hi8_def)
  then show ?thesis by (cases e) simp_all
qed

lemma get32_mem32_zero [simp]: "get32 e 0 (mem32 e' 0) = 0"
  using get32_mem32_same [of e 0] by (simp only: mem32_zero)

lemma Header_decode_wire [simp]: "Header_decode e (Header_wire e h @ ys) = h"
  by (rule Header.equality) (simp_all add: Header_decode_rev1 Header_decode_rev2)

text \<open>Headers made by the program have zero reserved words and decode exactly on every host.\<close>

lemma Header_decode_wire_zero_rev:
  "h_rev1 h = 0 \<Longrightarrow> h_rev2 h = 0 \<Longrightarrow> Header_decode e (Header_wire e' h @ ys) = h"
  by (rule Header.equality) (simp_all add: Header_decode_rev1 Header_decode_rev2)

lemma Header_decode_take: "sizeof_Header \<le> n \<Longrightarrow> Header_decode e (take n bs) = Header_decode e bs"
  by (cases e) (simp_all add: Header_decode_def Header_of_mem_def sizeof_Header_def)

lemma Message_of_header [simp]:
  "h_magic (m_header (Message_of d)) = kHeaderMagic"
  "h_version (m_header (Message_of d)) = kHeaderVersion"
  "h_length (m_header (Message_of d)) = u32_of_size (length d)"
  "h_rev1 (m_header (Message_of d)) = 0"
  "h_rev2 (m_header (Message_of d)) = 0"
  "m_payload (Message_of d) = d"
  by (simp_all add: Message_of_def Header_zero_def)

lemma Message_of_wire: "Message_net_str e (Message_of d) = Message_net_str e' (Message_of d)"
  by (simp add: Message_net_str_wire Header_wire_def mem32_zero)

lemma length_Message_net_str [simp]:
  "length (Message_net_str e m) = sizeof_Header + length (m_payload m)"
  by (simp add: Message_net_str_wire)

end
