(* ===== verification/RpcRequestMessage.thy ===== *)
theory RpcRequestMessage
  imports Message
begin

text \<open>
  \<^verbatim>\<open>source/RPC/RpcRequestMessage.h\<close>: the request header inside a frame's payload, and
  \<^verbatim>\<open>RpcRequestMessageParse\<close>.  \<^verbatim>\<open>SAFE_ASSERT\<close> is a macro of a library outside the repository; a
  function that uses it comes with a \<open>_assert\<close> predicate saying that the asserted condition holds,
  and the function itself is what runs when the assertion lets control pass.
\<close>

definition kRpcHeaderMagic :: u16 where
  "kRpcHeaderMagic = 0x7472"

definition kRpcHeaderVersion :: u16 where
  "kRpcHeaderVersion = 0x01"

record RpcRequestHeader =
  rq_magic :: u16
  rq_version :: u16
  rq_service_id :: u16
  rq_opcode :: u16
  rq_rev1 :: u32
  rq_rev2 :: u32

definition sizeof_RpcRequestHeader :: nat where
  "sizeof_RpcRequestHeader = 16"

definition RpcRequestHeader_zero :: RpcRequestHeader where
  "RpcRequestHeader_zero = \<lparr>rq_magic = 0, rq_version = 0, rq_service_id = 0, rq_opcode = 0,
     rq_rev1 = 0, rq_rev2 = 0\<rparr>"

definition RpcRequestHeader_dump :: "RpcRequestHeader \<Rightarrow> string" where
  "RpcRequestHeader_dump h = snprintf 64
     (''rpc_request_header mgc:'' @ show_hex (unat (rq_magic h)) @ '', ver:'' @
      show_hex (unat (rq_version h)) @ '', sid:'' @ show_hex (unat (rq_service_id h)) @ '', opd:'' @
      show_hex (unat (rq_opcode h)) @ '' '')"

definition RpcRequestHeader_from_net_endian :: "endian \<Rightarrow> RpcRequestHeader \<Rightarrow> RpcRequestHeader" where
  "RpcRequestHeader_from_net_endian e h = h\<lparr>
     rq_magic := be16toh e (rq_magic h),
     rq_version := be16toh e (rq_version h),
     rq_service_id := be16toh e (rq_service_id h),
     rq_opcode := be16toh e (rq_opcode h)\<rparr>"

definition RpcRequestHeader_to_net_endian :: "endian \<Rightarrow> RpcRequestHeader \<Rightarrow> RpcRequestHeader" where
  "RpcRequestHeader_to_net_endian e h = h\<lparr>
     rq_magic := htobe16 e (rq_magic h),
     rq_version := htobe16 e (rq_version h),
     rq_service_id := htobe16 e (rq_service_id h),
     rq_opcode := htobe16 e (rq_opcode h)\<rparr>"

definition RpcRequestHeader_mem :: "endian \<Rightarrow> RpcRequestHeader \<Rightarrow> bytes" where
  "RpcRequestHeader_mem e h = mem16 e (rq_magic h) @ mem16 e (rq_version h) @
     mem16 e (rq_service_id h) @ mem16 e (rq_opcode h) @ mem32 e (rq_rev1 h) @ mem32 e (rq_rev2 h)"

definition RpcRequestHeader_of_mem :: "endian \<Rightarrow> bytes \<Rightarrow> RpcRequestHeader" where
  "RpcRequestHeader_of_mem e bs = \<lparr>rq_magic = get16 e 0 bs, rq_version = get16 e 2 bs,
     rq_service_id = get16 e 4 bs, rq_opcode = get16 e 6 bs,
     rq_rev1 = get32 e 8 bs, rq_rev2 = get32 e 12 bs\<rparr>"

record RpcRequestMessage =
  rqm_header :: RpcRequestHeader
  rqm_payload :: bytes

definition RpcRequestMessage_default :: RpcRequestMessage where
  "RpcRequestMessage_default = \<lparr>rqm_header = RpcRequestHeader_zero, rqm_payload = []\<rparr>"

definition RpcRequestMessage_of :: "u16 \<Rightarrow> u16 \<Rightarrow> bytes \<Rightarrow> RpcRequestMessage" where
  "RpcRequestMessage_of serviceid opcd data = \<lparr>rqm_header = RpcRequestHeader_zero\<lparr>
     rq_magic := kRpcHeaderMagic, rq_version := kRpcHeaderVersion,
     rq_service_id := serviceid, rq_opcode := opcd\<rparr>, rqm_payload = data\<rparr>"

definition RpcRequestMessage_dump :: "RpcRequestMessage \<Rightarrow> string" where
  "RpcRequestMessage_dump m = ''rpc_request_header: '' @ RpcRequestHeader_dump (rqm_header m) @
     '', rpc_request_message_len: '' @ show_dec (length (rqm_payload m)) @ ''.''"

definition RpcRequestMessage_net_str :: "endian \<Rightarrow> RpcRequestMessage \<Rightarrow> bytes" where
  "RpcRequestMessage_net_str e m =
     (let header = RpcRequestHeader_to_net_endian e (rqm_header m)
      in RpcRequestHeader_mem e header @ rqm_payload m)"

definition RpcRequestMessageParse_assert :: "bytes \<Rightarrow> bool" where
  "RpcRequestMessageParse_assert str \<longleftrightarrow> length str \<ge> sizeof_RpcRequestHeader"

definition RpcRequestMessageParse :: "endian \<Rightarrow> bytes \<Rightarrow> RpcRequestMessage \<Rightarrow> bool \<times> RpcRequestMessage" where
  "RpcRequestMessageParse e str m =
     (if length str < sizeof_RpcRequestHeader then (False, m)
      else (True, m\<lparr>rqm_header := RpcRequestHeader_from_net_endian e
                        (RpcRequestHeader_of_mem e (take sizeof_RpcRequestHeader str)),
                     rqm_payload := drop sizeof_RpcRequestHeader str\<rparr>))"

section \<open>Wire format\<close>

definition RpcRequestHeader_wire :: "endian \<Rightarrow> RpcRequestHeader \<Rightarrow> bytes" where
  "RpcRequestHeader_wire e h = be16 (rq_magic h) @ be16 (rq_version h) @ be16 (rq_service_id h) @
     be16 (rq_opcode h) @ mem32 e (rq_rev1 h) @ mem32 e (rq_rev2 h)"

lemma RpcRequestHeader_mem_to_net [wire_simps]:
  "RpcRequestHeader_mem e (RpcRequestHeader_to_net_endian e h) = RpcRequestHeader_wire e h"
  by (simp add: RpcRequestHeader_mem_def RpcRequestHeader_to_net_endian_def RpcRequestHeader_wire_def
    mem16_htobe16)

lemma length_RpcRequestHeader_wire [simp]: "length (RpcRequestHeader_wire e h) = sizeof_RpcRequestHeader"
  by (simp add: RpcRequestHeader_wire_def sizeof_RpcRequestHeader_def)

lemma RpcRequestMessage_net_str_wire [wire_simps]:
  "RpcRequestMessage_net_str e m = RpcRequestHeader_wire e (rqm_header m) @ rqm_payload m"
  by (simp add: RpcRequestMessage_net_str_def RpcRequestHeader_mem_to_net)

definition RpcRequestHeader_decode :: "endian \<Rightarrow> bytes \<Rightarrow> RpcRequestHeader" where
  "RpcRequestHeader_decode e bs =
     RpcRequestHeader_from_net_endian e (RpcRequestHeader_of_mem e bs)"

lemmas RpcRequestHeader_decode_defs = RpcRequestHeader_decode_def
  RpcRequestHeader_from_net_endian_def RpcRequestHeader_of_mem_def RpcRequestHeader_wire_def

lemma RpcRequestHeader_decode_fields [simp]:
  "rq_magic (RpcRequestHeader_decode e (RpcRequestHeader_wire e' h @ ys)) = rq_magic h"
  "rq_version (RpcRequestHeader_decode e (RpcRequestHeader_wire e' h @ ys)) = rq_version h"
  "rq_service_id (RpcRequestHeader_decode e (RpcRequestHeader_wire e' h @ ys)) = rq_service_id h"
  "rq_opcode (RpcRequestHeader_decode e (RpcRequestHeader_wire e' h @ ys)) = rq_opcode h"
  using be16toh_get16 [of "[]" 0 e "rq_magic h"]
    be16toh_get16 [of "be16 (rq_magic h)" 2 e "rq_version h"]
    be16toh_get16 [of "be16 (rq_magic h) @ be16 (rq_version h)" 4 e "rq_service_id h"]
    be16toh_get16 [of "be16 (rq_magic h) @ be16 (rq_version h) @ be16 (rq_service_id h)" 6 e "rq_opcode h"]
  by (simp_all add: RpcRequestHeader_decode_defs)

lemma RpcRequestHeader_decode_rev:
  "rq_rev1 (RpcRequestHeader_decode e (RpcRequestHeader_wire e' h @ ys)) = get32 e 0 (mem32 e' (rq_rev1 h))"
  "rq_rev2 (RpcRequestHeader_decode e (RpcRequestHeader_wire e' h @ ys)) = get32 e 0 (mem32 e' (rq_rev2 h))"
  by (cases e; simp add: RpcRequestHeader_decode_defs nth_append numeral_2_eq_2 numeral_3_eq_3)+

lemma RpcRequestHeader_decode_wire:
  "rq_rev1 h = 0 \<Longrightarrow> rq_rev2 h = 0 \<Longrightarrow> RpcRequestHeader_decode e (RpcRequestHeader_wire e' h @ ys) = h"
  by (rule RpcRequestHeader.equality) (simp_all add: RpcRequestHeader_decode_rev)

lemma RpcRequestMessage_of_fields [simp]:
  "rq_magic (rqm_header (RpcRequestMessage_of s c d)) = kRpcHeaderMagic"
  "rq_version (rqm_header (RpcRequestMessage_of s c d)) = kRpcHeaderVersion"
  "rq_service_id (rqm_header (RpcRequestMessage_of s c d)) = s"
  "rq_opcode (rqm_header (RpcRequestMessage_of s c d)) = c"
  "rq_rev1 (rqm_header (RpcRequestMessage_of s c d)) = 0"
  "rq_rev2 (rqm_header (RpcRequestMessage_of s c d)) = 0"
  "rqm_payload (RpcRequestMessage_of s c d) = d"
  by (simp_all add: RpcRequestMessage_of_def RpcRequestHeader_zero_def)

lemma length_RpcRequestMessage_net_str [simp]:
  "length (RpcRequestMessage_net_str e m) = sizeof_RpcRequestHeader + length (rqm_payload m)"
  by (simp add: RpcRequestMessage_net_str_wire)

end
