(* ===== verification/RpcResponseMessage.thy ===== *)
theory RpcResponseMessage
  imports RpcRequestMessage
begin

text \<open>
  \<^verbatim>\<open>source/RPC/RpcResponseMessage.h\<close>: the 17-byte packed response header and
  \<^verbatim>\<open>RpcResponseMessageParse\<close>.  \<^verbatim>\<open>RpcResponseStatus\<close> is an \<^verbatim>\<open>enum class\<close> over \<^verbatim>\<open>uint8_t\<close>: every
  byte is a value of it, the six enumerators are the named ones, and \<^verbatim>\<open>memcpy\<close> from the network
  can give any.  \<open>OtherStatus b\<close> is a value without an enumerator.
\<close>

section \<open>Status\<close>

datatype RpcResponseStatus =
    OK
  | SERVICE_SPECIFIC_ERROR
  | INVALID_VERSION
  | INVALID_SERVICE
  | INVALID_REQUEST
  | SYSTEM_ERROR
  | OtherStatus u8

fun status_byte :: "RpcResponseStatus \<Rightarrow> u8" where
  "status_byte OK = 0"
| "status_byte SERVICE_SPECIFIC_ERROR = 1"
| "status_byte INVALID_VERSION = 2"
| "status_byte INVALID_SERVICE = 3"
| "status_byte INVALID_REQUEST = 4"
| "status_byte SYSTEM_ERROR = 5"
| "status_byte (OtherStatus b) = b"

definition status_of_byte :: "u8 \<Rightarrow> RpcResponseStatus" where
  "status_of_byte b =
     (if b = 0 then OK
      else if b = 1 then SERVICE_SPECIFIC_ERROR
      else if b = 2 then INVALID_VERSION
      else if b = 3 then INVALID_SERVICE
      else if b = 4 then INVALID_REQUEST
      else if b = 5 then SYSTEM_ERROR
      else OtherStatus b)"

text \<open>A status is \<open>named\<close> when it is one of the enumerators.\<close>

fun named_status :: "RpcResponseStatus \<Rightarrow> bool" where
  "named_status (OtherStatus b) = False"
| "named_status s = True"

lemma status_byte_of_byte [simp]: "status_byte (status_of_byte b) = b"
  by (simp add: status_of_byte_def)

lemma status_of_byte_status [simp]: "named_status s \<Longrightarrow> status_of_byte (status_byte s) = s"
  by (cases s) (simp_all add: status_of_byte_def)

lemma status_byte_eq_0: "named_status s \<Longrightarrow> status_byte s = 0 \<longleftrightarrow> s = OK"
  by (cases s) simp_all

section \<open>Header and message\<close>

record RpcResponseHeader =
  rs_status :: RpcResponseStatus
  rs_magic :: u16
  rs_version :: u16
  rs_service_id :: u16
  rs_opcode :: u16
  rs_rev1 :: u32
  rs_rev2 :: u32

definition sizeof_RpcResponseHeader :: nat where
  "sizeof_RpcResponseHeader = 17"

definition RpcResponseHeader_zero :: RpcResponseHeader where
  "RpcResponseHeader_zero = \<lparr>rs_status = OK, rs_magic = 0, rs_version = 0, rs_service_id = 0,
     rs_opcode = 0, rs_rev1 = 0, rs_rev2 = 0\<rparr>"

definition RpcResponseHeader_dump :: "RpcResponseHeader \<Rightarrow> string" where
  "RpcResponseHeader_dump h = snprintf 64
     (''rpc_response_header mgc:'' @ show_hex (unat (rs_magic h)) @ '', ver:'' @
      show_hex (unat (rs_version h)) @ '', sid:'' @ show_hex (unat (rs_service_id h)) @ '', opd:'' @
      show_hex (unat (rs_opcode h)))"

definition RpcResponseHeader_from_net_endian :: "endian \<Rightarrow> RpcResponseHeader \<Rightarrow> RpcResponseHeader" where
  "RpcResponseHeader_from_net_endian e h = h\<lparr>
     rs_magic := be16toh e (rs_magic h),
     rs_version := be16toh e (rs_version h),
     rs_service_id := be16toh e (rs_service_id h),
     rs_opcode := be16toh e (rs_opcode h)\<rparr>"

definition RpcResponseHeader_to_net_endian :: "endian \<Rightarrow> RpcResponseHeader \<Rightarrow> RpcResponseHeader" where
  "RpcResponseHeader_to_net_endian e h = h\<lparr>
     rs_magic := htobe16 e (rs_magic h),
     rs_version := htobe16 e (rs_version h),
     rs_service_id := htobe16 e (rs_service_id h),
     rs_opcode := htobe16 e (rs_opcode h)\<rparr>"

definition RpcResponseHeader_mem :: "endian \<Rightarrow> RpcResponseHeader \<Rightarrow> bytes" where
  "RpcResponseHeader_mem e h = [status_byte (rs_status h)] @ mem16 e (rs_magic h) @
     mem16 e (rs_version h) @ mem16 e (rs_service_id h) @ mem16 e (rs_opcode h) @
     mem32 e (rs_rev1 h) @ mem32 e (rs_rev2 h)"

definition RpcResponseHeader_of_mem :: "endian \<Rightarrow> bytes \<Rightarrow> RpcResponseHeader" where
  "RpcResponseHeader_of_mem e bs = \<lparr>rs_status = status_of_byte (bs ! 0), rs_magic = get16 e 1 bs,
     rs_version = get16 e 3 bs, rs_service_id = get16 e 5 bs, rs_opcode = get16 e 7 bs,
     rs_rev1 = get32 e 9 bs, rs_rev2 = get32 e 13 bs\<rparr>"

record RpcResponseMessage =
  rsm_header :: RpcResponseHeader
  rsm_payload :: bytes

definition RpcResponseMessage_default :: RpcResponseMessage where
  "RpcResponseMessage_default = \<lparr>rsm_header = RpcResponseHeader_zero, rsm_payload = []\<rparr>"

definition RpcResponseMessage_of :: "u16 \<Rightarrow> u16 \<Rightarrow> bytes \<Rightarrow> RpcResponseMessage" where
  "RpcResponseMessage_of serviceid opcd data = \<lparr>rsm_header = RpcResponseHeader_zero\<lparr>
     rs_status := OK, rs_magic := kRpcHeaderMagic, rs_version := kRpcHeaderVersion,
     rs_service_id := serviceid, rs_opcode := opcd\<rparr>, rsm_payload = data\<rparr>"

definition RpcResponseMessage_status :: "RpcResponseStatus \<Rightarrow> RpcResponseMessage" where
  "RpcResponseMessage_status status = \<lparr>rsm_header = RpcResponseHeader_zero\<lparr>
     rs_status := status, rs_magic := kRpcHeaderMagic, rs_version := kRpcHeaderVersion\<rparr>,
     rsm_payload = []\<rparr>"

definition RpcResponseMessage_dump :: "RpcResponseMessage \<Rightarrow> string" where
  "RpcResponseMessage_dump m = ''rpc_response_header: '' @ RpcResponseHeader_dump (rsm_header m) @
     '', rpc_response_message_len: '' @ show_dec (length (rsm_payload m)) @ ''.''"

definition RpcResponseMessage_net_str :: "endian \<Rightarrow> RpcResponseMessage \<Rightarrow> bytes" where
  "RpcResponseMessage_net_str e m =
     (let header = RpcResponseHeader_to_net_endian e (rsm_header m)
      in RpcResponseHeader_mem e header @ rsm_payload m)"

definition RpcResponseMessageParse_assert :: "bytes \<Rightarrow> bool" where
  "RpcResponseMessageParse_assert str \<longleftrightarrow> length str \<ge> sizeof_RpcResponseHeader"

definition RpcResponseMessageParse :: "endian \<Rightarrow> bytes \<Rightarrow> RpcResponseMessage \<Rightarrow> bool \<times> RpcResponseMessage" where
  "RpcResponseMessageParse e str m =
     (if length str < sizeof_RpcResponseHeader then (False, m)
      else (True, m\<lparr>rsm_header := RpcResponseHeader_from_net_endian e
                        (RpcResponseHeader_of_mem e (take sizeof_RpcResponseHeader str)),
                     rsm_payload := drop sizeof_RpcResponseHeader str\<rparr>))"

section \<open>Wire format\<close>

definition RpcResponseHeader_wire :: "endian \<Rightarrow> RpcResponseHeader \<Rightarrow> bytes" where
  "RpcResponseHeader_wire e h = [status_byte (rs_status h)] @ be16 (rs_magic h) @
     be16 (rs_version h) @ be16 (rs_service_id h) @ be16 (rs_opcode h) @
     mem32 e (rs_rev1 h) @ mem32 e (rs_rev2 h)"

lemma RpcResponseHeader_mem_to_net [wire_simps]:
  "RpcResponseHeader_mem e (RpcResponseHeader_to_net_endian e h) = RpcResponseHeader_wire e h"
  by (simp add: RpcResponseHeader_mem_def RpcResponseHeader_to_net_endian_def
    RpcResponseHeader_wire_def mem16_htobe16)

lemma length_RpcResponseHeader_wire [simp]: "length (RpcResponseHeader_wire e h) = sizeof_RpcResponseHeader"
  by (simp add: RpcResponseHeader_wire_def sizeof_RpcResponseHeader_def)

lemma RpcResponseMessage_net_str_wire [wire_simps]:
  "RpcResponseMessage_net_str e m = RpcResponseHeader_wire e (rsm_header m) @ rsm_payload m"
  by (simp add: RpcResponseMessage_net_str_def RpcResponseHeader_mem_to_net)

definition RpcResponseHeader_decode :: "endian \<Rightarrow> bytes \<Rightarrow> RpcResponseHeader" where
  "RpcResponseHeader_decode e bs =
     RpcResponseHeader_from_net_endian e (RpcResponseHeader_of_mem e bs)"

lemmas RpcResponseHeader_decode_defs = RpcResponseHeader_decode_def
  RpcResponseHeader_from_net_endian_def RpcResponseHeader_of_mem_def RpcResponseHeader_wire_def

lemma RpcResponseHeader_decode_fields [simp]:
  "rs_status (RpcResponseHeader_decode e (RpcResponseHeader_wire e' h @ ys)) = status_of_byte (status_byte (rs_status h))"
  "rs_magic (RpcResponseHeader_decode e (RpcResponseHeader_wire e' h @ ys)) = rs_magic h"
  "rs_version (RpcResponseHeader_decode e (RpcResponseHeader_wire e' h @ ys)) = rs_version h"
  "rs_service_id (RpcResponseHeader_decode e (RpcResponseHeader_wire e' h @ ys)) = rs_service_id h"
  "rs_opcode (RpcResponseHeader_decode e (RpcResponseHeader_wire e' h @ ys)) = rs_opcode h"
  using be16toh_get16 [of "[status_byte (rs_status h)]" 1 e "rs_magic h"]
    be16toh_get16 [of "[status_byte (rs_status h)] @ be16 (rs_magic h)" 3 e "rs_version h"]
    be16toh_get16 [of "[status_byte (rs_status h)] @ be16 (rs_magic h) @ be16 (rs_version h)" 5 e "rs_service_id h"]
    be16toh_get16 [of "[status_byte (rs_status h)] @ be16 (rs_magic h) @ be16 (rs_version h) @
      be16 (rs_service_id h)" 7 e "rs_opcode h"]
  by (simp_all add: RpcResponseHeader_decode_defs)

lemma RpcResponseHeader_decode_rev:
  "rs_rev1 (RpcResponseHeader_decode e (RpcResponseHeader_wire e' h @ ys)) = get32 e 0 (mem32 e' (rs_rev1 h))"
  "rs_rev2 (RpcResponseHeader_decode e (RpcResponseHeader_wire e' h @ ys)) = get32 e 0 (mem32 e' (rs_rev2 h))"
  by (cases e; simp add: RpcResponseHeader_decode_defs nth_append numeral_2_eq_2 numeral_3_eq_3)+

lemma RpcResponseHeader_decode_wire:
  "named_status (rs_status h) \<Longrightarrow> rs_rev1 h = 0 \<Longrightarrow> rs_rev2 h = 0 \<Longrightarrow>
    RpcResponseHeader_decode e (RpcResponseHeader_wire e' h @ ys) = h"
  by (rule RpcResponseHeader.equality) (simp_all add: RpcResponseHeader_decode_rev)

lemma RpcResponseMessage_of_fields [simp]:
  "rs_status (rsm_header (RpcResponseMessage_of s c d)) = OK"
  "rs_magic (rsm_header (RpcResponseMessage_of s c d)) = kRpcHeaderMagic"
  "rs_version (rsm_header (RpcResponseMessage_of s c d)) = kRpcHeaderVersion"
  "rs_service_id (rsm_header (RpcResponseMessage_of s c d)) = s"
  "rs_opcode (rsm_header (RpcResponseMessage_of s c d)) = c"
  "rs_rev1 (rsm_header (RpcResponseMessage_of s c d)) = 0"
  "rs_rev2 (rsm_header (RpcResponseMessage_of s c d)) = 0"
  "rsm_payload (RpcResponseMessage_of s c d) = d"
  by (simp_all add: RpcResponseMessage_of_def RpcResponseHeader_zero_def)

lemma RpcResponseMessage_status_fields [simp]:
  "rs_status (rsm_header (RpcResponseMessage_status st)) = st"
  "rs_magic (rsm_header (RpcResponseMessage_status st)) = kRpcHeaderMagic"
  "rs_version (rsm_header (RpcResponseMessage_status st)) = kRpcHeaderVersion"
  "rs_service_id (rsm_header (RpcResponseMessage_status st)) = 0"
  "rs_opcode (rsm_header (RpcResponseMessage_status st)) = 0"
  "rs_rev1 (rsm_header (RpcResponseMessage_status st)) = 0"
  "rs_rev2 (rsm_header (RpcResponseMessage_status st)) = 0"
  "rsm_payload (RpcResponseMessage_status st) = []"
  by (simp_all add: RpcResponseMessage_status_def RpcResponseHeader_zero_def)

lemma length_RpcResponseMessage_net_str [simp]:
  "length (RpcResponseMessage_net_str e m) = sizeof_RpcResponseHeader + length (rsm_payload m)"
  by (simp add: RpcResponseMessage_net_str_wire)

lemma RpcResponseMessageParse_wire:
  assumes "named_status (rs_status (rsm_header m))" "rs_rev1 (rsm_header m) = 0" "rs_rev2 (rsm_header m) = 0"
  shows "RpcResponseMessageParse e (RpcResponseMessage_net_str e' m) m0 = (True, m)"
proof -
  have "RpcResponseHeader_from_net_endian e (RpcResponseHeader_of_mem e
      (take sizeof_RpcResponseHeader (RpcResponseMessage_net_str e' m))) = rsm_header m"
    using RpcResponseHeader_decode_wire [OF assms, of e e' "[]"]
    by (simp add: RpcResponseMessage_net_str_wire RpcResponseHeader_decode_def)
  then show ?thesis
    by (simp add: RpcResponseMessageParse_def RpcResponseMessage_net_str_wire)
qed

lemma RpcRequestMessageParse_wire:
  assumes "rq_rev1 (rqm_header m) = 0" "rq_rev2 (rqm_header m) = 0"
  shows "RpcRequestMessageParse e (RpcRequestMessage_net_str e' m) m0 = (True, m)"
proof -
  have "RpcRequestHeader_from_net_endian e (RpcRequestHeader_of_mem e
      (take sizeof_RpcRequestHeader (RpcRequestMessage_net_str e' m))) = rqm_header m"
    using RpcRequestHeader_decode_wire [OF assms, of e e' "[]"]
    by (simp add: RpcRequestMessage_net_str_wire RpcRequestHeader_decode_def)
  then show ?thesis
    by (simp add: RpcRequestMessageParse_def RpcRequestMessage_net_str_wire)
qed

text \<open>The log lines never lose characters: the 64-byte buffers of the three dumps are large enough.\<close>

lemma RpcRequestHeader_dump_length:
  "length (''rpc_request_header mgc:'' @ show_hex (unat (rq_magic h)) @ '', ver:'' @
      show_hex (unat (rq_version h)) @ '', sid:'' @ show_hex (unat (rq_service_id h)) @ '', opd:'' @
      show_hex (unat (rq_opcode h)) @ '' '') < 64"
  using length_show_hex_u16 [of "rq_magic h"] length_show_hex_u16 [of "rq_version h"]
    length_show_hex_u16 [of "rq_service_id h"] length_show_hex_u16 [of "rq_opcode h"]
  by simp

lemma RpcResponseHeader_dump_length:
  "length (''rpc_response_header mgc:'' @ show_hex (unat (rs_magic h)) @ '', ver:'' @
      show_hex (unat (rs_version h)) @ '', sid:'' @ show_hex (unat (rs_service_id h)) @ '', opd:'' @
      show_hex (unat (rs_opcode h))) < 64"
  using length_show_hex_u16 [of "rs_magic h"] length_show_hex_u16 [of "rs_version h"]
    length_show_hex_u16 [of "rs_service_id h"] length_show_hex_u16 [of "rs_opcode h"]
  by simp

end
