(* ===== verification/Buffer.thy ===== *)
theory Buffer
  imports Message
begin

text \<open>
  \<^verbatim>\<open>source/Core/Buffer.h\<close>: the byte queue between the socket and the message layer.  Sizes handed
  out by the class are 32-bit and wrap; the raw \<^verbatim>\<open>consume\<close> copies with \<^verbatim>\<open>memcpy\<close>, so reading past
  the vector or writing past the caller's block is an explicit fault of the model.  The locale
  \<open>byte_queue\<close> states what the connections rely on (bytes come out in the order they went in) and
  proves the consequence for whole runs once; \<open>buf\<close> interprets it on this class.
\<close>

record Buffer =
  buf_data :: bytes

definition Buffer_new :: Buffer where
  "Buffer_new = \<lparr>buf_data = []\<rparr>"

definition Buffer_of_string :: "bytes \<Rightarrow> Buffer" where
  "Buffer_of_string s = \<lparr>buf_data = s\<rparr>"

definition append_internal :: "bytes \<Rightarrow> Buffer \<Rightarrow> u32 \<times> Buffer" where
  "append_internal s b =
     (let b' = b\<lparr>buf_data := buf_data b @ s\<rparr> in (u32_of_size (length (buf_data b')), b'))"

definition Buffer_append :: "endian \<Rightarrow> Message \<Rightarrow> Buffer \<Rightarrow> u32 \<times> Buffer" where
  "Buffer_append e msg b =
     (let header = Header_to_net_endian e (m_header msg);
          b1 = snd (append_internal (Header_mem e header) b);
          b2 = snd (append_internal (m_payload msg) b1)
      in (u32_of_size (length (buf_data b2)), b2))"

definition Buffer_of_Message :: "endian \<Rightarrow> Message \<Rightarrow> Buffer" where
  "Buffer_of_Message e msg =
     (let header = Header_to_net_endian e (m_header msg);
          b1 = snd (append_internal (Header_mem e header) Buffer_new)
      in snd (append_internal (m_payload msg) b1))"

text \<open>\<^verbatim>\<open>bool consume(std::string& store, uint32_t sz)\<close>: result, new \<open>store\<close>, new buffer.\<close>

definition consume :: "bytes \<Rightarrow> u32 \<Rightarrow> Buffer \<Rightarrow> bool \<times> bytes \<times> Buffer" where
  "consume store sz b =
     (if sz = 0 \<or> buf_data b = [] then (False, store, b)
      else if unat sz \<ge> length (buf_data b) then (True, buf_data b, b\<lparr>buf_data := []\<rparr>)
      else (True, take (unat sz) (buf_data b), b\<lparr>buf_data := drop (unat sz) (buf_data b)\<rparr>))"

definition front_erase :: "u32 \<Rightarrow> Buffer \<Rightarrow> Buffer" where
  "front_erase sz b =
     (if unat sz \<ge> length (buf_data b) then b\<lparr>buf_data := []\<rparr>
      else b\<lparr>buf_data := drop (unat sz) (buf_data b)\<rparr>)"

datatype mem_fault = ReadPastEnd | WritePastEnd

text \<open>
  \<^verbatim>\<open>bool consume(char* store, uint32_t sz)\<close>: \<open>store\<close> is the caller's block (\<open>None\<close> for a null
  pointer).  \<^verbatim>\<open>memcpy\<close> copies \<open>sz\<close> bytes without looking at either size.
\<close>

definition consume_raw :: "bytes option \<Rightarrow> u32 \<Rightarrow> Buffer \<Rightarrow> mem_fault + bool \<times> bytes option \<times> Buffer" where
  "consume_raw store sz b =
     (case store of
        None \<Rightarrow> Inr (False, store, b)
      | Some blk \<Rightarrow>
          if sz = 0 \<or> buf_data b = [] then Inr (False, store, b)
          else if unat sz > length (buf_data b) then Inl ReadPastEnd
          else if unat sz > length blk then Inl WritePastEnd
          else Inr (True, Some (blit (take (unat sz) (buf_data b)) blk), front_erase sz b))"

text \<open>\<^verbatim>\<open>get_data\<close> gives a pointer to the first byte, null when there is none.\<close>

definition get_data :: "Buffer \<Rightarrow> bytes option" where
  "get_data b = (if buf_data b = [] then None else Some (buf_data b))"

definition get_length :: "Buffer \<Rightarrow> u32" where
  "get_length b = u32_of_size (length (buf_data b))"

section \<open>What each operation does to the contents\<close>

lemma append_internal_data [buf_simps]: "buf_data (snd (append_internal s b)) = buf_data b @ s"
  by (simp add: append_internal_def)

lemma Buffer_append_data [buf_simps]:
  "buf_data (snd (Buffer_append e m b)) = buf_data b @ Message_net_str e m"
  by (simp add: Buffer_append_def append_internal_def Message_net_str_def)

lemma Buffer_of_Message_data [buf_simps]: "buf_data (Buffer_of_Message e m) = Message_net_str e m"
  by (simp add: Buffer_of_Message_def append_internal_def Buffer_new_def Message_net_str_def)

lemma consume_split:
  assumes "consume store sz b = (r, s, b')"
  shows "(if r then s else []) @ buf_data b' = buf_data b"
    and "r \<longleftrightarrow> sz \<noteq> 0 \<and> buf_data b \<noteq> []"
  using assms by (auto simp: consume_def split: if_splits)

lemma consume_data [buf_simps]: "buf_data (snd (snd (consume store sz b))) = drop (unat sz) (buf_data b)"
  by (auto simp: consume_def)

lemma consume_take:
  "sz \<noteq> 0 \<Longrightarrow> buf_data b \<noteq> [] \<Longrightarrow> fst (snd (consume store sz b)) = take (unat sz) (buf_data b)"
  by (auto simp: consume_def)

lemma consume_empty_store: "fst (snd (consume [] sz b)) = take (unat sz) (buf_data b)"
  by (auto simp: consume_def)

lemma front_erase_data [buf_simps]: "buf_data (front_erase sz b) = drop (unat sz) (buf_data b)"
  by (simp add: front_erase_def)

lemma get_length_unat: "unat (get_length b) \<le> length (buf_data b)"
  by (simp add: get_length_def unat_u32_of_size_le)

lemma get_length_small: "length (buf_data b) < 2 ^ 32 \<Longrightarrow> unat (get_length b) = length (buf_data b)"
  by (simp add: get_length_def)

lemma get_length_eq_0: "length (buf_data b) < 2 ^ 32 \<Longrightarrow> get_length b = 0 \<longleftrightarrow> buf_data b = []"
  using get_length_small [of b] by (metis length_0_conv unat_eq_zero)

lemma Buffer_eqI: "buf_data b = buf_data b' \<Longrightarrow> (b :: Buffer) = b'"
  by simp

text \<open>
  The raw copy succeeds exactly when both sizes allow it, moves the front of the vector into the
  front of the block and leaves the rest of the block as it was.
\<close>

lemma consume_raw_ok:
  assumes "0 < unat sz" "unat sz \<le> length (buf_data b)" "unat sz \<le> length blk"
  shows "consume_raw (Some blk) sz b =
    Inr (True, Some (blit (take (unat sz) (buf_data b)) blk), front_erase sz b)"
  using assms by (auto simp: consume_raw_def)

section \<open>The interface the connections use\<close>

datatype queue_op = Put bytes | Take u32

fun queue_run :: "(bytes \<Rightarrow> 'q \<Rightarrow> 'q) \<Rightarrow> (u32 \<Rightarrow> 'q \<Rightarrow> bytes \<times> 'q) \<Rightarrow> queue_op list \<Rightarrow> 'q \<Rightarrow> bytes \<times> 'q" where
  "queue_run put get [] q = ([], q)"
| "queue_run put get (Put s # ops) q = queue_run put get ops (put s q)"
| "queue_run put get (Take n # ops) q =
     (let (s, q') = get n q; (out, q'') = queue_run put get ops q' in (s @ out, q''))"

fun queue_put :: "queue_op \<Rightarrow> bytes" where
  "queue_put (Put s) = s"
| "queue_put (Take n) = []"

locale byte_queue =
  fixes contents :: "'q \<Rightarrow> bytes"
    and put :: "bytes \<Rightarrow> 'q \<Rightarrow> 'q"
    and get :: "u32 \<Rightarrow> 'q \<Rightarrow> bytes \<times> 'q"
  assumes contents_put: "contents (put s q) = contents q @ s"
    and contents_get: "fst (get n q) @ contents (snd (get n q)) = contents q"
    and get_amount: "length (fst (get n q)) = min (unat n) (length (contents q))"
begin

lemma run_fifo:
  "fst (queue_run put get ops q) @ contents (snd (queue_run put get ops q)) =
    contents q @ concat (map queue_put ops)"
proof (induction ops arbitrary: q)
  case Nil
  then show ?case by simp
next
  case (Cons op ops)
  show ?case
  proof (cases op)
    case (Put s)
    with Cons show ?thesis by (simp add: contents_put)
  next
    case (Take n)
    have "fst (queue_run put get (op # ops) q) @ contents (snd (queue_run put get (op # ops) q)) =
        fst (get n q) @ contents (snd (get n q)) @ concat (map queue_put ops)"
      using Take Cons [of "snd (get n q)"] by (simp add: case_prod_beta Let_def)
    then show ?thesis
      using Take contents_get [of n q] by (simp flip: append_assoc)
  qed
qed

lemma get_take: "fst (get n q) = take (unat n) (contents q)"
proof -
  have "fst (get n q) = take (min (unat n) (length (contents q))) (contents q)"
    using contents_get [of n q] get_amount [of n q] by (metis append_eq_conv_conj)
  then show ?thesis by (cases "unat n \<le> length (contents q)") (simp_all add: min_def)
qed

end

text \<open>A \<^verbatim>\<open>consume\<close> into a fresh string, as every caller of the string version does.\<close>

definition consume_fresh :: "u32 \<Rightarrow> Buffer \<Rightarrow> bytes \<times> Buffer" where
  "consume_fresh n b = snd (consume [] n b)"

interpretation buf: byte_queue buf_data "\<lambda>s b. snd (append_internal s b)" consume_fresh
  by unfold_locales
    (simp_all add: append_internal_def consume_fresh_def consume_empty_store consume_data)

end
