(* ===== verification/NetConn.thy ===== *)
theory NetConn
  imports Buffer
begin

text \<open>
  \<^verbatim>\<open>source/Network/NetConn.h\<close>: the base class of the three connection classes.  The C++ classes
  inherit from \<^verbatim>\<open>NetConn\<close>; here their records extend the record \<open>NetConn\<close>, and the operations of
  this theory work on every extension.

  The asio socket is a library object.  The model keeps what the program asks of it: whether it is
  open, which shutdowns were requested, the reads and writes that are outstanding, and the bytes
  it was told to transmit.  An outstanding write refers to the connection's \<^verbatim>\<open>io_block_\<close> by
  reference, so only its length is recorded; the bytes are those the block holds when the write
  is carried out.
\<close>

section \<open>States and sockets\<close>

datatype ConnStat = kWorking | kPending | kError | kClosed

datatype ShutdownType = kShutSend | kShutRecv | kShutBoth

datatype SendStatus = kSend | kSendDone

datatype RecvStatus = kRecvHead | kRecvBody | kRecvDone

text \<open>
  An outstanding \<^verbatim>\<open>async_read\<close> with \<^verbatim>\<open>transfer_at_least(n)\<close> and the handler it is bound to:
  \<^verbatim>\<open>read_handler\<close> for \<open>ReadHead n\<close> and \<^verbatim>\<open>read_msg_handler\<close> for \<open>ReadMsg n\<close>.
\<close>

datatype read_op = ReadHead nat | ReadMsg nat

fun read_min :: "read_op \<Rightarrow> nat" where
  "read_min (ReadHead n) = n"
| "read_min (ReadMsg n) = n"

record socket =
  sk_open :: bool
  sk_shutdowns :: "ShutdownType list"
  sk_nonblocking :: bool
  sk_nodelay :: bool
  sk_keepalive :: bool
  sk_reads :: "read_op list"
  sk_writes :: "nat list"
  sk_sent :: bytes
  sk_cancels :: nat

definition socket_connected :: socket where
  "socket_connected = \<lparr>sk_open = True, sk_shutdowns = [], sk_nonblocking = False, sk_nodelay = False,
     sk_keepalive = False, sk_reads = [], sk_writes = [], sk_sent = [], sk_cancels = 0\<rparr>"

definition async_read :: "read_op \<Rightarrow> socket \<Rightarrow> socket" where
  "async_read op s = s\<lparr>sk_reads := sk_reads s @ [op]\<rparr>"

definition async_write :: "nat \<Rightarrow> socket \<Rightarrow> socket" where
  "async_write n s = s\<lparr>sk_writes := sk_writes s @ [n]\<rparr>"

record NetConn =
  conn_stat :: ConnStat
  socket :: socket

definition set_conn_stat :: "ConnStat \<Rightarrow> 'a NetConn_scheme \<Rightarrow> 'a NetConn_scheme" where
  "set_conn_stat st c = c\<lparr>conn_stat := st\<rparr>"

definition get_conn_stat :: "'a NetConn_scheme \<Rightarrow> ConnStat" where
  "get_conn_stat c = conn_stat c"

text \<open>
  The option setters ignore errors.  \<open>ok\<close> says whether the library's calls on the socket succeed;
  when they do not, the socket keeps its option and the getter's result object keeps its default
  \<^verbatim>\<open>false\<close>.
\<close>

definition set_tcp_nonblocking :: "bool \<Rightarrow> bool \<Rightarrow> 'a NetConn_scheme \<Rightarrow> bool \<times> 'a NetConn_scheme" where
  "set_tcp_nonblocking ok v c =
     (True, if ok then c\<lparr>socket := (socket c)\<lparr>sk_nonblocking := v\<rparr>\<rparr> else c)"

definition set_tcp_nodelay :: "bool \<Rightarrow> bool \<Rightarrow> 'a NetConn_scheme \<Rightarrow> bool \<times> 'a NetConn_scheme" where
  "set_tcp_nodelay ok v c =
     (let c' = (if ok then c\<lparr>socket := (socket c)\<lparr>sk_nodelay := v\<rparr>\<rparr> else c);
          option = (if ok then sk_nodelay (socket c') else False)
      in (option = v, c'))"

definition set_tcp_keepalive :: "bool \<Rightarrow> bool \<Rightarrow> 'a NetConn_scheme \<Rightarrow> bool \<times> 'a NetConn_scheme" where
  "set_tcp_keepalive ok v c =
     (let c' = (if ok then c\<lparr>socket := (socket c)\<lparr>sk_keepalive := v\<rparr>\<rparr> else c);
          option = (if ok then sk_keepalive (socket c') else False)
      in (option = v, c'))"

definition sock_shutdown_and_close :: "ShutdownType \<Rightarrow> 'a NetConn_scheme \<Rightarrow> 'a NetConn_scheme" where
  "sock_shutdown_and_close s c =
     (if conn_stat c = kClosed then c
      else c\<lparr>socket := (socket c)\<lparr>sk_shutdowns := sk_shutdowns (socket c) @ [s], sk_open := False\<rparr>,
             conn_stat := kClosed\<rparr>)"

definition sock_cancel :: "'a NetConn_scheme \<Rightarrow> 'a NetConn_scheme" where
  "sock_cancel c = c\<lparr>socket := (socket c)\<lparr>sk_cancels := Suc (sk_cancels (socket c))\<rparr>\<rparr>"

definition sock_close :: "'a NetConn_scheme \<Rightarrow> 'a NetConn_scheme" where
  "sock_close c =
     (if conn_stat c = kClosed then c
      else c\<lparr>socket := (socket c)\<lparr>sk_open := False\<rparr>, conn_stat := kClosed\<rparr>)"

section \<open>I/O bounds\<close>

definition kFixedIoBufferSize :: nat where
  "kFixedIoBufferSize = 2048"

record IOBound =
  io_block :: bytes
  io_header :: Header
  io_buffer :: Buffer

definition IOBound_new :: IOBound where
  "IOBound_new = \<lparr>io_block = replicate kFixedIoBufferSize 0, io_header = Header_zero,
     io_buffer = Buffer_new\<rparr>"

text \<open>The boost error codes the connections distinguish; \<open>ec_other\<close> is any further one.\<close>

datatype error_code =
    connection_reset
  | timed_out
  | bad_descriptor
  | eof
  | operation_aborted
  | ec_other nat

text \<open>
  Whether an error code makes a connection close its socket: the branch structure the three
  \<^verbatim>\<open>handle_socket_ec\<close> methods share.
\<close>

fun ec_closes :: "error_code \<Rightarrow> bool" where
  "ec_closes connection_reset = True"
| "ec_closes timed_out = True"
| "ec_closes bad_descriptor = True"
| "ec_closes eof = True"
| "ec_closes operation_aborted = False"
| "ec_closes (ec_other n) = True"

section \<open>Lemmas\<close>

lemma unat_min_block:
  "unat (min w (u32_of_size kFixedIoBufferSize)) = min (unat w) kFixedIoBufferSize"
proof -
  have "unat (u32_of_size kFixedIoBufferSize) = kFixedIoBufferSize"
    by (simp add: kFixedIoBufferSize_def)
  then show ?thesis by (simp add: min_def word_le_nat_alt)
qed

lemma min_block_unat:
  assumes "l \<le> (h :: u32)"
  shows "unat (min (h - l) (u32_of_size kFixedIoBufferSize)) = min (unat h - unat l) kFixedIoBufferSize"
  using assms by (simp add: unat_min_block unat_sub)

lemma sock_shutdown_and_close_closed [simp]: "conn_stat (sock_shutdown_and_close s c) = kClosed"
  by (simp add: sock_shutdown_and_close_def)

lemma sock_shutdown_and_close_idem:
  "sock_shutdown_and_close t (sock_shutdown_and_close s c) = sock_shutdown_and_close s c"
  by (simp add: sock_shutdown_and_close_def)

lemma sock_close_closed [simp]: "conn_stat (sock_close c) = kClosed"
  by (simp add: sock_close_def)

text \<open>A connection whose state says closed has a closed socket, whatever operation ran.\<close>

definition conn_wf :: "'a NetConn_scheme \<Rightarrow> bool" where
  "conn_wf c \<longleftrightarrow> (conn_stat c = kClosed \<longrightarrow> \<not> sk_open (socket c))"

lemma conn_wf_sock_shutdown_and_close [intro]: "conn_wf c \<Longrightarrow> conn_wf (sock_shutdown_and_close s c)"
  by (simp add: conn_wf_def sock_shutdown_and_close_def)

lemma conn_wf_sock_close [intro]: "conn_wf c \<Longrightarrow> conn_wf (sock_close c)"
  by (simp add: conn_wf_def sock_close_def)

lemma conn_wf_sock_cancel [intro]: "conn_wf c \<Longrightarrow> conn_wf (sock_cancel c)"
  by (simp add: conn_wf_def sock_cancel_def)

lemma async_simps [simp]:
  "sk_reads (async_read op s) = sk_reads s @ [op]"
  "sk_writes (async_read op s) = sk_writes s"
  "sk_sent (async_read op s) = sk_sent s"
  "sk_open (async_read op s) = sk_open s"
  "sk_reads (async_write n s) = sk_reads s"
  "sk_writes (async_write n s) = sk_writes s @ [n]"
  "sk_sent (async_write n s) = sk_sent s"
  "sk_open (async_write n s) = sk_open s"
  by (simp_all add: async_read_def async_write_def)

end
