(* ===== verification/NetConf.thy ===== *)
theory NetConf
  imports Prelude
begin

text \<open>
  \<^verbatim>\<open>NetConf\<close> of \<^verbatim>\<open>source/Network/NetConf.h\<close> and \<^verbatim>\<open>NetServer.cpp\<close>: the network settings, the token
  bucket that limits accepted connections per second and its one-second feed timer.

  libconfig is a library: a configuration is a record of its three lookup functions, and
  \<open>lookupValue\<close> leaves the variable alone when the key is missing, as its documentation says.
  \<^verbatim>\<open>boost::split\<close> on semicolons and \<^verbatim>\<open>boost::trim_copy\<close> are arguments.  The asio timer is kept as
  what the program can observe of it: whether the pointer is set, how many waits are pending on the
  current timer object, and how many handlers are queued with \<^verbatim>\<open>operation_aborted\<close>.
\<close>

section \<open>Configuration files\<close>

record config =
  cfg_string :: "string \<Rightarrow> string option"
  cfg_int :: "string \<Rightarrow> int option"
  cfg_bool :: "string \<Rightarrow> bool option"

definition lookupValue :: "(string \<Rightarrow> 'v option) \<Rightarrow> string \<Rightarrow> 'v \<Rightarrow> 'v" where
  "lookupValue m key var = (case m key of Some v \<Rightarrow> v | None \<Rightarrow> var)"

lemma lookupValue_simps [simp]:
  "m key = None \<Longrightarrow> lookupValue m key var = var"
  "m key = Some v \<Longrightarrow> lookupValue m key var = v"
  by (simp_all add: lookupValue_def)

section \<open>The feed timer\<close>

record feed_timer =
  ft_set :: bool
  ft_waits :: nat
  ft_aborted :: nat

definition feed_timer_null :: feed_timer where
  "feed_timer_null = \<lparr>ft_set = False, ft_waits = 0, ft_aborted = 0\<rparr>"

text \<open>
  Destroying a timer and changing its expiry both complete the pending waits with
  \<^verbatim>\<open>operation_aborted\<close>.
\<close>

definition timer_reset_new :: "feed_timer \<Rightarrow> feed_timer" where
  "timer_reset_new t = \<lparr>ft_set = True, ft_waits = 0, ft_aborted = ft_aborted t + ft_waits t\<rparr>"

definition timer_reset_null :: "feed_timer \<Rightarrow> feed_timer" where
  "timer_reset_null t = \<lparr>ft_set = False, ft_waits = 0, ft_aborted = ft_aborted t + ft_waits t\<rparr>"

definition timer_cancel :: "feed_timer \<Rightarrow> feed_timer" where
  "timer_cancel t = t\<lparr>ft_waits := 0, ft_aborted := ft_aborted t + ft_waits t\<rparr>"

definition timer_expires_from_now :: "feed_timer \<Rightarrow> feed_timer" where
  "timer_expires_from_now t = timer_cancel t"

definition timer_async_wait :: "feed_timer \<Rightarrow> feed_timer" where
  "timer_async_wait t = t\<lparr>ft_waits := Suc (ft_waits t)\<rparr>"

lemmas timer_defs = timer_reset_new_def timer_reset_null_def timer_cancel_def
  timer_expires_from_now_def timer_async_wait_def

section \<open>The settings\<close>

record NetConf =
  service_enabled :: bool
  service_speed :: int
  service_token :: int
  service_concurrency :: int
  session_cancel_time_out :: int
  ops_cancel_time_out :: int
  send_max_msg_size :: int
  recv_max_msg_size :: int
  bind_addr :: string
  bind_port :: int
  safe_ip :: "string set"
  backlog_size :: int
  io_thread_number :: int
  timed_feed_token :: feed_timer

definition NetConf_default :: NetConf where
  "NetConf_default = \<lparr>service_enabled = True, service_speed = 0, service_token = 0,
     service_concurrency = 0, session_cancel_time_out = 0, ops_cancel_time_out = 0,
     send_max_msg_size = 0, recv_max_msg_size = 0, bind_addr = '''', bind_port = 0,
     safe_ip = {}, backlog_size = 10, io_thread_number = 1, timed_feed_token = feed_timer_null\<rparr>"

definition parse_safe_ip :: "(string \<Rightarrow> string list) \<Rightarrow> (string \<Rightarrow> string) \<Rightarrow> string \<Rightarrow> string set" where
  "parse_safe_ip split trim ip_list =
     fold (\<lambda>it ip_set. let tmp = trim it in if tmp = '''' then ip_set else insert tmp ip_set)
       (split ip_list) {}"

text \<open>
  \<^verbatim>\<open>load_conf\<close> is a sequence of steps, each reading fields and then returning \<^verbatim>\<open>false\<close> if they are
  invalid.  The fields are written as it goes, so a failed load leaves those read so far changed.
\<close>

type_synonym conf_step = "(NetConf \<Rightarrow> NetConf) \<times> (NetConf \<Rightarrow> bool)"

fun run_conf_steps :: "conf_step list \<Rightarrow> NetConf \<Rightarrow> bool \<times> NetConf" where
  "run_conf_steps [] c = (True, c)"
| "run_conf_steps ((rd, valid) # steps) c =
     (let c' = rd c in if valid c' then run_conf_steps steps c' else (False, c'))"

definition load_conf_steps :: "(string \<Rightarrow> string list) \<Rightarrow> (string \<Rightarrow> string) \<Rightarrow> config \<Rightarrow> conf_step list" where
  "load_conf_steps split trim conf =
    [(\<lambda>c. c\<lparr>bind_addr := lookupValue (cfg_string conf) ''rpc.network.bind_addr'' (bind_addr c),
            bind_port := lookupValue (cfg_int conf) ''rpc.network.bind_port'' (bind_port c)\<rparr>,
      \<lambda>c. \<not> (bind_addr c = '''' \<or> bind_port c \<le> 0)),
     (\<lambda>c. let ip_list = lookupValue (cfg_string conf) ''rpc.network.safe_ip'' ''''
          in c\<lparr>safe_ip := (if ip_list \<noteq> '''' then parse_safe_ip split trim ip_list else safe_ip c),
               backlog_size := lookupValue (cfg_int conf) ''rpc.network.backlog_size'' (backlog_size c)\<rparr>,
      \<lambda>c. \<not> backlog_size c < 0),
     (\<lambda>c. c\<lparr>io_thread_number := lookupValue (cfg_int conf) ''rpc.network.io_thread_pool_size''
              (io_thread_number c)\<rparr>,
      \<lambda>c. \<not> io_thread_number c < 0),
     (\<lambda>c. c\<lparr>ops_cancel_time_out := lookupValue (cfg_int conf) ''rpc.network.ops_cancel_time_out''
              (ops_cancel_time_out c)\<rparr>,
      \<lambda>c. \<not> ops_cancel_time_out c < 0),
     (\<lambda>c. c\<lparr>session_cancel_time_out := lookupValue (cfg_int conf)
              ''rpc.network.session_cancel_time_out'' (session_cancel_time_out c)\<rparr>,
      \<lambda>c. \<not> session_cancel_time_out c < 0),
     (\<lambda>c. c\<lparr>service_enabled := lookupValue (cfg_bool conf) ''rpc.network.service_enable'' (service_enabled c),
            service_speed := lookupValue (cfg_int conf) ''rpc.network.service_speed'' (service_speed c)\<rparr>,
      \<lambda>c. \<not> service_speed c < 0),
     (\<lambda>c. c\<lparr>service_concurrency := lookupValue (cfg_int conf) ''rpc.network.service_concurrency''
              (service_concurrency c)\<rparr>,
      \<lambda>c. \<not> service_concurrency c < 0),
     (\<lambda>c. c\<lparr>send_max_msg_size := lookupValue (cfg_int conf) ''rpc.network.send_max_msg_size'' (send_max_msg_size c),
            recv_max_msg_size := lookupValue (cfg_int conf) ''rpc.network.recv_max_msg_size'' (recv_max_msg_size c)\<rparr>,
      \<lambda>c. \<not> ((send_max_msg_size c \<noteq> 0 \<and> send_max_msg_size c \<le> 32) \<or>
              (recv_max_msg_size c \<noteq> 0 \<and> recv_max_msg_size c \<le> 32)))]"

definition load_conf :: "(string \<Rightarrow> string list) \<Rightarrow> (string \<Rightarrow> string) \<Rightarrow> config \<Rightarrow> NetConf \<Rightarrow> bool \<times> NetConf" where
  "load_conf split trim conf c = run_conf_steps (load_conf_steps split trim conf) c"

definition check_safe_ip :: "string \<Rightarrow> NetConf \<Rightarrow> bool" where
  "check_safe_ip ip c \<longleftrightarrow> safe_ip c = {} \<or> ip \<in> safe_ip c"

definition get_service_token :: "NetConf \<Rightarrow> bool \<times> NetConf" where
  "get_service_token c =
     (if \<not> service_enabled c then (False, c)
      else if service_speed c = 0 then (True, c)
      else if service_token c \<le> 0 then (False, c)
      else (True, c\<lparr>service_token := service_token c - 1\<rparr>))"

definition withdraw_service_token :: "NetConf \<Rightarrow> NetConf" where
  "withdraw_service_token c = c\<lparr>service_token := service_token c + 1\<rparr>"

definition feed_service_token :: "NetConf \<Rightarrow> NetConf" where
  "feed_service_token c = c\<lparr>service_token := service_speed c\<rparr>"

text \<open>
  \<^verbatim>\<open>timed_feed_token_handler\<close> does not look at its error code.  It dereferences the timer pointer,
  so the model has the null case as \<open>None\<close>.
\<close>

definition timed_feed_token_handler :: "NetConf \<Rightarrow> NetConf option" where
  "timed_feed_token_handler c =
     (if service_speed c = 0
      then Some (c\<lparr>timed_feed_token := timer_reset_null (timed_feed_token c)\<rparr>)
      else
        let c1 = feed_service_token c
        in if \<not> ft_set (timed_feed_token c1) then None
           else Some (c1\<lparr>timed_feed_token :=
                  timer_async_wait (timer_expires_from_now (timed_feed_token c1))\<rparr>))"

section \<open>Validity of a loaded configuration\<close>

text \<open>What the rest of the server relies on after a successful load.\<close>

definition netconf_valid :: "NetConf \<Rightarrow> bool" where
  "netconf_valid c \<longleftrightarrow>
     bind_addr c \<noteq> '''' \<and> 0 < bind_port c \<and> '''' \<notin> safe_ip c \<and>
     0 \<le> backlog_size c \<and> 0 \<le> io_thread_number c \<and>
     0 \<le> ops_cancel_time_out c \<and> 0 \<le> session_cancel_time_out c \<and>
     0 \<le> service_speed c \<and> 0 \<le> service_concurrency c \<and>
     (send_max_msg_size c = 0 \<or> 32 < send_max_msg_size c) \<and>
     (recv_max_msg_size c = 0 \<or> 32 < recv_max_msg_size c)"

lemma parse_safe_ip_fold:
  "fold (\<lambda>it ip_set. let tmp = trim it in if tmp = '''' then ip_set else insert tmp ip_set) its A =
    A \<union> {tmp \<in> trim ` set its. tmp \<noteq> ''''}"
  by (induction its arbitrary: A) (auto simp: Let_def)

lemma parse_safe_ip_eq: "parse_safe_ip split trim s = {tmp \<in> trim ` set (split s). tmp \<noteq> ''''}"
  by (simp add: parse_safe_ip_def parse_safe_ip_fold)

lemma run_conf_steps_TrueE:
  assumes "run_conf_steps ((rd, valid) # steps) c = (True, c')"
  obtains c1 where "c1 = rd c" "valid c1" "run_conf_steps steps c1 = (True, c')"
  using assms by (auto simp: Let_def split: if_splits)

text \<open>A property of the settings that every read keeps holds after the load, failed or not.\<close>

lemma run_conf_steps_invariant:
  assumes "\<And>rd valid c. (rd, valid) \<in> set steps \<Longrightarrow> P c \<Longrightarrow> P (rd c)" and "P c"
  shows "P (snd (run_conf_steps steps c))"
  using assms
proof (induction steps c rule: run_conf_steps.induct)
  case (1 c)
  then show ?case by simp
next
  case (2 rd valid steps c)
  have "P (rd c)" by (rule "2.prems"(1) [of rd valid, OF _ "2.prems"(2)]) simp
  moreover have "valid (rd c) \<Longrightarrow> P (snd (run_conf_steps steps (rd c)))"
    by (rule "2.IH" [OF refl _ _ \<open>P (rd c)\<close>]) (auto intro: "2.prems"(1))
  ultimately show ?case by (simp add: Let_def)
qed

lemma load_conf_valid:
  assumes "load_conf split trim conf c = (True, c')" and nonempty: "'''' \<notin> safe_ip c"
  shows "netconf_valid c'"
  using assms(1) unfolding load_conf_def load_conf_steps_def
  apply (elim run_conf_steps_TrueE)
  subgoal premises p for c1 c2 c3 c4 c5 c6 c7 c8
  proof -
    have final: "c' = c8" using p(17) by simp
    have frame: "bind_addr c8 = bind_addr c1" "bind_port c8 = bind_port c1" "safe_ip c8 = safe_ip c2"
      "backlog_size c8 = backlog_size c2" "io_thread_number c8 = io_thread_number c3"
      "ops_cancel_time_out c8 = ops_cancel_time_out c4"
      "session_cancel_time_out c8 = session_cancel_time_out c5"
      "service_speed c8 = service_speed c6" "service_concurrency c8 = service_concurrency c7"
      by (simp_all add: p(3,5,7,9,11,13,15) Let_def)
    have "safe_ip c1 = safe_ip c" by (simp add: p(1))
    then have "'''' \<notin> safe_ip c2"
      using nonempty by (simp add: p(3) Let_def parse_safe_ip_eq)
    with p(2,4,6,8,10,12,14,16) show ?thesis
      unfolding final netconf_valid_def frame by (simp add: not_less not_le)
  qed
  done

text \<open>Loading never touches the token bucket or the feed timer.\<close>

lemma load_conf_keeps_bucket:
  "service_token (snd (load_conf split trim conf c)) = service_token c \<and>
    timed_feed_token (snd (load_conf split trim conf c)) = timed_feed_token c"
  unfolding load_conf_def
  by (rule run_conf_steps_invariant) (auto simp: load_conf_steps_def Let_def)

section \<open>The token bucket\<close>

text \<open>What happens to the bucket between two accepts.\<close>

datatype token_event = Acquire | Feed

fun token_step :: "token_event \<Rightarrow> NetConf \<Rightarrow> bool \<times> NetConf" where
  "token_step Acquire c = get_service_token c"
| "token_step Feed c = (False, feed_service_token c)"

fun token_run :: "token_event list \<Rightarrow> NetConf \<Rightarrow> nat \<times> NetConf" where
  "token_run [] c = (0, c)"
| "token_run (ev # evs) c =
     (let (got, c') = token_step ev c; (n, c'') = token_run evs c'
      in (if got then Suc n else n, c''))"

lemma get_service_token_frame:
  "service_speed (snd (get_service_token c)) = service_speed c"
  "service_enabled (snd (get_service_token c)) = service_enabled c"
  by (simp_all add: get_service_token_def)

text \<open>Between two feeds the bucket grants at most as many tokens as it holds.\<close>

lemma token_run_acquires:
  assumes "service_speed c \<noteq> 0" and "0 \<le> service_token c"
  shows "int (fst (token_run (replicate n Acquire) c)) =
    (if service_enabled c then min (int n) (service_token c) else 0)"
  using assms
proof (induction n arbitrary: c)
  case 0
  then show ?case by simp
next
  case (Suc n)
  show ?case
  proof (cases "service_enabled c \<and> 0 < service_token c")
    case True
    then have "get_service_token c = (True, c\<lparr>service_token := service_token c - 1\<rparr>)"
      using Suc.prems by (simp add: get_service_token_def)
    with True Suc.prems Suc.IH [of "c\<lparr>service_token := service_token c - 1\<rparr>"] show ?thesis
      by (simp add: case_prod_beta Let_def)
  next
    case False
    then have "get_service_token c = (False, c)"
      using Suc.prems by (auto simp: get_service_token_def)
    with False Suc.prems Suc.IH [of c] show ?thesis
      by (auto simp: case_prod_beta Let_def)
  qed
qed

end
