(* ===== verification/Sender.thy ===== *)
theory Sender
  imports Prelude
begin

text \<open>
  The contract of the sending half of a connection.  The server's and the client's asynchronous
  connections both queue whole messages, write them in blocks and start the next block from the
  write handler.  The locale states that contract once: what a connection has transmitted followed
  by what it still holds (\<open>backlog\<close>) is the concatenation of the accepted messages, and a completed
  write makes progress.  The runs below interleave messages and write completions freely.
\<close>

datatype 'm send_event = SendMsg 'm | WriteOk

fun send_run :: "('m \<Rightarrow> 's \<Rightarrow> 's) \<Rightarrow> ('s \<Rightarrow> 's) \<Rightarrow> 'm send_event list \<Rightarrow> 's \<Rightarrow> 's" where
  "send_run send wdone [] s = s"
| "send_run send wdone (SendMsg m # evs) s = send_run send wdone evs (send m s)"
| "send_run send wdone (WriteOk # evs) s = send_run send wdone evs (wdone s)"

fun event_msgs :: "'m send_event list \<Rightarrow> 'm list" where
  "event_msgs [] = []"
| "event_msgs (SendMsg m # evs) = m # event_msgs evs"
| "event_msgs (WriteOk # evs) = event_msgs evs"

locale message_sender =
  fixes inv :: "'s \<Rightarrow> bool"
    and send :: "'m \<Rightarrow> 's \<Rightarrow> 's"
    and wdone :: "'s \<Rightarrow> 's"
    and enc :: "'m \<Rightarrow> bytes"
    and accepts :: "'m \<Rightarrow> bool"
    and sent :: "'s \<Rightarrow> bytes"
    and backlog :: "'s \<Rightarrow> bytes"
  assumes inv_send: "inv s \<Longrightarrow> inv (send m s)"
    and inv_wdone: "inv s \<Longrightarrow> inv (wdone s)"
    and stream_send: "inv s \<Longrightarrow> sent (send m s) @ backlog (send m s) =
          sent s @ backlog s @ (if accepts m then enc m else [])"
    and stream_wdone: "inv s \<Longrightarrow> sent (wdone s) @ backlog (wdone s) = sent s @ backlog s"
begin

lemma inv_run: "inv s \<Longrightarrow> inv (send_run send wdone evs s)"
proof (induction evs arbitrary: s)
  case Nil
  then show ?case by simp
next
  case (Cons ev evs)
  then show ?case by (cases ev) (simp_all add: inv_send inv_wdone)
qed

lemma run_stream:
  "inv s \<Longrightarrow> sent (send_run send wdone evs s) @ backlog (send_run send wdone evs s) =
    sent s @ backlog s @ concat (map enc (filter accepts (event_msgs evs)))"
proof (induction evs arbitrary: s)
  case Nil
  then show ?case by simp
next
  case (Cons ev evs)
  show ?case
  proof (cases ev)
    case (SendMsg m)
    have "sent (send_run send wdone (ev # evs) s) @ backlog (send_run send wdone (ev # evs) s) =
        (sent (send m s) @ backlog (send m s)) @ concat (map enc (filter accepts (event_msgs evs)))"
      using SendMsg Cons.IH [OF inv_send [OF Cons.prems]] by simp
    then show ?thesis using SendMsg stream_send [OF Cons.prems, of m] by simp
  next
    case WriteOk
    have "sent (send_run send wdone (ev # evs) s) @ backlog (send_run send wdone (ev # evs) s) =
        (sent (wdone s) @ backlog (wdone s)) @ concat (map enc (filter accepts (event_msgs evs)))"
      using WriteOk Cons.IH [OF inv_wdone [OF Cons.prems]] by simp
    then show ?thesis using WriteOk stream_wdone [OF Cons.prems] by simp
  qed
qed

end

text \<open>
  A live sender writes whenever it has something to write: every completed write shortens the
  backlog until it is gone.
\<close>

locale live_sender = message_sender inv send wdone enc accepts sent backlog
  for inv :: "'s \<Rightarrow> bool"
    and send :: "'m \<Rightarrow> 's \<Rightarrow> 's"
    and wdone :: "'s \<Rightarrow> 's"
    and enc :: "'m \<Rightarrow> bytes"
    and accepts :: "'m \<Rightarrow> bool"
    and sent :: "'s \<Rightarrow> bytes"
    and backlog :: "'s \<Rightarrow> bytes" +
  fixes live :: "'s \<Rightarrow> bool"
  assumes live_inv: "live s \<Longrightarrow> inv s"
    and live_wdone: "live s \<Longrightarrow> live (wdone s)"
    and live_progress: "live s \<Longrightarrow> backlog s \<noteq> [] \<Longrightarrow> length (backlog (wdone s)) < length (backlog s)"
    and live_idle: "live s \<Longrightarrow> backlog s = [] \<Longrightarrow> backlog (wdone s) = []"
begin

lemma live_funpow: "live s \<Longrightarrow> live ((wdone ^^ n) s)"
  by (induction n) (simp_all add: live_wdone)

lemma stream_funpow:
  "live s \<Longrightarrow> sent ((wdone ^^ n) s) @ backlog ((wdone ^^ n) s) = sent s @ backlog s"
  by (induction n) (simp_all add: stream_wdone live_inv live_funpow)

lemma backlog_funpow: "live s \<Longrightarrow> length (backlog ((wdone ^^ n) s)) \<le> length (backlog s) - n"
proof (induction n)
  case 0
  then show ?case by simp
next
  case (Suc n)
  let ?t = "(wdone ^^ n) s"
  have "live ?t" using Suc.prems by (rule live_funpow)
  then have "backlog (wdone ?t) = [] \<or> length (backlog (wdone ?t)) < length (backlog ?t)"
    using live_progress live_idle by blast
  then show ?case using Suc.IH [OF Suc.prems] by auto
qed

lemma drained:
  assumes "live s" and "length (backlog s) \<le> n"
  shows "backlog ((wdone ^^ n) s) = []" and "sent ((wdone ^^ n) s) = sent s @ backlog s"
proof -
  show "backlog ((wdone ^^ n) s) = []"
    using backlog_funpow [OF assms(1), of n] assms(2) by simp
  then show "sent ((wdone ^^ n) s) = sent s @ backlog s"
    using stream_funpow [OF assms(1), of n] by simp
qed

end

end
