(* ===== verification/TcpConnWrite.thy ===== *)
theory TcpConnWrite
  imports NetConn NetConf Sender
begin

text \<open>
  The sending half, the cancel timer and the error handling of the server's \<^verbatim>\<open>TcpConnAsync\<close>
  (\<^verbatim>\<open>source/Network/TcpConnAsync.h\<close> and \<^verbatim>\<open>.cpp\<close>).  Each C++ method is one function on the record;
  the connection's \<^verbatim>\<open>server_\<close> reference is used for its settings only, so they are an argument.

  Two ghost outcomes are folded into the field \<open>sane\<close>: it becomes \<open>False\<close> when the condition of a
  \<^verbatim>\<open>SAFE_ASSERT\<close> does not hold or a raw copy would leave its block.  While \<open>sane\<close> holds the run does
  not depend on what the \<^verbatim>\<open>SAFE_ASSERT\<close> macro of the support library does.  Assertions whose
  condition was tested by the statement before them are left out.
\<close>

section \<open>State\<close>

record TcpConn = NetConn +
  was_cancelled :: bool
  ops_cancel_timer :: "nat option"
  recv_bound :: IOBound
  send_status :: SendStatus
  send_bound :: IOBound
  sane :: bool

text \<open>
  \<open>ops_cancel_timer\<close> is \<open>None\<close> for a null pointer and \<open>Some n\<close> for a timer with \<open>n\<close> waits pending.
\<close>

definition TcpConn_new :: "bool \<Rightarrow> socket \<Rightarrow> TcpConn" where
  "TcpConn_new ok sock =
     (let c0 = \<lparr>conn_stat = kPending, socket = sock, was_cancelled = False, ops_cancel_timer = None,
                recv_bound = IOBound_new, send_status = kSendDone, send_bound = IOBound_new,
                sane = True\<rparr>;
          c1 = snd (set_tcp_nonblocking ok False c0);
          c2 = snd (set_tcp_nodelay ok True c1)
      in snd (set_tcp_nonblocking ok True c2))"

definition TcpConn_stop :: "TcpConn \<Rightarrow> TcpConn" where
  "TcpConn_stop c = set_conn_stat kPending c"

section \<open>Timeouts and errors\<close>

definition set_ops_cancel_timeout :: "NetConf \<Rightarrow> TcpConn \<Rightarrow> TcpConn" where
  "set_ops_cancel_timeout cf c =
     (if ops_cancel_time_out cf = 0 then c\<lparr>sane := sane c \<and> ops_cancel_timer c = None\<rparr>
      else c\<lparr>ops_cancel_timer := Some 1\<rparr>)"

definition revoke_ops_cancel_timeout :: "TcpConn \<Rightarrow> TcpConn" where
  "revoke_ops_cancel_timeout c = c\<lparr>ops_cancel_timer := None\<rparr>"

definition was_ops_cancelled :: "TcpConn \<Rightarrow> bool" where
  "was_ops_cancelled c = was_cancelled c"

definition ops_cancel :: "TcpConn \<Rightarrow> bool \<times> TcpConn" where
  "ops_cancel c =
     (let c1 = sock_cancel c; c2 = set_conn_stat kError c1; c3 = c2\<lparr>was_cancelled := True\<rparr>
      in (was_cancelled c3, c3))"

definition handle_socket_ec :: "error_code \<Rightarrow> TcpConn \<Rightarrow> bool \<times> TcpConn" where
  "handle_socket_ec ec c =
     (let close_socket = ec_closes ec
      in if close_socket \<or> was_ops_cancelled c
         then (close_socket,
               sock_shutdown_and_close kShutBoth (snd (ops_cancel (revoke_ops_cancel_timeout c))))
         else (close_socket, c))"

text \<open>The timer's handler; \<open>None\<close> is an expired timer, \<open>Some operation_aborted\<close> a cancelled one.\<close>

definition ops_cancel_timeout_call :: "error_code option \<Rightarrow> TcpConn \<Rightarrow> TcpConn" where
  "ops_cancel_timeout_call ec c =
     (case ec of
        None \<Rightarrow> sock_shutdown_and_close kShutBoth (snd (ops_cancel c))
      | Some _ \<Rightarrow> c)"

section \<open>Writing\<close>

definition do_write :: "NetConf \<Rightarrow> TcpConn \<Rightarrow> bool \<times> TcpConn" where
  "do_write cf c =
     (if send_status c \<noteq> kSendDone then (True, c)
      else if get_conn_stat c \<noteq> kWorking then (False, c)
      else if was_ops_cancelled c then (False, c)
      else if get_length (io_buffer (send_bound c)) = 0 then (True, c\<lparr>send_status := kSendDone\<rparr>)
      else
        let to_write = min (get_length (io_buffer (send_bound c))) (u32_of_size kFixedIoBufferSize)
        in case consume_raw (Some (io_block (send_bound c))) to_write (io_buffer (send_bound c)) of
             Inl _ \<Rightarrow> (False, c\<lparr>sane := False\<rparr>)
           | Inr (_, blk, b) \<Rightarrow>
               let c1 = c\<lparr>send_bound := (send_bound c)\<lparr>io_block := the blk, io_buffer := b\<rparr>,
                          send_status := kSend\<rparr>;
                   c2 = set_ops_cancel_timeout cf c1
               in (True, c2\<lparr>socket := async_write (unat to_write) (socket c2)\<rparr>))"

definition write_handler :: "NetConf \<Rightarrow> error_code option \<Rightarrow> nat \<Rightarrow> TcpConn \<Rightarrow> TcpConn" where
  "write_handler cf ec bytes_transferred c0 =
     (let c = revoke_ops_cancel_timeout c0
      in case ec of
           Some err \<Rightarrow> snd (handle_socket_ec err c)
         | None \<Rightarrow>
             let c1 = c\<lparr>sane := sane c \<and> bytes_transferred > 0, send_status := kSendDone\<rparr>
             in snd (do_write cf c1))"

definition async_send_message :: "endian \<Rightarrow> NetConf \<Rightarrow> Message \<Rightarrow> TcpConn \<Rightarrow> int \<times> TcpConn" where
  "async_send_message e cf msg c =
     (if send_max_msg_size cf \<noteq> 0 \<and> h_length (m_header msg) > word_of_int (send_max_msg_size cf)
      then (- 1, c)
      else
        let c1 = c\<lparr>send_bound := (send_bound c)\<lparr>io_buffer := snd (Buffer_append e msg (io_buffer (send_bound c)))\<rparr>\<rparr>
        in (0, snd (do_write cf c1)))"

text \<open>
  The environment's part: the oldest outstanding write completes.  A successful \<^verbatim>\<open>transfer_exactly\<close>
  write transmits what the block holds now; a failed one has transmitted some prefix of it.
\<close>

definition io_write_ok :: "NetConf \<Rightarrow> TcpConn \<Rightarrow> TcpConn" where
  "io_write_ok cf c =
     (case sk_writes (socket c) of
        [] \<Rightarrow> c
      | n # ns \<Rightarrow> write_handler cf None n (c\<lparr>socket := (socket c)\<lparr>sk_writes := ns,
                    sk_sent := sk_sent (socket c) @ take n (io_block (send_bound c))\<rparr>\<rparr>))"

definition io_write_error :: "NetConf \<Rightarrow> error_code \<Rightarrow> nat \<Rightarrow> TcpConn \<Rightarrow> TcpConn" where
  "io_write_error cf err k c =
     (case sk_writes (socket c) of
        [] \<Rightarrow> c
      | n # ns \<Rightarrow> write_handler cf (Some err) (min k n) (c\<lparr>socket := (socket c)\<lparr>sk_writes := ns,
                    sk_sent := sk_sent (socket c) @ take (min k n) (io_block (send_bound c))\<rparr>\<rparr>))"

definition io_timer :: "TcpConn \<Rightarrow> TcpConn" where
  "io_timer c =
     (case ops_cancel_timer c of
        Some (Suc n) \<Rightarrow> ops_cancel_timeout_call None (c\<lparr>ops_cancel_timer := Some n\<rparr>)
      | _ \<Rightarrow> c)"

text \<open>
  asio cannot take back an expiry that is already queued: its handler runs, without an error, although
  \<^verbatim>\<open>revoke_ops_cancel_timeout\<close> has dropped the timer or a later operation has armed it again.  With a time
  limit configured (without one there is no timer) this can happen at any moment, because the delay between
  an expiry and its handler has no bound.
\<close>

definition io_late_timer :: "NetConf \<Rightarrow> TcpConn \<Rightarrow> TcpConn" where
  "io_late_timer cf c = (if ops_cancel_time_out cf = 0 then c else ops_cancel_timeout_call None c)"

section \<open>What writing does\<close>

definition in_flight :: "TcpConn \<Rightarrow> bytes" where
  "in_flight c = concat (map (\<lambda>n. take n (io_block (send_bound c))) (sk_writes (socket c)))"

definition send_backlog :: "TcpConn \<Rightarrow> bytes" where
  "send_backlog c = in_flight c @ buf_data (io_buffer (send_bound c))"

definition sent_bytes :: "TcpConn \<Rightarrow> bytes" where
  "sent_bytes c = sk_sent (socket c)"

text \<open>
  The sending invariant of a working connection: a block of the right size, at most one
  outstanding write and exactly when the status says so, and a timer that fits the settings.
\<close>

definition send_inv :: "NetConf \<Rightarrow> TcpConn \<Rightarrow> bool" where
  "send_inv cf c \<longleftrightarrow>
     sane c \<and> length (io_block (send_bound c)) = kFixedIoBufferSize \<and>
     (send_status c = kSendDone \<longrightarrow> sk_writes (socket c) = []) \<and>
     (send_status c = kSend \<longrightarrow>
        (\<exists>n. sk_writes (socket c) = [n] \<and> 0 < n \<and> n \<le> kFixedIoBufferSize)) \<and>
     (ops_cancel_time_out cf = 0 \<longrightarrow> ops_cancel_timer c = None)"

text \<open>The state after the block was filled and handed to \<^verbatim>\<open>async_write\<close>.\<close>

definition start_block :: "NetConf \<Rightarrow> nat \<Rightarrow> TcpConn \<Rightarrow> TcpConn" where
  "start_block cf n c =
     (let b = io_buffer (send_bound c);
          c1 = set_ops_cancel_timeout cf
                 (c\<lparr>send_bound := (send_bound c)\<lparr>
                      io_block := blit (take n (buf_data b)) (io_block (send_bound c)),
                      io_buffer := b\<lparr>buf_data := drop n (buf_data b)\<rparr>\<rparr>,
                    send_status := kSend\<rparr>)
      in c1\<lparr>socket := async_write n (socket c1)\<rparr>)"

lemma do_write_starts:
  assumes "send_status c = kSendDone" "conn_stat c = kWorking" "\<not> was_cancelled c"
    "length (io_block (send_bound c)) = kFixedIoBufferSize"
    "get_length (io_buffer (send_bound c)) \<noteq> 0"
  shows "do_write cf c = (True, start_block cf
    (min (unat (get_length (io_buffer (send_bound c)))) kFixedIoBufferSize) c)"
proof -
  let ?b = "io_buffer (send_bound c)"
  let ?w = "min (get_length ?b) (u32_of_size kFixedIoBufferSize)"
  have n: "unat ?w = min (unat (get_length ?b)) kFixedIoBufferSize" by (rule unat_min_block)
  have pos: "0 < unat (get_length ?b)" using assms(5) by (simp add: unat_gt_0)
  have "consume_raw (Some (io_block (send_bound c))) ?w ?b =
      Inr (True, Some (blit (take (unat ?w) (buf_data ?b)) (io_block (send_bound c))), front_erase ?w ?b)"
    by (rule consume_raw_ok)
      (use get_length_unat [of ?b] assms(4) n pos in \<open>auto simp: kFixedIoBufferSize_def min_def\<close>)
  moreover have "front_erase ?w ?b = ?b\<lparr>buf_data := drop (unat ?w) (buf_data ?b)\<rparr>"
    by (rule Buffer_eqI) (simp add: front_erase_data)
  ultimately show ?thesis
    using assms(1,2,3,5)
    by (simp add: do_write_def get_conn_stat_def was_ops_cancelled_def start_block_def n Let_def)
qed

lemma do_write_idle:
  assumes "send_status c = kSendDone" "get_length (io_buffer (send_bound c)) = 0"
  shows "snd (do_write cf c) = c"
  using assms by (simp add: do_write_def)

lemma do_write_busy: "send_status c = kSend \<Longrightarrow> do_write cf c = (True, c)"
  by (simp add: do_write_def)

lemma set_ops_cancel_timeout_frame [simp]:
  "conn_stat (set_ops_cancel_timeout cf c) = conn_stat c"
  "socket (set_ops_cancel_timeout cf c) = socket c"
  "was_cancelled (set_ops_cancel_timeout cf c) = was_cancelled c"
  "recv_bound (set_ops_cancel_timeout cf c) = recv_bound c"
  "send_status (set_ops_cancel_timeout cf c) = send_status c"
  "send_bound (set_ops_cancel_timeout cf c) = send_bound c"
  by (simp_all add: set_ops_cancel_timeout_def)

lemma start_block_frame [simp]:
  "conn_stat (start_block cf n c) = conn_stat c"
  "was_cancelled (start_block cf n c) = was_cancelled c"
  "recv_bound (start_block cf n c) = recv_bound c"
  "send_status (start_block cf n c) = kSend"
  "sk_reads (socket (start_block cf n c)) = sk_reads (socket c)"
  "sk_sent (socket (start_block cf n c)) = sk_sent (socket c)"
  "sk_open (socket (start_block cf n c)) = sk_open (socket c)"
  by (simp_all add: start_block_def Let_def)

text \<open>Starting a block moves bytes from the buffer to the block and loses none.\<close>

lemma start_block_stream:
  assumes "send_status c = kSendDone" "send_inv cf c" "n \<le> length (buf_data (io_buffer (send_bound c)))"
    "0 < n" "n \<le> kFixedIoBufferSize"
  shows "send_backlog (start_block cf n c) = send_backlog c" and "send_inv cf (start_block cf n c)"
proof -
  have w: "sk_writes (socket c) = []" using assms(1,2) by (simp add: send_inv_def)
  show "send_backlog (start_block cf n c) = send_backlog c"
    using w assms(3) by (simp add: send_backlog_def in_flight_def start_block_def Let_def take_blit')
  show "send_inv cf (start_block cf n c)"
    using w assms by (auto simp: send_inv_def start_block_def Let_def set_ops_cancel_timeout_def)
qed

lemma do_write_frame:
  "conn_stat (snd (do_write cf c)) = conn_stat c"
  "was_cancelled (snd (do_write cf c)) = was_cancelled c"
  "recv_bound (snd (do_write cf c)) = recv_bound c"
  "sk_reads (socket (snd (do_write cf c))) = sk_reads (socket c)"
  "sk_sent (socket (snd (do_write cf c))) = sk_sent (socket c)"
  "sk_open (socket (snd (do_write cf c))) = sk_open (socket c)"
  by (auto simp: do_write_def Let_def split: sum.split)

text \<open>The core fact of the sending half, on every branch of \<^verbatim>\<open>do_write\<close>.\<close>

lemma do_write_stream:
  assumes "send_inv cf c"
  shows "send_backlog (snd (do_write cf c)) = send_backlog c" and "send_inv cf (snd (do_write cf c))"
proof -
  let ?b = "io_buffer (send_bound c)"
  have "send_backlog (snd (do_write cf c)) = send_backlog c \<and> send_inv cf (snd (do_write cf c))"
  proof (cases "send_status c = kSendDone \<and> conn_stat c = kWorking \<and> \<not> was_cancelled c \<and> get_length ?b \<noteq> 0")
    case True
    then have "do_write cf c = (True, start_block cf (min (unat (get_length ?b)) kFixedIoBufferSize) c)"
      using assms by (intro do_write_starts) (auto simp: send_inv_def)
    moreover have "min (unat (get_length ?b)) kFixedIoBufferSize \<le> length (buf_data ?b)"
      using get_length_unat [of ?b] by simp
    moreover have "0 < min (unat (get_length ?b)) kFixedIoBufferSize"
      using True by (simp add: unat_gt_0 kFixedIoBufferSize_def)
    ultimately show ?thesis
      using True start_block_stream [OF _ assms] by simp
  next
    case False
    then have "snd (do_write cf c) = c"
      by (auto simp: do_write_def get_conn_stat_def was_ops_cancelled_def)
    then show ?thesis using assms by simp
  qed
  then show "send_backlog (snd (do_write cf c)) = send_backlog c" and "send_inv cf (snd (do_write cf c))"
    by simp_all
qed

lemma do_write_returns:
  assumes "send_inv cf c" "conn_stat c = kWorking" "\<not> was_cancelled c"
  shows "fst (do_write cf c)"
proof (cases "send_status c = kSendDone \<and> get_length (io_buffer (send_bound c)) \<noteq> 0")
  case True
  then show ?thesis using do_write_starts [of c cf] assms by (simp add: send_inv_def)
next
  case False
  then show ?thesis using assms by (auto simp: do_write_def get_conn_stat_def was_ops_cancelled_def)
qed

section \<open>The server's connection is a sender\<close>

definition send_accepts :: "NetConf \<Rightarrow> Message \<Rightarrow> bool" where
  "send_accepts cf msg \<longleftrightarrow>
     \<not> (send_max_msg_size cf \<noteq> 0 \<and> h_length (m_header msg) > word_of_int (send_max_msg_size cf))"

definition push_message :: "endian \<Rightarrow> Message \<Rightarrow> TcpConn \<Rightarrow> TcpConn" where
  "push_message e msg c = c\<lparr>send_bound := (send_bound c)\<lparr>
     io_buffer := snd (Buffer_append e msg (io_buffer (send_bound c)))\<rparr>\<rparr>"

lemma async_send_message_eq:
  "snd (async_send_message e cf msg c) =
    (if send_accepts cf msg then snd (do_write cf (push_message e msg c)) else c)"
  "fst (async_send_message e cf msg c) = (if send_accepts cf msg then 0 else - 1)"
  by (simp_all add: async_send_message_def send_accepts_def push_message_def Let_def)

lemma push_message_stream:
  "send_inv cf c \<Longrightarrow> send_inv cf (push_message e msg c)"
  "send_backlog (push_message e msg c) = send_backlog c @ Message_net_str e msg"
  by (simp_all add: send_inv_def send_backlog_def in_flight_def push_message_def Buffer_append_data)

lemma push_message_frame [simp]:
  "conn_stat (push_message e msg c) = conn_stat c"
  "was_cancelled (push_message e msg c) = was_cancelled c"
  "recv_bound (push_message e msg c) = recv_bound c"
  "socket (push_message e msg c) = socket c"
  "send_status (push_message e msg c) = send_status c"
  by (simp_all add: push_message_def)

lemma async_send_message_frame:
  "conn_stat (snd (async_send_message e cf msg c)) = conn_stat c"
  "was_cancelled (snd (async_send_message e cf msg c)) = was_cancelled c"
  "recv_bound (snd (async_send_message e cf msg c)) = recv_bound c"
  "sk_reads (socket (snd (async_send_message e cf msg c))) = sk_reads (socket c)"
  "sk_sent (socket (snd (async_send_message e cf msg c))) = sk_sent (socket c)"
  "sk_open (socket (snd (async_send_message e cf msg c))) = sk_open (socket c)"
  by (simp_all add: async_send_message_eq do_write_frame)

lemma async_send_message_stream:
  assumes "send_inv cf c"
  shows "send_inv cf (snd (async_send_message e cf msg c))"
    and "send_backlog (snd (async_send_message e cf msg c)) =
      send_backlog c @ (if send_accepts cf msg then Message_net_str e msg else [])"
  using do_write_stream [OF push_message_stream(1) [OF assms]] assms
  by (simp_all add: async_send_message_eq push_message_stream(2))

text \<open>A completed write hands its block over and goes on with the rest.\<close>

definition finish_block :: "TcpConn \<Rightarrow> TcpConn" where
  "finish_block c = c\<lparr>
     socket := (socket c)\<lparr>sk_writes := [], sk_sent := sk_sent (socket c) @ in_flight c\<rparr>,
     ops_cancel_timer := None, send_status := kSendDone\<rparr>"

lemma io_write_ok_busy:
  assumes "send_inv cf c" "send_status c = kSend"
  shows "io_write_ok cf c = snd (do_write cf (finish_block c))"
proof -
  from assms obtain n where n: "sk_writes (socket c) = [n]" "0 < n" by (auto simp: send_inv_def)
  with assms(1) show ?thesis
    by (simp add: io_write_ok_def write_handler_def finish_block_def in_flight_def
      revoke_ops_cancel_timeout_def send_inv_def Let_def)
qed

lemma io_write_ok_idle:
  "send_inv cf c \<Longrightarrow> send_status c = kSendDone \<Longrightarrow> io_write_ok cf c = c"
  by (simp add: io_write_ok_def send_inv_def)

lemma finish_block_inv:
  "send_inv cf c \<Longrightarrow> send_inv cf (finish_block c)"
  "send_status (finish_block c) = kSendDone"
  "conn_stat (finish_block c) = conn_stat c"
  "was_cancelled (finish_block c) = was_cancelled c"
  "send_bound (finish_block c) = send_bound c"
  "send_backlog (finish_block c) = buf_data (io_buffer (send_bound c))"
  "sk_sent (socket (finish_block c)) = sk_sent (socket c) @ in_flight c"
  by (auto simp: send_inv_def finish_block_def send_backlog_def in_flight_def)

lemma SendStatus_neq_iff: "st \<noteq> kSendDone \<longleftrightarrow> st = kSend"
  by (cases st) simp_all

lemma io_write_ok_stream:
  assumes "send_inv cf c"
  shows "send_inv cf (io_write_ok cf c)"
    and "sent_bytes (io_write_ok cf c) @ send_backlog (io_write_ok cf c) = sent_bytes c @ send_backlog c"
    and "conn_stat (io_write_ok cf c) = conn_stat c"
    and "was_cancelled (io_write_ok cf c) = was_cancelled c"
proof -
  note fin = do_write_stream [OF finish_block_inv(1) [OF assms]]
  have "send_inv cf (io_write_ok cf c) \<and>
    sent_bytes (io_write_ok cf c) @ send_backlog (io_write_ok cf c) = sent_bytes c @ send_backlog c \<and>
    conn_stat (io_write_ok cf c) = conn_stat c \<and> was_cancelled (io_write_ok cf c) = was_cancelled c"
  proof (cases "send_status c = kSendDone")
    case True
    then show ?thesis using assms by (simp add: io_write_ok_idle)
  next
    case False
    then have "io_write_ok cf c = snd (do_write cf (finish_block c))"
      using assms by (simp add: io_write_ok_busy SendStatus_neq_iff)
    then show ?thesis
      using fin by (simp add: do_write_frame sent_bytes_def finish_block_inv send_backlog_def [of c])
  qed
  then show "send_inv cf (io_write_ok cf c)"
    and "sent_bytes (io_write_ok cf c) @ send_backlog (io_write_ok cf c) = sent_bytes c @ send_backlog c"
    and "conn_stat (io_write_ok cf c) = conn_stat c"
    and "was_cancelled (io_write_ok cf c) = was_cancelled c"
    by simp_all
qed

text \<open>
  A live connection is working, not cancelled, has less than \<open>2 ^ 32\<close> bytes queued (beyond that
  \<^verbatim>\<open>get_length\<close> wraps), and is idle only when it has nothing left.
\<close>

definition send_live :: "NetConf \<Rightarrow> TcpConn \<Rightarrow> bool" where
  "send_live cf c \<longleftrightarrow>
     send_inv cf c \<and> conn_stat c = kWorking \<and> \<not> was_cancelled c \<and>
     length (buf_data (io_buffer (send_bound c))) < 2 ^ 32 \<and>
     (send_status c = kSendDone \<longrightarrow> buf_data (io_buffer (send_bound c)) = [])"

lemma send_live_backlog:
  "send_live cf c \<Longrightarrow> send_backlog c = [] \<longleftrightarrow> send_status c = kSendDone"
  by (cases "send_status c") (auto simp: send_live_def send_inv_def send_backlog_def in_flight_def
    kFixedIoBufferSize_def)

lemma start_block_data:
  "buf_data (io_buffer (send_bound (start_block cf n c))) = drop n (buf_data (io_buffer (send_bound c)))"
  by (simp add: start_block_def Let_def)

lemma do_write_live:
  assumes "send_inv cf c" "conn_stat c = kWorking" "\<not> was_cancelled c"
    "length (buf_data (io_buffer (send_bound c))) < 2 ^ 32"
  shows "send_live cf (snd (do_write cf c))"
proof -
  let ?b = "io_buffer (send_bound c)"
  have eq: "get_length ?b = 0 \<longleftrightarrow> buf_data ?b = []" using assms(4) by (rule get_length_eq_0)
  consider "send_status c = kSend" | "send_status c = kSendDone" "buf_data ?b = []"
    | "send_status c = kSendDone" "buf_data ?b \<noteq> []" by (cases "send_status c") auto
  then show ?thesis
  proof cases
    case 1
    then show ?thesis using assms by (simp add: do_write_busy send_live_def)
  next
    case 2
    then show ?thesis using assms eq by (simp add: do_write_idle send_live_def)
  next
    case 3
    then have "do_write cf c = (True, start_block cf (min (unat (get_length ?b)) kFixedIoBufferSize) c)"
      using assms eq by (intro do_write_starts) (auto simp: send_inv_def)
    with do_write_stream(2) [OF assms(1)] assms show ?thesis
      by (simp add: send_live_def start_block_data)
  qed
qed

lemma io_write_ok_live:
  assumes "send_live cf c"
  shows "send_live cf (io_write_ok cf c)"
proof (cases "send_status c = kSendDone")
  case True
  then show ?thesis using assms by (simp add: io_write_ok_idle send_live_def)
next
  case False
  then have "io_write_ok cf c = snd (do_write cf (finish_block c))"
    using assms by (simp add: io_write_ok_busy SendStatus_neq_iff send_live_def)
  then show ?thesis
    using assms do_write_live [of cf "finish_block c"] by (simp add: finish_block_inv send_live_def)
qed

lemma io_write_ok_progress:
  assumes "send_live cf c" "send_backlog c \<noteq> []"
  shows "length (send_backlog (io_write_ok cf c)) < length (send_backlog c)"
proof -
  have inv: "send_inv cf c" and st: "send_status c = kSend"
    using assms send_live_backlog [OF assms(1)] by (auto simp: send_live_def SendStatus_neq_iff)
  then have "send_backlog (io_write_ok cf c) = buf_data (io_buffer (send_bound c))"
    using do_write_stream(1) [OF finish_block_inv(1)] by (simp add: io_write_ok_busy finish_block_inv)
  moreover obtain n where "sk_writes (socket c) = [n]" "0 < n" "n \<le> kFixedIoBufferSize"
    using inv st by (auto simp: send_inv_def)
  ultimately show ?thesis
    using inv by (simp add: send_backlog_def in_flight_def send_inv_def)
qed

interpretation srv_send: live_sender "send_inv cf" "\<lambda>msg c. snd (async_send_message e cf msg c)"
  "io_write_ok cf" "Message_net_str e" "send_accepts cf" sent_bytes send_backlog "send_live cf"
  for e cf
proof unfold_locales
  fix c msg
  assume inv: "send_inv cf c"
  show "send_inv cf (snd (async_send_message e cf msg c))"
    using inv by (rule async_send_message_stream)
  show "send_inv cf (io_write_ok cf c)" using inv by (rule io_write_ok_stream)
  show "sent_bytes (snd (async_send_message e cf msg c)) @ send_backlog (snd (async_send_message e cf msg c)) =
      sent_bytes c @ send_backlog c @ (if send_accepts cf msg then Message_net_str e msg else [])"
    using async_send_message_stream(2) [OF inv] by (simp add: sent_bytes_def async_send_message_frame)
  show "sent_bytes (io_write_ok cf c) @ send_backlog (io_write_ok cf c) = sent_bytes c @ send_backlog c"
    using inv by (rule io_write_ok_stream)
next
  fix c
  assume live: "send_live cf c"
  show "send_inv cf c" using live by (simp add: send_live_def)
  show "send_live cf (io_write_ok cf c)" using live by (rule io_write_ok_live)
  show "length (send_backlog (io_write_ok cf c)) < length (send_backlog c)" if "send_backlog c \<noteq> []"
    using live that by (rule io_write_ok_progress)
  show "send_backlog (io_write_ok cf c) = []" if "send_backlog c = []"
    using live that send_live_backlog [OF live] by (simp add: io_write_ok_idle send_live_def)
qed

end
