(* ===== verification/RpcInstance.thy ===== *)
theory RpcInstance
  imports RpcResponseMessage TcpConnWrite
begin

text \<open>
  \<^verbatim>\<open>source/RPC/RpcInstance.h\<close> and \<^verbatim>\<open>.cpp\<close>: one request on its way through the server.  The weak
  pointer to the connection is the connection's number; the operations that lock it take the
  connection it denotes, \<open>None\<close> when it has been released, and give back its new state.  The
  creation time, which nothing reads, is left out.
\<close>

record RpcInstance =
  full_socket :: nat
  request :: Buffer
  rpc_request_message :: RpcRequestMessage
  response :: Buffer
  rpc_response_message :: RpcResponseMessage
  msg_size :: int
  service_id :: u16
  opcode :: u16

definition RpcInstance_new :: "bytes \<Rightarrow> nat \<Rightarrow> int \<Rightarrow> RpcInstance" where
  "RpcInstance_new str_request sock sz = \<lparr>full_socket = sock, request = Buffer_of_string str_request,
     rpc_request_message = RpcRequestMessage_default, response = Buffer_new,
     rpc_response_message = RpcResponseMessage_default, msg_size = sz,
     service_id = - 1, opcode = - 1\<rparr>"

definition get_service_id :: "RpcInstance \<Rightarrow> u16" where
  "get_service_id r = service_id r"

definition get_opcode :: "RpcInstance \<Rightarrow> u16" where
  "get_opcode r = opcode r"

definition get_rpc_request_message :: "RpcInstance \<Rightarrow> RpcRequestMessage" where
  "get_rpc_request_message r = rpc_request_message r"

text \<open>
  \<^verbatim>\<open>msg_size_ - sizeof(RpcRequestHeader)\<close> is a \<^verbatim>\<open>size_t\<close> cut to 32 bits for \<^verbatim>\<open>consume\<close>, which is
  32-bit subtraction.
\<close>

definition validate_request :: "endian \<Rightarrow> RpcInstance \<Rightarrow> bool \<times> RpcInstance" where
  "validate_request e r =
     (if unat (get_length (request r)) < sizeof_RpcRequestHeader then (False, r)
      else
        let (_, head_str, b1) = consume [] (u32_of_size sizeof_RpcRequestHeader) (request r);
            header = RpcRequestHeader_from_net_endian e (RpcRequestHeader_of_mem e head_str);
            r1 = r\<lparr>request := b1\<rparr>
        in if rq_magic header \<noteq> kRpcHeaderMagic \<or> rq_version header \<noteq> kRpcHeaderVersion
           then (False, r1)
           else
             let r2 = r1\<lparr>service_id := rq_service_id header, opcode := rq_opcode header\<rparr>;
                 (_, msg_str, b2) = consume []
                   (word_of_int (msg_size r2) - u32_of_size sizeof_RpcRequestHeader) (request r2);
                 r3 = r2\<lparr>request := b2\<rparr>
             in if msg_str = [] then (False, r3)
                else (True, r3\<lparr>rpc_request_message :=
                       \<lparr>rqm_header = header, rqm_payload = msg_str\<rparr>\<rparr>))"

definition reply_rpc_message ::
  "endian \<Rightarrow> NetConf \<Rightarrow> RpcInstance \<Rightarrow> bytes \<Rightarrow> TcpConn option \<Rightarrow> TcpConn option" where
  "reply_rpc_message e cf r msg sock =
     (let rpc_response_message = RpcResponseMessage_of (service_id r) (opcode r) msg;
          net_msg = Message_of (RpcResponseMessage_net_str e rpc_response_message)
      in case sock of
           None \<Rightarrow> None
         | Some s \<Rightarrow> Some (snd (async_send_message e cf net_msg s)))"

definition reject ::
  "endian \<Rightarrow> NetConf \<Rightarrow> RpcInstance \<Rightarrow> RpcResponseStatus \<Rightarrow> TcpConn option \<Rightarrow> TcpConn option" where
  "reject e cf r status sock =
     (let rpc_response_message = RpcResponseMessage_status status;
          net_msg = Message_of (RpcResponseMessage_net_str e rpc_response_message)
      in case sock of
           None \<Rightarrow> None
         | Some s \<Rightarrow> Some (snd (async_send_message e cf net_msg s)))"

section \<open>Validation\<close>

text \<open>The instance the connection makes for a received payload.\<close>

definition instance_of :: "nat \<Rightarrow> bytes \<Rightarrow> RpcInstance" where
  "instance_of sock p = RpcInstance_new p sock (sint (u32_of_size (length p)))"

text \<open>
  A payload is a well-formed request when it is longer than the request header and starts with the
  right magic and version; an empty request body is not accepted.
\<close>

definition request_ok :: "endian \<Rightarrow> bytes \<Rightarrow> bool" where
  "request_ok e p \<longleftrightarrow> sizeof_RpcRequestHeader < length p \<and>
     rq_magic (RpcRequestHeader_decode e p) = kRpcHeaderMagic \<and>
     rq_version (RpcRequestHeader_decode e p) = kRpcHeaderVersion"

lemma RpcRequestHeader_decode_take [simp]:
  "RpcRequestHeader_decode e (take sizeof_RpcRequestHeader p) = RpcRequestHeader_decode e p"
  by (cases e) (simp_all add: RpcRequestHeader_decode_def RpcRequestHeader_of_mem_def
    sizeof_RpcRequestHeader_def)

lemma unat_sizeof_RpcRequestHeader [simp]:
  "unat (u32_of_size sizeof_RpcRequestHeader) = sizeof_RpcRequestHeader"
  by (simp add: sizeof_RpcRequestHeader_def)

lemma request_body_size:
  assumes "sizeof_RpcRequestHeader \<le> n" "n < 2 ^ 32"
  shows "unat (word_of_int (sint (u32_of_size n)) - u32_of_size sizeof_RpcRequestHeader) =
    n - sizeof_RpcRequestHeader"
proof -
  have "u32_of_size sizeof_RpcRequestHeader \<le> u32_of_size n"
    using assms by (simp add: word_le_nat_alt)
  then show ?thesis using assms by (simp add: unat_sub)
qed

text \<open>What \<^verbatim>\<open>validate_request\<close> gives on every payload of less than \<open>2 ^ 32\<close> bytes.\<close>

lemma validate_request_eq:
  fixes p :: bytes
  assumes "length p < 2 ^ 32"
  shows "fst (validate_request e (instance_of i p)) = request_ok e p"
    and "request_ok e p \<Longrightarrow> snd (validate_request e (instance_of i p)) =
      (instance_of i p)\<lparr>request := Buffer_new, service_id := rq_service_id (RpcRequestHeader_decode e p),
        opcode := rq_opcode (RpcRequestHeader_decode e p),
        rpc_request_message := \<lparr>rqm_header = RpcRequestHeader_decode e p,
          rqm_payload = drop sizeof_RpcRequestHeader p\<rparr>\<rparr>"
proof -
  let ?n = sizeof_RpcRequestHeader
  have len: "unat (get_length (Buffer_of_string p)) = length p"
    using assms by (simp add: get_length_def Buffer_of_string_def)
  have head: "consume [] (u32_of_size ?n) (Buffer_of_string p) =
      (True, take ?n p, \<lparr>buf_data = drop ?n p\<rparr>)" if "?n \<le> length p"
    using that by (auto simp: consume_def Buffer_of_string_def sizeof_RpcRequestHeader_def u32_of_size_def)
  let ?w = "word_of_int (sint (u32_of_size (length p))) - u32_of_size ?n :: u32"
  have body: "consume [] ?w \<lparr>buf_data = drop ?n p\<rparr> =
      (if ?n < length p then (True, drop ?n p, Buffer_new) else (False, [], Buffer_new))" if "?n \<le> length p"
    using request_body_size [OF that assms] that
    by (auto simp: consume_def Buffer_new_def simp flip: unat_gt_0)
  show "fst (validate_request e (instance_of i p)) = request_ok e p"
  proof (cases "?n \<le> length p")
    case True
    then show ?thesis
      using head [OF True] body [OF True] RpcRequestHeader_decode_take [of e p]
      by (auto simp: validate_request_def instance_of_def RpcInstance_new_def len request_ok_def Let_def
        RpcRequestHeader_decode_def)
  next
    case False
    then show ?thesis
      by (simp add: validate_request_def instance_of_def RpcInstance_new_def len request_ok_def)
  qed
  assume ok: "request_ok e p"
  then have "?n \<le> length p" "?n < length p" by (simp_all add: request_ok_def)
  then show "snd (validate_request e (instance_of i p)) =
      (instance_of i p)\<lparr>request := Buffer_new, service_id := rq_service_id (RpcRequestHeader_decode e p),
        opcode := rq_opcode (RpcRequestHeader_decode e p),
        rpc_request_message := \<lparr>rqm_header = RpcRequestHeader_decode e p,
          rqm_payload = drop ?n p\<rparr>\<rparr>"
    using head body ok RpcRequestHeader_decode_take [of e p]
    by (simp add: validate_request_def instance_of_def RpcInstance_new_def len request_ok_def Let_def
      RpcRequestHeader_decode_def)
qed

section \<open>Replies\<close>

definition reply_frame :: "endian \<Rightarrow> u16 \<Rightarrow> u16 \<Rightarrow> bytes \<Rightarrow> Message" where
  "reply_frame e sid op msg = Message_of (RpcResponseMessage_net_str e (RpcResponseMessage_of sid op msg))"

definition reject_frame :: "endian \<Rightarrow> RpcResponseStatus \<Rightarrow> Message" where
  "reject_frame e status = Message_of (RpcResponseMessage_net_str e (RpcResponseMessage_status status))"

lemma reply_rpc_message_eq:
  "reply_rpc_message e cf r msg sock =
    map_option (\<lambda>s. snd (async_send_message e cf (reply_frame e (service_id r) (opcode r) msg) s)) sock"
  by (cases sock) (simp_all add: reply_rpc_message_def reply_frame_def)

lemma reject_eq:
  "reject e cf r status sock =
    map_option (\<lambda>s. snd (async_send_message e cf (reject_frame e status) s)) sock"
  by (cases sock) (simp_all add: reject_def reject_frame_def)

end
