(* ===== verification/XtraTaskService.thy ===== *)
theory XtraTaskService
  imports RpcInstance
begin

text \<open>
  The demo service: \<^verbatim>\<open>source/RPC/Service.h\<close> (\<open>ExecutorConf\<close>), \<^verbatim>\<open>source/Protocol/ServiceImpl/RpcServiceBase.h\<close>
  and \<^verbatim>\<open>XtraTaskService.h/.cpp\<close>, with the message types of \<^verbatim>\<open>source/Protocol/source/XtraTask.proto\<close>.

  The protobuf code is generated and is not part of the repository, so unmarshalling a request and
  marshalling a response are arguments.  A configuration's list of service sections is given as
  what libconfig's lookups return on it.  \<^verbatim>\<open>ExecutorConf conf;\<close> is not initialised in two methods;
  its contents are the argument \<open>junk\<close>.
\<close>

section \<open>Executor settings\<close>

record ExecutorConf =
  exec_thread_number :: int
  exec_thread_number_hard :: int
  exec_thread_step_size :: int

definition ExecutorConf_zero :: ExecutorConf where
  "ExecutorConf_zero = \<lparr>exec_thread_number = 0, exec_thread_number_hard = 0, exec_thread_step_size = 0\<rparr>"

text \<open>One entry of the service list: its instance name and its integer settings.\<close>

record service_setting =
  ss_instance_name :: "string option"
  ss_int :: "string \<Rightarrow> int option"

text \<open>\<^verbatim>\<open>lookup(path)\<close> of the service list; \<open>None\<close> is \<^verbatim>\<open>SettingNotFoundException\<close>.\<close>

type_synonym service_lookup = "string \<Rightarrow> service_setting list option"

definition base_handle_rpc_service_conf :: "service_setting \<Rightarrow> ExecutorConf \<Rightarrow> int \<times> ExecutorConf" where
  "base_handle_rpc_service_conf setting conf0 =
     (let conf1 = conf0\<lparr>
            exec_thread_number := lookupValue (ss_int setting) ''exec_thread_pool_size'' (exec_thread_number conf0),
            exec_thread_number_hard := lookupValue (ss_int setting) ''exec_thread_pool_size_hard'' (exec_thread_number_hard conf0),
            exec_thread_step_size := lookupValue (ss_int setting) ''exec_thread_pool_step_size'' (exec_thread_step_size conf0)\<rparr>;
          conf2 = (if exec_thread_number_hard conf1 < exec_thread_number conf1
                   then conf1\<lparr>exec_thread_number_hard := exec_thread_number conf1\<rparr> else conf1)
      in if exec_thread_number conf2 \<le> 0 \<or> exec_thread_number conf2 > 100 \<or>
            exec_thread_number_hard conf2 > 100 \<or> exec_thread_number_hard conf2 < exec_thread_number conf2
         then (- 1, conf2)
         else if exec_thread_step_size conf2 < 0 then (- 1, conf2)
         else (0, conf2))"

section \<open>The service object\<close>

record XtraTaskService =
  instance_name :: string
  conf_ptr :: "ExecutorConf option"

definition XtraTaskService_new :: "string \<Rightarrow> XtraTaskService" where
  "XtraTaskService_new name = \<lparr>instance_name = name, conf_ptr = None\<rparr>"

text \<open>
  The method's result type is \<^verbatim>\<open>bool\<close>, and both failure branches say \<^verbatim>\<open>return -1\<close>, which converts to
  \<^verbatim>\<open>true\<close>.
\<close>

definition bool_of_int :: "int \<Rightarrow> bool" where
  "bool_of_int i \<longleftrightarrow> i \<noteq> 0"

definition int_of_bool :: "bool \<Rightarrow> int" where
  "int_of_bool b = (if b then 1 else 0)"

definition handle_rpc_service_conf :: "ExecutorConf \<Rightarrow> service_setting \<Rightarrow> XtraTaskService \<Rightarrow> bool \<times> XtraTaskService" where
  "handle_rpc_service_conf junk setting sv =
     (let sv1 = (case conf_ptr sv of None \<Rightarrow> sv\<lparr>conf_ptr := Some ExecutorConf_zero\<rparr> | Some _ \<Rightarrow> sv);
          (ret, conf) = base_handle_rpc_service_conf setting junk
      in if ret \<noteq> 0 then (bool_of_int (- 1), sv1)
         else (True, sv1\<lparr>conf_ptr := Some conf\<rparr>))"

text \<open>The loop of \<^verbatim>\<open>init\<close> over the service list; the first result says whether a section matched.\<close>

fun init_loop :: "ExecutorConf \<Rightarrow> service_setting list \<Rightarrow> XtraTaskService \<Rightarrow> bool \<times> XtraTaskService" where
  "init_loop junk [] sv = (False, sv)"
| "init_loop junk (service # rest) sv =
     (let name = (case ss_instance_name service of None \<Rightarrow> '''' | Some n \<Rightarrow> n)
      in if name = '''' then init_loop junk rest sv
         else if name = instance_name sv
              then (let (ok, sv') = handle_rpc_service_conf junk service sv
                    in if \<not> ok then (False, sv') else (True, sv'))
              else init_loop junk rest sv)"

definition service_init :: "ExecutorConf \<Rightarrow> service_lookup option \<Rightarrow> XtraTaskService \<Rightarrow> bool \<times> XtraTaskService" where
  "service_init junk setting_ptr sv =
     (case setting_ptr of
        None \<Rightarrow> (False, sv)
      | Some conf \<Rightarrow>
          (case conf ''rpc.services'' of
             None \<Rightarrow> (False, sv)
           | Some rpc_services \<Rightarrow> init_loop junk rpc_services sv))"

definition get_executor_conf :: "XtraTaskService \<Rightarrow> ExecutorConf option" where
  "get_executor_conf sv = conf_ptr sv"

text \<open>
  \<open>None\<close>, here and in what calls it: valid settings are written through \<^verbatim>\<open>conf_ptr_\<close>, which is null as long
  as \<^verbatim>\<open>handle_rpc_service_conf\<close> has not run.
\<close>

definition handle_rpc_service_runtime_conf ::
  "ExecutorConf \<Rightarrow> service_setting \<Rightarrow> XtraTaskService \<Rightarrow> (bool \<times> XtraTaskService) option" where
  "handle_rpc_service_runtime_conf junk setting sv =
     (let (ret, conf) = base_handle_rpc_service_conf setting junk
      in if ret \<noteq> 0 then Some (bool_of_int (- 1), sv)
         else (case conf_ptr sv of
                 None \<Rightarrow> None
               | Some _ \<Rightarrow> Some (bool_of_int 0, sv\<lparr>conf_ptr := Some conf\<rparr>)))"

fun runtime_loop :: "ExecutorConf \<Rightarrow> service_setting list \<Rightarrow> XtraTaskService \<Rightarrow> (int \<times> XtraTaskService) option" where
  "runtime_loop junk [] sv = Some (- 1, sv)"
| "runtime_loop junk (service # rest) sv =
     (let name = (case ss_instance_name service of None \<Rightarrow> '''' | Some n \<Rightarrow> n)
      in if name = instance_name sv
         then map_option (\<lambda>(b, sv'). (int_of_bool b, sv')) (handle_rpc_service_runtime_conf junk service sv)
         else runtime_loop junk rest sv)"

definition service_module_runtime :: "ExecutorConf \<Rightarrow> service_lookup \<Rightarrow> XtraTaskService \<Rightarrow> (int \<times> XtraTaskService) option" where
  "service_module_runtime junk conf sv =
     (case conf ''rpc_services'' of
        None \<Rightarrow> Some (- 1, sv)
      | Some rpc_services \<Rightarrow> runtime_loop junk rpc_services sv)"

definition service_module_status :: "XtraTaskService \<Rightarrow> int" where
  "service_module_status sv = 0"

section \<open>Messages\<close>

record XtraReadOps_Request =
  req_ping :: "bytes option"
  req_gets :: "bytes option"
  req_echo :: "bytes option"
  req_timeout :: "int option"

record XtraReadOps_Response =
  rsp_code :: "int option"
  rsp_msg :: "bytes option"
  rsp_ping :: "bytes option"
  rsp_gets :: "bytes option"
  rsp_echo :: "bytes option"
  rsp_timeout :: "bytes option"

definition XtraReadOps_Response_empty :: XtraReadOps_Response where
  "XtraReadOps_Response_empty = \<lparr>rsp_code = None, rsp_msg = None, rsp_ping = None, rsp_gets = None,
     rsp_echo = None, rsp_timeout = None\<rparr>"

definition CMD_READ :: u16 where
  "CMD_READ = 1"

definition CMD_WRITE :: u16 where
  "CMD_WRITE = 2"

text \<open>The UTF-8 bytes of the error text of \<^verbatim>\<open>read_ops_impl\<close> (four Chinese characters, "parameter error").\<close>

definition param_error_text :: bytes where
  "param_error_text = [0xE5, 0x8F, 0x82, 0xE6, 0x95, 0xB0, 0xE9, 0x94, 0x99, 0xE8, 0xAF, 0xAF]"

section \<open>Handlers\<close>

text \<open>
  The handlers return the seconds passed to \<^verbatim>\<open>::sleep\<close> (its argument is unsigned) and the new state
  of the connection.
\<close>

definition read_ops_impl ::
  "(bytes \<Rightarrow> XtraReadOps_Request option) \<Rightarrow> (XtraReadOps_Response \<Rightarrow> bytes) \<Rightarrow> endian \<Rightarrow> NetConf \<Rightarrow>
     RpcInstance \<Rightarrow> TcpConn option \<Rightarrow> nat \<times> TcpConn option" where
  "read_ops_impl unmarshal marshal e cf r sock =
     (if rq_opcode (rqm_header (get_rpc_request_message r)) \<noteq> CMD_READ
      then (0, reject e cf r INVALID_REQUEST sock)
      else
        let response = XtraReadOps_Response_empty\<lparr>rsp_code := Some 0, rsp_msg := Some (str_bytes ''OK'')\<rparr>
        in case unmarshal (rqm_payload (get_rpc_request_message r)) of
             None \<Rightarrow> (0, reply_rpc_message e cf r
                       (marshal (response\<lparr>rsp_code := Some (- 1), rsp_msg := Some param_error_text\<rparr>)) sock)
           | Some req \<Rightarrow>
               if req_ping req \<noteq> None
               then (0, reply_rpc_message e cf r (marshal (response\<lparr>rsp_ping := Some (str_bytes ''[[[pong]]]'')\<rparr>)) sock)
               else if req_gets req \<noteq> None
               then (0, reply_rpc_message e cf r (marshal (response\<lparr>rsp_gets := Some (str_bytes ''[[[pong]]]'')\<rparr>)) sock)
               else if req_echo req \<noteq> None
               then (0, reply_rpc_message e cf r
                      (marshal (response\<lparr>rsp_echo := Some (str_bytes ''echo:'' @ the (req_echo req))\<rparr>)) sock)
               else if req_timeout req \<noteq> None
               then (unat (word_of_int (the (req_timeout req)) :: u32),
                     reply_rpc_message e cf r
                       (marshal (response\<lparr>rsp_timeout := Some (str_bytes ''you should not see this.'')\<rparr>)) sock)
               else (0, reject e cf r INVALID_REQUEST sock))"

definition write_ops_impl :: "endian \<Rightarrow> NetConf \<Rightarrow> RpcInstance \<Rightarrow> TcpConn option \<Rightarrow> nat \<times> TcpConn option" where
  "write_ops_impl e cf r sock = (0, reply_rpc_message e cf r (str_bytes ''nicol_write_reply'') sock)"

definition service_handle_RPC ::
  "(bytes \<Rightarrow> XtraReadOps_Request option) \<Rightarrow> (XtraReadOps_Response \<Rightarrow> bytes) \<Rightarrow> endian \<Rightarrow> NetConf \<Rightarrow>
     RpcInstance \<Rightarrow> TcpConn option \<Rightarrow> nat \<times> TcpConn option" where
  "service_handle_RPC unmarshal marshal e cf r sock =
     (if get_opcode r = CMD_READ then read_ops_impl unmarshal marshal e cf r sock
      else if get_opcode r = CMD_WRITE then write_ops_impl e cf r sock
      else (0, reject e cf r INVALID_REQUEST sock))"

section \<open>What the handlers send\<close>

text \<open>
  Every request the service handles gets exactly one frame: a reply with the request's service and
  opcode, or a reject.  This is the frame, as a function of the request alone.
\<close>

definition service_answer ::
  "(bytes \<Rightarrow> XtraReadOps_Request option) \<Rightarrow> (XtraReadOps_Response \<Rightarrow> bytes) \<Rightarrow> endian \<Rightarrow> RpcInstance \<Rightarrow> Message" where
  "service_answer unmarshal marshal e r =
     (let ok = XtraReadOps_Response_empty\<lparr>rsp_code := Some 0, rsp_msg := Some (str_bytes ''OK'')\<rparr>;
          reply = (\<lambda>rsp. reply_frame e (service_id r) (opcode r) (marshal rsp))
      in if opcode r = CMD_WRITE then reply_frame e (service_id r) (opcode r) (str_bytes ''nicol_write_reply'')
         else if opcode r \<noteq> CMD_READ \<or> rq_opcode (rqm_header (rpc_request_message r)) \<noteq> CMD_READ
         then reject_frame e INVALID_REQUEST
         else case unmarshal (rqm_payload (rpc_request_message r)) of
                None \<Rightarrow> reply (ok\<lparr>rsp_code := Some (- 1), rsp_msg := Some param_error_text\<rparr>)
              | Some req \<Rightarrow>
                  (case (req_ping req, req_gets req, req_echo req, req_timeout req) of
                     (Some _, _, _, _) \<Rightarrow> reply (ok\<lparr>rsp_ping := Some (str_bytes ''[[[pong]]]'')\<rparr>)
                   | (None, Some _, _, _) \<Rightarrow> reply (ok\<lparr>rsp_gets := Some (str_bytes ''[[[pong]]]'')\<rparr>)
                   | (None, None, Some m, _) \<Rightarrow> reply (ok\<lparr>rsp_echo := Some (str_bytes ''echo:'' @ m)\<rparr>)
                   | (None, None, None, Some _) \<Rightarrow>
                       reply (ok\<lparr>rsp_timeout := Some (str_bytes ''you should not see this.'')\<rparr>)
                   | _ \<Rightarrow> reject_frame e INVALID_REQUEST))"

lemma service_handle_RPC_answer:
  "snd (service_handle_RPC unmarshal marshal e cf r sock) =
    map_option (\<lambda>s. snd (async_send_message e cf (service_answer unmarshal marshal e r) s)) sock"
  unfolding service_handle_RPC_def read_ops_impl_def write_ops_impl_def service_answer_def
  by (auto simp: get_opcode_def get_rpc_request_message_def reply_rpc_message_eq reject_eq Let_def
    CMD_READ_def CMD_WRITE_def split: option.split)

section \<open>What the settings guarantee\<close>

definition executor_conf_valid :: "ExecutorConf \<Rightarrow> bool" where
  "executor_conf_valid conf \<longleftrightarrow>
     0 < exec_thread_number conf \<and> exec_thread_number conf \<le> exec_thread_number_hard conf \<and>
     exec_thread_number_hard conf \<le> 100 \<and> 0 \<le> exec_thread_step_size conf"

lemma base_handle_rpc_service_conf_valid:
  "base_handle_rpc_service_conf setting conf0 = (0, conf) \<Longrightarrow> executor_conf_valid conf"
  by (auto simp: base_handle_rpc_service_conf_def Let_def executor_conf_valid_def split: if_splits)

text \<open>A service that has its settings keeps having them.\<close>

lemma service_runtime_configured:
  assumes "conf_ptr sv \<noteq> None"
  shows "\<exists>ret sv'. service_module_runtime junk conf sv = Some (ret, sv') \<and> conf_ptr sv' \<noteq> None"
proof -
  have "\<exists>b sv'. handle_rpc_service_runtime_conf junk setting sv = Some (b, sv') \<and> conf_ptr sv' \<noteq> None" for setting
    using assms by (auto simp: handle_rpc_service_runtime_conf_def case_prod_beta Let_def)
  then have "\<exists>ret sv'. runtime_loop junk xs sv = Some (ret, sv') \<and> conf_ptr sv' \<noteq> None" for xs
    using assms by (induction xs) (fastforce simp: Let_def)+
  then show ?thesis using assms by (simp add: service_module_runtime_def split: option.split)
qed

lemma base_handle_rpc_service_conf_ret:
  "fst (base_handle_rpc_service_conf setting conf0) \<in> {0, - 1}"
  by (simp add: base_handle_rpc_service_conf_def Let_def)

lemma base_handle_rpc_service_conf_complete:
  assumes "ss_int setting ''exec_thread_pool_size'' = Some n"
    and "ss_int setting ''exec_thread_pool_size_hard'' = Some h"
    and "ss_int setting ''exec_thread_pool_step_size'' = Some st"
  shows "base_handle_rpc_service_conf setting junk = base_handle_rpc_service_conf setting junk'"
  using assms by (simp add: base_handle_rpc_service_conf_def Let_def)

end
