(* ===== verification/Executor.thy ===== *)
theory Executor
  imports XtraTaskService "HOL-Library.Signed_Division"
begin

text \<open>
  \<^verbatim>\<open>source/RPC/Executor.h\<close> and \<^verbatim>\<open>.cpp\<close>: the work queue and the worker threads in front of a service.
  \<^verbatim>\<open>roo::EQueue\<close>, \<^verbatim>\<open>roo::ThreadPool\<close> and the timer are library code outside the repository.  The queue
  is an argument, the record of its three operations, and \<open>fifo_queue\<close> names the behaviour the
  results below rely on; what the thread pool and the timer answer (\<open>init_threads\<close>, \<open>add_timer\<close>) are
  arguments too, and the executor records the pool sizes it asks for and the calls it makes to the pool.
\<close>

section \<open>The queue\<close>

record 'q EQueue =
  q_PUSH :: "RpcInstance \<Rightarrow> 'q \<Rightarrow> 'q"
  q_POP :: "'q \<Rightarrow> RpcInstance option \<times> 'q"
  q_SIZE :: "'q \<Rightarrow> nat"

text \<open>
  The documented behaviour of the queue, with \<open>contents\<close> listing what is in it: first in, first out.
  \<open>POP\<close> on an empty queue waits and then gives nothing.
\<close>

definition fifo_queue :: "'q EQueue \<Rightarrow> ('q \<Rightarrow> RpcInstance list) \<Rightarrow> bool" where
  "fifo_queue Q contents \<longleftrightarrow>
     (\<forall>x q. contents (q_PUSH Q x q) = contents q @ [x]) \<and>
     (\<forall>q. contents q = [] \<longrightarrow> fst (q_POP Q q) = None \<and> contents (snd (q_POP Q q)) = []) \<and>
     (\<forall>q x xs. contents q = x # xs \<longrightarrow> fst (q_POP Q q) = Some x \<and> contents (snd (q_POP Q q)) = xs) \<and>
     (\<forall>q. q_SIZE Q q = length (contents q))"

lemma fifo_queueD:
  assumes "fifo_queue Q contents"
  shows "contents (q_PUSH Q x q) = contents q @ [x]"
    and "contents q = [] \<Longrightarrow> fst (q_POP Q q) = None"
    and "contents q = [] \<Longrightarrow> contents (snd (q_POP Q q)) = []"
    and "contents q = y # ys \<Longrightarrow> fst (q_POP Q q) = Some y"
    and "contents q = y # ys \<Longrightarrow> contents (snd (q_POP Q q)) = ys"
    and "q_SIZE Q q = length (contents q)"
  using assms by (simp_all add: fifo_queue_def)

section \<open>State and operations\<close>

record 'q Executor =
  service_impl :: XtraTaskService
  rpc_queue :: 'q
  ex_conf :: ExecutorConf
  pool_sizes :: "int list"
  pool_started :: bool
  pool_stopping :: bool
  pool_joined :: bool
  adjust_timer :: bool
  status_attached :: bool
  ex_sane :: bool

definition Executor_new :: "'q \<Rightarrow> XtraTaskService \<Rightarrow> 'q Executor" where
  "Executor_new q0 service = \<lparr>service_impl = service, rpc_queue = q0, ex_conf = ExecutorConf_zero,
     pool_sizes = [], pool_started = False, pool_stopping = False, pool_joined = False,
     adjust_timer = False, status_attached = False, ex_sane = True\<rparr>"

definition executor_handle_RPC :: "'q EQueue \<Rightarrow> RpcInstance \<Rightarrow> 'q Executor \<Rightarrow> 'q Executor" where
  "executor_handle_RPC Q r ex = ex\<lparr>rpc_queue := q_PUSH Q r (rpc_queue ex)\<rparr>"

definition executor_instance_name :: "'q Executor \<Rightarrow> string" where
  "executor_instance_name ex = instance_name (service_impl ex)"

text \<open>\<open>None\<close>: the service has no configuration, and \<^verbatim>\<open>get_executor_conf\<close> dereferences a null pointer.\<close>

definition executor_init :: "(int \<Rightarrow> bool) \<Rightarrow> bool \<Rightarrow> 'q Executor \<Rightarrow> (bool \<times> 'q Executor) option" where
  "executor_init init_threads add_timer ex =
     (case get_executor_conf (service_impl ex) of
        None \<Rightarrow> None
      | Some conf \<Rightarrow>
          let ex1 = ex\<lparr>ex_conf := conf, ex_sane := ex_sane ex \<and> exec_thread_number conf > 0\<rparr>
          in if \<not> init_threads (exec_thread_number conf) then Some (False, ex1)
             else
               let ex2 = ex1\<lparr>pool_sizes := pool_sizes ex1 @ [exec_thread_number conf]\<rparr>
               in if exec_thread_number_hard conf > exec_thread_number conf \<and> exec_thread_step_size conf > 0
                  then (if \<not> add_timer then Some (False, ex2)
                        else Some (True, ex2\<lparr>adjust_timer := True, status_attached := True\<rparr>))
                  else Some (True, ex2\<lparr>status_attached := True\<rparr>))"

text \<open>The three calls that are passed on to the thread pool; each returns 0.\<close>

definition executor_start :: "'q Executor \<Rightarrow> int \<times> 'q Executor" where
  "executor_start ex = (0, ex\<lparr>pool_started := True\<rparr>)"

definition executor_stop_graceful :: "'q Executor \<Rightarrow> int \<times> 'q Executor" where
  "executor_stop_graceful ex = (0, ex\<lparr>pool_stopping := True\<rparr>)"

definition executor_join :: "'q Executor \<Rightarrow> int \<times> 'q Executor" where
  "executor_join ex = (0, ex\<lparr>pool_joined := True\<rparr>)"

text \<open>
  The thread count \<^verbatim>\<open>executor_threads_adjust\<close> computes.  The division is C's, truncating towards zero;
  \<open>None\<close> is the division by zero.
\<close>

definition expect_threads :: "ExecutorConf \<Rightarrow> int \<Rightarrow> int option" where
  "expect_threads conf queueSize =
     (let expect0 = exec_thread_number conf
      in if queueSize > exec_thread_step_size conf \<and> exec_thread_step_size conf = 0 then None
         else
           let expect1 = (if queueSize > exec_thread_step_size conf
                          then expect0 + queueSize sdiv exec_thread_step_size conf else expect0)
           in Some (if expect1 > exec_thread_number_hard conf then exec_thread_number_hard conf else expect1))"

definition executor_threads_adjust :: "'q EQueue \<Rightarrow> 'q Executor \<Rightarrow> 'q Executor option" where
  "executor_threads_adjust Q ex =
     (let conf = ex_conf ex;
          ex1 = ex\<lparr>ex_sane := ex_sane ex \<and> exec_thread_step_size conf > 0\<rparr>;
          queueSize = int (q_SIZE Q (rpc_queue ex1))
      in map_option (\<lambda>expect_thread. ex1\<lparr>pool_sizes := pool_sizes ex1 @ [expect_thread]\<rparr>)
           (expect_threads conf queueSize))"

datatype ThreadStatus = kSuspend | kThreadRunning | kTerminating | kDead

text \<open>
  One turn of a worker's loop.  The status is read once at the top; \<open>None\<close> as the popped request
  means the wait timed out.  The result says what the thread does next.
\<close>

datatype worker_turn = Stop | Sleep | Again | Handle RpcInstance

definition executor_service_turn :: "'q EQueue \<Rightarrow> ThreadStatus \<Rightarrow> 'q Executor \<Rightarrow> worker_turn \<times> 'q Executor" where
  "executor_service_turn Q st ex =
     (if st = kTerminating then (Stop, ex)
      else if st = kSuspend then (Sleep, ex)
      else
        let (r, q') = q_POP Q (rpc_queue ex); ex' = ex\<lparr>rpc_queue := q'\<rparr>
        in case r of None \<Rightarrow> (Again, ex') | Some inst \<Rightarrow> (Handle inst, ex'))"

text \<open>
  \<^verbatim>\<open>executor_service_run\<close> over the statuses the thread sees at the top of its turns: the requests it
  handles in order, its final status if it left the loop, and the executor afterwards.
\<close>

fun executor_service_run :: "'q EQueue \<Rightarrow> ThreadStatus list \<Rightarrow> 'q Executor \<Rightarrow> RpcInstance list \<times> ThreadStatus option \<times> 'q Executor" where
  "executor_service_run Q [] ex = ([], None, ex)"
| "executor_service_run Q (st # sts) ex =
     (case executor_service_turn Q st ex of
        (Stop, ex') \<Rightarrow> ([], Some kDead, ex')
      | (Handle r, ex') \<Rightarrow> (let (rs, fin, ex'') = executor_service_run Q sts ex' in (r # rs, fin, ex''))
      | (_, ex') \<Rightarrow> executor_service_run Q sts ex')"

definition executor_module_status :: "'q EQueue \<Rightarrow> int \<Rightarrow> 'q Executor \<Rightarrow> string \<times> string \<times> string" where
  "executor_module_status Q get_pool_size ex =
     (let tab = [CHR 0x09]; endl = [CHR 0x0A]; conf = ex_conf ex
      in (''tzrpc'', ''executor_'' @ executor_instance_name ex,
          tab @ ''instance_name: '' @ executor_instance_name ex @ endl @
          tab @ ''exec_thread_number: '' @ show_int (exec_thread_number conf) @ endl @
          tab @ ''exec_thread_number_hard(maxium): '' @ show_int (exec_thread_number_hard conf) @ endl @
          tab @ ''exec_thread_step_size: '' @ show_int (exec_thread_step_size conf) @ endl @
          tab @ endl @
          tab @ ''current_thread_number: '' @ show_int get_pool_size @ endl @
          tab @ ''current_queue_size: '' @ show_dec (q_SIZE Q (rpc_queue ex)) @ endl))"

definition executor_module_runtime :: "ExecutorConf \<Rightarrow> service_lookup \<Rightarrow> 'q Executor \<Rightarrow> (int \<times> 'q Executor) option" where
  "executor_module_runtime junk conf ex =
     (case service_module_runtime junk conf (service_impl ex) of
        None \<Rightarrow> None
      | Some (ret, sv) \<Rightarrow>
          let ex1 = ex\<lparr>service_impl := sv\<rparr>
          in if ret = 0 then map_option (\<lambda>c. (ret, ex1\<lparr>ex_conf := c\<rparr>)) (get_executor_conf sv)
             else Some (ret, ex1))"

section \<open>Properties\<close>

text \<open>Initialising an executor needs the service's settings; a runtime update keeps them.\<close>

lemma executor_init_conf:
  "executor_init init_threads add_timer (Executor_new q0 service) = Some (b, ex) \<Longrightarrow> conf_ptr (service_impl ex) \<noteq> None"
  by (auto simp: executor_init_def get_executor_conf_def Executor_new_def Let_def split: option.splits if_splits)

lemma executor_runtime_configured:
  assumes "conf_ptr (service_impl ex) \<noteq> None"
  shows "\<exists>ret ex'. executor_module_runtime junk conf ex = Some (ret, ex') \<and> conf_ptr (service_impl ex') \<noteq> None"
proof -
  obtain ret sv where "service_module_runtime junk conf (service_impl ex) = Some (ret, sv)" "conf_ptr sv \<noteq> None"
    using service_runtime_configured [OF assms] by blast
  then show ?thesis by (auto simp: executor_module_runtime_def get_executor_conf_def Let_def)
qed

lemma executor_runtime_queue:
  "executor_module_runtime junk conf ex = Some (ret, ex') \<Longrightarrow> rpc_queue ex' = rpc_queue ex"
  by (auto simp: executor_module_runtime_def Let_def split: option.splits if_splits)

text \<open>The pool size asked for lies between the normal and the hard limit.\<close>

lemma sdiv_nonneg: "0 \<le> n \<Longrightarrow> 0 < m \<Longrightarrow> n sdiv m = n div (m :: int)"
  by (cases "n = 0") (simp_all add: signed_divide_int_def)

lemma expect_threads_bounds:
  assumes "executor_conf_valid conf" "0 < exec_thread_step_size conf" "0 \<le> n"
  shows "\<exists>k. expect_threads conf n = Some k \<and> exec_thread_number conf \<le> k \<and> k \<le> exec_thread_number_hard conf"
proof -
  have "0 \<le> n sdiv exec_thread_step_size conf"
    using assms(2,3) by (simp add: sdiv_nonneg pos_imp_zdiv_nonneg_iff)
  then show ?thesis
    using assms(1,2) by (auto simp: expect_threads_def Let_def executor_conf_valid_def)
qed

text \<open>A longer queue never asks for fewer threads.\<close>

lemma expect_threads_mono:
  assumes "executor_conf_valid conf" "0 < exec_thread_step_size conf" "0 \<le> m" "m \<le> n"
    and "expect_threads conf m = Some j" "expect_threads conf n = Some k"
  shows "j \<le> k"
proof -
  have "m sdiv exec_thread_step_size conf \<le> n sdiv exec_thread_step_size conf"
    using assms(2,3,4) by (simp add: sdiv_nonneg zdiv_mono1)
  moreover have "0 \<le> m sdiv exec_thread_step_size conf"
    using assms(2,3) by (simp add: sdiv_nonneg pos_imp_zdiv_nonneg_iff)
  ultimately show ?thesis
    using assms by (auto simp: expect_threads_def Let_def executor_conf_valid_def split: if_splits)
qed

text \<open>With a step of zero, which the settings allow, a waiting request is a division by zero.\<close>

lemma expect_threads_zero_step:
  "exec_thread_step_size conf = 0 \<Longrightarrow> 0 < n \<Longrightarrow> expect_threads conf n = None"
  by (simp add: expect_threads_def)

lemma executor_init_sane:
  assumes "get_executor_conf (service_impl ex) = Some conf" "executor_conf_valid conf" "ex_sane ex"
    and "executor_init init_threads add_timer ex = Some (b, ex')"
  shows "ex_sane ex' \<and> ex_conf ex' = conf"
  using assms by (auto simp: executor_init_def Let_def executor_conf_valid_def split: if_splits)

text \<open>A worker takes requests off the queue in order and leaves the rest.\<close>

lemma executor_service_turn_cases:
  assumes "fifo_queue Q contents"
  shows "executor_service_turn Q st ex = (t, ex') \<Longrightarrow>
    (case t of
       Handle r \<Rightarrow> contents (rpc_queue ex) = r # contents (rpc_queue ex')
     | _ \<Rightarrow> contents (rpc_queue ex') = contents (rpc_queue ex))"
  using fifo_queueD(2-5) [OF assms, where q = "rpc_queue ex"]
  by (cases "contents (rpc_queue ex)")
    (auto simp: executor_service_turn_def case_prod_beta Let_def split: if_splits option.splits)

lemma executor_service_run_fifo:
  assumes "fifo_queue Q contents"
  shows "fst (executor_service_run Q sts ex) @ contents (rpc_queue (snd (snd (executor_service_run Q sts ex)))) =
    contents (rpc_queue ex)"
proof (induction sts arbitrary: ex)
  case Nil
  then show ?case by simp
next
  case (Cons st sts)
  obtain t ex' where t: "executor_service_turn Q st ex = (t, ex')" by fastforce
  show ?case
    using executor_service_turn_cases [OF assms t] Cons.IH [of ex'] t
    by (cases t) (simp_all add: case_prod_beta Let_def)
qed

text \<open>A thread that is told to terminate leaves its loop without taking another request.\<close>

lemma executor_service_run_stops:
  "fst (snd (executor_service_run Q sts ex)) \<noteq> None \<Longrightarrow> kTerminating \<in> set sts"
proof (induction sts arbitrary: ex)
  case Nil
  then show ?case by simp
next
  case (Cons st sts)
  obtain t ex' where t: "executor_service_turn Q st ex = (t, ex')" by fastforce
  show ?case
  proof (cases "t = Stop")
    case True
    then show ?thesis
      using t by (auto simp: executor_service_turn_def case_prod_beta Let_def split: if_splits option.splits)
  next
    case False
    then show ?thesis
      using Cons t by (cases t) (auto simp: case_prod_beta Let_def)
  qed
qed

lemma executor_service_run_terminate:
  "executor_service_run Q (kTerminating # sts) ex = ([], Some kDead, ex)"
  by (simp add: executor_service_turn_def)

end
