(* ===== verification/StdMap.thy ===== *)
theory StdMap
  imports Main
begin

text \<open>
  \<^verbatim>\<open>std::map\<close> as the dispatcher uses it: an association list sorted by key, with \<^verbatim>\<open>find\<close>, assignment
  through \<^verbatim>\<open>operator[]\<close>, update of a found entry and iteration in key order.  The locale states the
  laws the clients use; it is interpreted on the list operations.
\<close>

type_synonym ('k, 'v) std_map = "('k \<times> 'v) list"

definition map_wf :: "('k :: linorder, 'v) std_map \<Rightarrow> bool" where
  "map_wf m \<longleftrightarrow> sorted_wrt (<) (map fst m)"

definition map_find :: "('k, 'v) std_map \<Rightarrow> 'k \<Rightarrow> 'v option" where
  "map_find m k = map_of m k"

fun map_put :: "'k :: linorder \<Rightarrow> 'v \<Rightarrow> ('k, 'v) std_map \<Rightarrow> ('k, 'v) std_map" where
  "map_put k v [] = [(k, v)]"
| "map_put k v ((k', v') # m) =
     (if k < k' then (k, v) # (k', v') # m
      else if k = k' then (k, v) # m
      else (k', v') # map_put k v m)"

locale ordered_map =
  fixes wf :: "'m \<Rightarrow> bool"
    and find :: "'m \<Rightarrow> 'k :: linorder \<Rightarrow> 'v option"
    and put :: "'k \<Rightarrow> 'v \<Rightarrow> 'm \<Rightarrow> 'm"
    and entries :: "'m \<Rightarrow> ('k \<times> 'v) list"
  assumes wf_put: "wf m \<Longrightarrow> wf (put k v m)"
    and find_put: "find (put k v m) k' = (if k' = k then Some v else find m k')"
    and entries_sorted: "wf m \<Longrightarrow> sorted_wrt (<) (map fst (entries m))"
    and find_entries: "find m k = map_of (entries m) k"
begin

lemma find_put_same: "find (put k v m) k = Some v"
  by (simp add: find_put)

lemma find_put_other: "k' \<noteq> k \<Longrightarrow> find (put k v m) k' = find m k'"
  by (simp add: find_put)

text \<open>Writing an entry back changes nothing but that entry, and the key order is kept.\<close>

lemma entries_put_keys: "wf m \<Longrightarrow> find m k = Some v0 \<Longrightarrow> map fst (entries (put k v m)) = map fst (entries m)"
proof -
  assume wf: "wf m" and f: "find m k = Some v0"
  have "set (map fst (entries (put k v m))) = dom (find (put k v m))"
    unfolding find_entries by (simp add: dom_map_of_conv_image_fst)
  also have "\<dots> = dom (find m)" using f by (auto simp: find_put split: if_splits)
  also have "\<dots> = set (map fst (entries m))"
    unfolding find_entries by (simp add: dom_map_of_conv_image_fst)
  finally have keys: "set (map fst (entries (put k v m))) = set (map fst (entries m))" .
  have "sorted_wrt (<) (map fst (entries (put k v m)))" "sorted_wrt (<) (map fst (entries m))"
    using wf wf_put entries_sorted by blast+
  with keys show ?thesis by (meson strict_sorted_equal)
qed

end

lemma map_find_put: "map_find (map_put k v m) k' = (if k' = k then Some v else map_find m k')"
  unfolding map_find_def by (induction k v m rule: map_put.induct) auto

lemma map_put_keys: "set (map fst (map_put k v m)) = insert k (set (map fst m))"
  by (induction k v m rule: map_put.induct) auto

lemma map_wf_put: "map_wf m \<Longrightarrow> map_wf (map_put k v m)"
proof (induction k v m rule: map_put.induct)
  case (1 k v)
  then show ?case by (simp add: map_wf_def)
next
  case (2 k v k' v' m)
  then show ?case
    using map_put_keys [of k v m] by (auto simp: map_wf_def)
qed

interpretation smap: ordered_map map_wf map_find map_put "\<lambda>m. m"
  by unfold_locales (erule map_wf_put, rule map_find_put, simp add: map_wf_def, simp add: map_find_def)

end
