(* ===== verification/Dispatcher.thy ===== *)
theory Dispatcher
  imports Executor StdMap
begin

text \<open>
  \<^verbatim>\<open>source/RPC/Dispatcher.h\<close> and \<^verbatim>\<open>.cpp\<close>: the table of services and the routing of requests.  The
  singleton is a record passed along.  Every entry is an \<^verbatim>\<open>Executor\<close> (\<^verbatim>\<open>register_service\<close> makes them),
  so the \<^verbatim>\<open>dynamic_cast\<close> of \<^verbatim>\<open>init\<close> succeeds and the base-class pointer is the executor itself.
\<close>

record 'q Dispatcher =
  initialized :: bool
  services :: "(u16, 'q Executor) std_map"
  runtime_attached :: bool

definition Dispatcher_new :: "'q Dispatcher" where
  "Dispatcher_new = \<lparr>initialized = False, services = [], runtime_attached = False\<rparr>"

definition dispatcher_init :: "'q Dispatcher \<Rightarrow> bool \<times> 'q Dispatcher" where
  "dispatcher_init d =
     (let d1 = d\<lparr>initialized := True\<rparr>;
          d2 = d1\<lparr>services := map (\<lambda>(k, ex). (k, snd (executor_start ex))) (services d1)\<rparr>
      in (True, d2\<lparr>runtime_attached := True\<rparr>))"

text \<open>\<open>None\<close> is the null dereference of \<^verbatim>\<open>Executor::init\<close>.\<close>

definition register_service ::
  "'q \<Rightarrow> (int \<Rightarrow> bool) \<Rightarrow> bool \<Rightarrow> u16 \<Rightarrow> XtraTaskService \<Rightarrow> 'q Dispatcher \<Rightarrow> 'q Dispatcher option" where
  "register_service q0 init_threads add_timer sid service d =
     (if initialized d then Some d
      else
        case executor_init init_threads add_timer (Executor_new q0 service) of
          None \<Rightarrow> None
        | Some (ok, exec_service) \<Rightarrow>
            if \<not> ok then Some d
            else Some (d\<lparr>services := map_put sid exec_service (services d)\<rparr>))"

definition dispatcher_handle_RPC ::
  "'q EQueue \<Rightarrow> endian \<Rightarrow> NetConf \<Rightarrow> RpcInstance \<Rightarrow> 'q Dispatcher \<Rightarrow> TcpConn option \<Rightarrow> 'q Dispatcher \<times> TcpConn option" where
  "dispatcher_handle_RPC Q e cf r d sock =
     (let (valid, r1) = validate_request e r
      in if \<not> valid then (d, reject e cf r1 INVALID_REQUEST sock)
         else case map_find (services d) (get_service_id r1) of
                Some service \<Rightarrow>
                  (d\<lparr>services := map_put (get_service_id r1) (executor_handle_RPC Q r1 service) (services d)\<rparr>, sock)
              | None \<Rightarrow> (d, reject e cf r1 INVALID_SERVICE sock))"

text \<open>The loop of \<^verbatim>\<open>module_runtime\<close>: every executor in key order, the results summed.\<close>

fun runtime_services ::
  "ExecutorConf \<Rightarrow> service_lookup \<Rightarrow> (u16, 'q Executor) std_map \<Rightarrow> (int \<times> (u16, 'q Executor) std_map) option" where
  "runtime_services junk conf [] = Some (0, [])"
| "runtime_services junk conf ((k, ex) # rest) =
     (case executor_module_runtime junk conf ex of
        None \<Rightarrow> None
      | Some (ret, ex') \<Rightarrow>
          map_option (\<lambda>(sum, rest'). (ret + sum, (k, ex') # rest')) (runtime_services junk conf rest))"

definition dispatcher_module_runtime ::
  "ExecutorConf \<Rightarrow> service_lookup \<Rightarrow> 'q Dispatcher \<Rightarrow> (int \<times> 'q Dispatcher) option" where
  "dispatcher_module_runtime junk conf d =
     map_option (\<lambda>(ret, svs). (ret, d\<lparr>services := svs\<rparr>)) (runtime_services junk conf (services d))"

section \<open>Invariant\<close>

definition dispatcher_wf :: "'q Dispatcher \<Rightarrow> bool" where
  "dispatcher_wf d \<longleftrightarrow> map_wf (services d)"

lemma dispatcher_wf_new: "dispatcher_wf Dispatcher_new"
  by (simp add: dispatcher_wf_def Dispatcher_new_def map_wf_def)

lemma dispatcher_wf_init: "dispatcher_wf d \<Longrightarrow> dispatcher_wf (snd (dispatcher_init d))"
  by (simp add: dispatcher_wf_def dispatcher_init_def map_wf_def comp_def case_prod_beta Let_def)

lemma dispatcher_wf_register:
  "dispatcher_wf d \<Longrightarrow> register_service q it at sid sv d = Some d' \<Longrightarrow> dispatcher_wf d'"
  by (auto simp: dispatcher_wf_def register_service_def smap.wf_put split: if_splits option.splits)

lemma runtime_services_keys: "runtime_services junk conf m = Some (ret, m') \<Longrightarrow> map fst m' = map fst m"
  by (induction m arbitrary: ret m') (auto split: option.splits)

lemma dispatcher_runtime_keys:
  "dispatcher_module_runtime junk conf d = Some (ret, d') \<Longrightarrow> map fst (services d') = map fst (services d)"
  by (auto simp: dispatcher_module_runtime_def dest: runtime_services_keys)

lemma dispatcher_wf_runtime:
  "dispatcher_wf d \<Longrightarrow> dispatcher_module_runtime junk conf d = Some (ret, d') \<Longrightarrow> dispatcher_wf d'"
  by (simp add: dispatcher_wf_def map_wf_def dispatcher_runtime_keys)

lemma dispatcher_init_find:
  "map_find (services (snd (dispatcher_init d))) sid =
    map_option (\<lambda>ex. ex\<lparr>pool_started := True\<rparr>) (map_find (services d) sid)"
proof -
  have "map_of (map (\<lambda>(k, ex). (k, f ex)) m) sid = map_option f (map_of m sid)" for f :: "'q Executor \<Rightarrow> 'q Executor" and m
    by (induction m) auto
  then show ?thesis by (simp add: dispatcher_init_def map_find_def executor_start_def)
qed

lemma dispatcher_init_keys: "map fst (services (snd (dispatcher_init d))) = map fst (services d)"
  by (simp add: dispatcher_init_def comp_def case_prod_beta)

lemma dispatcher_handle_RPC_keys:
  "dispatcher_wf d \<Longrightarrow> map fst (services (fst (dispatcher_handle_RPC Q e cf r d sock))) = map fst (services d)"
  using smap.entries_put_keys [of "services d"]
  by (auto simp: dispatcher_handle_RPC_def case_prod_beta dispatcher_wf_def split: option.split)

text \<open>Registering adds one entry or replaces it, and leaves the others alone.\<close>

lemma register_service_cases:
  assumes "register_service q0 init_threads add_timer sid service d = Some d'"
  obtains "d' = d" | ex where "\<not> initialized d" "executor_init init_threads add_timer (Executor_new q0 service) = Some (True, ex)"
    "d' = d\<lparr>services := map_put sid ex (services d)\<rparr>"
  using assms by (auto simp: register_service_def split: if_splits option.splits prod.splits)

text \<open>Every registered service has its settings, so that an update can write them.\<close>

definition configured :: "'q Dispatcher \<Rightarrow> bool" where
  "configured d \<longleftrightarrow> (\<forall>(k, ex) \<in> set (services d). conf_ptr (service_impl ex) \<noteq> None)"

lemma map_put_set: "set (map_put k v m) \<subseteq> insert (k, v) (set m)"
  by (induction k v m rule: map_put.induct) auto

lemma configured_put:
  "configured d \<Longrightarrow> conf_ptr (service_impl ex) \<noteq> None \<Longrightarrow> configured (d\<lparr>services := map_put sid ex (services d)\<rparr>)"
  using map_put_set [of sid ex "services d"] by (fastforce simp: configured_def)

lemma configured_register:
  assumes "configured d" "register_service q0 init_threads add_timer sid service d = Some d'"
  shows "configured d'"
  using assms(2)
proof (cases rule: register_service_cases)
  case (2 ex)
  then show ?thesis using configured_put [OF assms(1)] executor_init_conf by (metis (no_types))
qed (use assms(1) in simp)

lemma configured_init: "configured d \<Longrightarrow> configured (snd (dispatcher_init d))"
  by (auto simp: configured_def dispatcher_init_def executor_start_def)

lemma configured_handle_RPC:
  assumes "configured d"
  shows "configured (fst (dispatcher_handle_RPC Q e cf r d sock))"
proof -
  have "conf_ptr (service_impl (executor_handle_RPC Q r1 ex)) \<noteq> None" if "map_find (services d) k = Some ex" for k ex r1
    using assms that map_of_SomeD [of "services d" k ex]
    by (fastforce simp: configured_def map_find_def executor_handle_RPC_def)
  then show ?thesis
    using assms configured_put [OF assms]
    by (auto simp: dispatcher_handle_RPC_def case_prod_beta split: option.split)
qed

lemma runtime_services_configured:
  assumes "\<forall>(k, ex) \<in> set m. conf_ptr (service_impl ex) \<noteq> None"
  shows "\<exists>ret m'. runtime_services junk conf m = Some (ret, m') \<and> (\<forall>(k, ex) \<in> set m'. conf_ptr (service_impl ex) \<noteq> None)"
  using assms
proof (induction m)
  case (Cons x m)
  obtain k ex where x: "x = (k, ex)" by (cases x)
  obtain ret ex' where "executor_module_runtime junk conf ex = Some (ret, ex')" "conf_ptr (service_impl ex') \<noteq> None"
    using executor_runtime_configured [of ex junk conf] Cons.prems by (auto simp: x)
  then show ?case using Cons by (auto simp: x)
qed simp

lemma configured_runtime:
  assumes "configured d"
  shows "\<exists>ret d'. dispatcher_module_runtime junk conf d = Some (ret, d') \<and> configured d'"
  using runtime_services_configured [of "services d" junk conf] assms
  by (auto simp: configured_def dispatcher_module_runtime_def)

lemma dispatcher_wf_handle_RPC:
  "dispatcher_wf d \<Longrightarrow> dispatcher_wf (fst (dispatcher_handle_RPC Q e cf r d sock))"
  by (simp add: dispatcher_wf_def dispatcher_handle_RPC_def case_prod_beta smap.wf_put split: option.split)

section \<open>Routing\<close>

text \<open>
  Where a payload goes: to the queue of a service, or back to the client with a status.  This is
  the contract of the dispatcher as a function of the payload and of the set of registered ids.
\<close>

datatype route = Enqueue u16 | Refuse RpcResponseStatus

definition route_of :: "endian \<Rightarrow> bytes \<Rightarrow> u16 set \<Rightarrow> route" where
  "route_of e p ids =
     (if \<not> request_ok e p then Refuse INVALID_REQUEST
      else let sid = rq_service_id (RpcRequestHeader_decode e p)
           in if sid \<in> ids then Enqueue sid else Refuse INVALID_SERVICE)"

definition service_ids :: "'q Dispatcher \<Rightarrow> u16 set" where
  "service_ids d = dom (map_find (services d))"

definition queue_of :: "('q \<Rightarrow> RpcInstance list) \<Rightarrow> 'q Dispatcher \<Rightarrow> u16 \<Rightarrow> RpcInstance list" where
  "queue_of contents d sid =
     (case map_find (services d) sid of None \<Rightarrow> [] | Some ex \<Rightarrow> contents (rpc_queue ex))"

text \<open>The validated instance that ends up in the queue.\<close>

definition queued_instance :: "endian \<Rightarrow> nat \<Rightarrow> bytes \<Rightarrow> RpcInstance" where
  "queued_instance e i p = snd (validate_request e (instance_of i p))"

lemma queued_instance_fields:
  assumes "request_ok e p" "length p < 2 ^ 32"
  shows "service_id (queued_instance e i p) = rq_service_id (RpcRequestHeader_decode e p)"
    and "opcode (queued_instance e i p) = rq_opcode (RpcRequestHeader_decode e p)"
    and "rpc_request_message (queued_instance e i p) =
      \<lparr>rqm_header = RpcRequestHeader_decode e p, rqm_payload = drop sizeof_RpcRequestHeader p\<rparr>"
    and "full_socket (queued_instance e i p) = i"
  using validate_request_eq [OF assms(2), of e i] assms(1)
  by (simp_all add: queued_instance_def instance_of_def RpcInstance_new_def)

lemma dispatcher_handle_RPC_refuse:
  assumes "length p < 2 ^ 32" "route_of e p (service_ids d) = Refuse st"
  shows "dispatcher_handle_RPC Q e cf (instance_of i p) d sock =
    (d, map_option (\<lambda>s. snd (async_send_message e cf (reject_frame e st) s)) sock)"
proof (cases "request_ok e p")
  case False
  then show ?thesis
    using assms(2) validate_request_eq(1) [OF assms(1), of e i]
    by (simp add: dispatcher_handle_RPC_def case_prod_beta reject_eq route_of_def)
next
  case True
  then have "map_find (services d) (rq_service_id (RpcRequestHeader_decode e p)) = None" "st = INVALID_SERVICE"
    using assms(2) by (auto simp: route_of_def service_ids_def Let_def split: if_splits)
  then show ?thesis
    using True validate_request_eq(1) [OF assms(1), of e i] queued_instance_fields(1) [OF True assms(1), of i]
    by (simp add: dispatcher_handle_RPC_def case_prod_beta reject_eq get_service_id_def queued_instance_def)
qed

lemma dispatcher_handle_RPC_enqueue:
  assumes "length p < 2 ^ 32" "route_of e p (service_ids d) = Enqueue sid"
  shows "snd (dispatcher_handle_RPC Q e cf (instance_of i p) d sock) = sock"
    and "fifo_queue Q contents \<Longrightarrow>
      queue_of contents (fst (dispatcher_handle_RPC Q e cf (instance_of i p) d sock)) sid' =
        queue_of contents d sid' @ (if sid' = sid then [queued_instance e i p] else [])"
    and "service_ids (fst (dispatcher_handle_RPC Q e cf (instance_of i p) d sock)) = service_ids d"
proof -
  have ok: "request_ok e p" and sid: "sid = rq_service_id (RpcRequestHeader_decode e p)"
    and "sid \<in> service_ids d"
    using assms(2) by (auto simp: route_of_def Let_def split: if_splits)
  then obtain ex where ex: "map_find (services d) sid = Some ex" by (auto simp: service_ids_def)
  have eq: "dispatcher_handle_RPC Q e cf (instance_of i p) d sock =
      (d\<lparr>services := map_put sid (executor_handle_RPC Q (queued_instance e i p) ex) (services d)\<rparr>, sock)"
    using ok ex validate_request_eq(1) [OF assms(1), of e i] queued_instance_fields(1) [OF ok assms(1), of i] sid
    by (simp add: dispatcher_handle_RPC_def case_prod_beta get_service_id_def queued_instance_def)
  show "snd (dispatcher_handle_RPC Q e cf (instance_of i p) d sock) = sock" by (simp add: eq)
  show "queue_of contents (fst (dispatcher_handle_RPC Q e cf (instance_of i p) d sock)) sid' =
        queue_of contents d sid' @ (if sid' = sid then [queued_instance e i p] else [])"
    if "fifo_queue Q contents"
    using ex by (simp add: eq queue_of_def smap.find_put executor_handle_RPC_def fifo_queueD(1) [OF that])
  show "service_ids (fst (dispatcher_handle_RPC Q e cf (instance_of i p) d sock)) = service_ids d"
    using ex by (auto simp: eq service_ids_def smap.find_put split: if_splits)
qed

lemma route_of_cases:
  obtains st where "route_of e p ids = Refuse st" | sid where "route_of e p ids = Enqueue sid"
  by (cases "route_of e p ids") auto

text \<open>Handling a request never touches the receiving side of the connection.\<close>

lemma dispatcher_handle_RPC_sock:
  "snd (dispatcher_handle_RPC Q e cf r d (Some c)) = Some c \<or>
    (\<exists>msg. snd (dispatcher_handle_RPC Q e cf r d (Some c)) = Some (snd (async_send_message e cf msg c)))"
  by (auto simp: dispatcher_handle_RPC_def case_prod_beta reject_eq split: option.splits)

end
