(* ===== verification/Framing.thy ===== *)
theory Framing
  imports Message
begin

text \<open>
  The framing protocol as a specification: \<open>frames\<close> cuts a byte stream into payloads, and the locale
  \<open>stream_reader\<close> states what a receiving connection does with a chunk of the stream.  The lemmas of the
  locale lift that to any division of the stream into chunks: what is delivered depends on the bytes
  only.  The server's connection, the client's asynchronous connection and the client's blocking
  connection are related to this specification in their theories.
\<close>

section \<open>Decoding is exact\<close>

lemma mem16_get16: "mem16 e (get16 e i bs) = [bs ! i, bs ! Suc i]"
  by (cases e) simp_all

lemma mem32_get32:
  "mem32 e (get32 e i bs) = [bs ! i, bs ! Suc i, bs ! Suc (Suc i), bs ! Suc (Suc (Suc i))]"
  by (cases e) (simp_all add: numeral_eq_Suc)

lemma be16_be16toh: "be16 (be16toh e w) = mem16 e w"
  by (cases e) (simp_all add: be16_def)

lemma be32_be32toh: "be32 (be32toh e w) = mem32 e w"
  by (cases e) (simp_all add: be32_def be16_def)

lemma list16:
  assumes "length bs = 16"
  shows "bs = [bs ! 0, bs ! 1, bs ! 2, bs ! 3, bs ! 4, bs ! 5, bs ! 6, bs ! 7,
    bs ! 8, bs ! 9, bs ! 10, bs ! 11, bs ! 12, bs ! 13, bs ! 14, bs ! 15]" (is "_ = ?xs")
proof (rule nth_equalityI)
  show "length bs = length ?xs" using assms by simp
  fix i assume "i < length bs"
  then have "i \<in> {0, 1, 2, 3, 4, 5, 6, 7, 8, 9, 10, 11, 12, 13, 14, 15}" unfolding insert_iff
    using assms by (simp only: empty_iff) arith
  then show "bs ! i = ?xs ! i" by auto
qed

lemma Header_wire_decode: "length bs = sizeof_Header \<Longrightarrow> Header_wire e (Header_decode e bs) = bs"
  unfolding Header_wire_def Header_decode_def Header_from_net_endian_def Header_of_mem_def sizeof_Header_def
  using list16 [of bs]
  by (simp add: be16_be16toh be32_be32toh mem16_get16 mem32_get32 numeral_eq_Suc)

lemma split_wire:
  "sizeof_Header \<le> length bs \<Longrightarrow> Header_wire e (Header_decode e bs) @ drop sizeof_Header bs = bs"
  using Header_wire_decode [of "take sizeof_Header bs" e] Header_decode_take [of sizeof_Header e bs]
  by (metis append_take_drop_id le_refl length_take min.absorb2)

section \<open>The specification\<close>

text \<open>
  The payloads in a stream, the bytes after the last complete frame, and whether the stream is
  good so far; \<open>ok\<close> is the receiver's check of a header.
\<close>

function frames :: "endian \<Rightarrow> (Header \<Rightarrow> bool) \<Rightarrow> bytes \<Rightarrow> bytes list \<times> bytes \<times> bool" where
  "frames e ok bs =
     (if length bs < sizeof_Header then ([], bs, True)
      else if \<not> ok (Header_decode e bs) then ([], bs, False)
      else if length bs < sizeof_Header + unat (h_length (Header_decode e bs)) then ([], bs, True)
      else
        let n = unat (h_length (Header_decode e bs));
            (ps, r, good) = frames e ok (drop (sizeof_Header + n) bs)
        in (take n (drop sizeof_Header bs) # ps, r, good))"
  by pat_completeness auto
termination
  by (relation "measure (\<lambda>(e, ok, bs). length bs)") (auto simp: sizeof_Header_def)

declare frames.simps [simp del]

lemma frames_short: "length bs < sizeof_Header \<Longrightarrow> frames e ok bs = ([], bs, True)"
  by (simp add: frames.simps)

lemma frames_bad:
  "sizeof_Header \<le> length bs \<Longrightarrow> \<not> ok (Header_decode e bs) \<Longrightarrow> frames e ok bs = ([], bs, False)"
  by (simp add: frames.simps)

lemma frames_partial:
  "sizeof_Header \<le> length bs \<Longrightarrow> ok (Header_decode e bs) \<Longrightarrow>
    length bs < sizeof_Header + unat (h_length (Header_decode e bs)) \<Longrightarrow> frames e ok bs = ([], bs, True)"
  by (simp add: frames.simps)

lemma frames_whole:
  assumes "sizeof_Header + unat (h_length (Header_decode e bs)) \<le> length bs" "ok (Header_decode e bs)"
  shows "frames e ok bs =
    (take (unat (h_length (Header_decode e bs))) (drop sizeof_Header bs) #
       fst (frames e ok (drop (sizeof_Header + unat (h_length (Header_decode e bs))) bs)),
     snd (frames e ok (drop (sizeof_Header + unat (h_length (Header_decode e bs))) bs)))"
  using assms by (subst frames.simps) (simp add: case_prod_beta Let_def)

lemma Header_decode_append: "sizeof_Header \<le> length bs \<Longrightarrow> Header_decode e (bs @ ys) = Header_decode e bs"
  using Header_decode_take [of sizeof_Header e "bs @ ys"] Header_decode_take [of sizeof_Header e bs] by simp

text \<open>Cutting a stream in two does not change the frames.\<close>

lemma frames_append:
  "frames e ok (x @ y) =
    (case frames e ok x of
       (ps, r, False) \<Rightarrow> (ps, r @ y, False)
     | (ps, r, True) \<Rightarrow> (ps @ fst (frames e ok (r @ y)), snd (frames e ok (r @ y))))"
proof (induction e ok x rule: frames.induct)
  case (1 e ok x)
  let ?h = "Header_decode e x"
  let ?k = "sizeof_Header + unat (h_length ?h)"
  consider "length x < sizeof_Header" | "sizeof_Header \<le> length x" "\<not> ok ?h"
    | "sizeof_Header \<le> length x" "ok ?h" "length x < ?k" | "sizeof_Header \<le> length x" "ok ?h" "?k \<le> length x"
    by linarith
  then show ?case
  proof cases
    case 1
    then show ?thesis by (simp add: frames_short)
  next
    case 2
    then show ?thesis by (simp add: frames_bad Header_decode_append)
  next
    case 3
    then show ?thesis by (simp add: frames_partial)
  next
    case 4
    let ?x' = "drop ?k x"
    have IH: "frames e ok (?x' @ y) =
        (case frames e ok ?x' of
           (ps, r, False) \<Rightarrow> (ps, r @ y, False)
         | (ps, r, True) \<Rightarrow> (ps @ fst (frames e ok (r @ y)), snd (frames e ok (r @ y))))"
      using "1.IH" 4 by simp
    have "frames e ok (x @ y) = (take (unat (h_length ?h)) (drop sizeof_Header x) #
        fst (frames e ok (?x' @ y)), snd (frames e ok (?x' @ y)))"
      using frames_whole [of e "x @ y" ok] 4 by (simp add: Header_decode_append)
    then show ?thesis
      using IH frames_whole [of e x ok] 4
      by (cases "snd (snd (frames e ok ?x'))") (simp_all add: case_prod_beta)
  qed
qed

lemma frames_append_good:
  "frames e ok x = (ps, r, True) \<Longrightarrow>
    frames e ok (x @ y) = (ps @ fst (frames e ok (r @ y)), snd (frames e ok (r @ y)))"
  using frames_append [of e ok x y] by simp

lemma frames_append_bad:
  "frames e ok x = (ps, r, False) \<Longrightarrow> frames e ok (x @ y) = (ps, r @ y, False)"
  using frames_append [of e ok x y] by simp

lemma frames_ConsD:
  assumes "frames e ok bs = (p # ps, r, g)"
  shows "sizeof_Header + unat (h_length (Header_decode e bs)) \<le> length bs" and "ok (Header_decode e bs)"
    and "p = take (unat (h_length (Header_decode e bs))) (drop sizeof_Header bs)"
    and "length p = unat (h_length (Header_decode e bs))"
    and "frames e ok (drop (sizeof_Header + unat (h_length (Header_decode e bs))) bs) = (ps, r, g)"
  using assms by (auto simp: frames.simps [of e ok bs] Let_def split: if_splits prod.splits)

lemma frames_NilD:
  assumes "frames e ok bs = ([], r, g)"
  shows "r = bs" and "g \<longleftrightarrow> length bs < sizeof_Header \<or> ok (Header_decode e bs)"
    and "g \<Longrightarrow> sizeof_Header \<le> length bs \<Longrightarrow>
      length bs < sizeof_Header + unat (h_length (Header_decode e bs))"
  using assms by (auto simp: frames.simps [of e ok bs] Let_def split: if_splits prod.splits)

text \<open>What a sender writes is what the specification reads.\<close>

lemma frames_encode:
  assumes "length p < 2 ^ 32" "ok (m_header (Message_of p))"
  shows "frames e ok (Message_net_str e' (Message_of p) @ ys) =
    (p # fst (frames e ok ys), snd (frames e ok ys))"
proof -
  let ?h = "m_header (Message_of p)"
  have eq: "Message_net_str e' (Message_of p) @ ys = Header_wire e' ?h @ p @ ys"
    by (simp add: Message_net_str_wire)
  have "Header_decode e (Header_wire e' ?h @ p @ ys) = ?h"
    by (rule Header_decode_wire_zero_rev) simp_all
  then show ?thesis
    using frames_whole [of e "Header_wire e' ?h @ p @ ys" ok] assms unfolding eq by simp
qed

lemma frames_encode_all:
  assumes "\<forall>p \<in> set ps. length p < 2 ^ 32 \<and> ok (m_header (Message_of p))"
  shows "frames e ok (concat (map (\<lambda>p. Message_net_str e' (Message_of p)) ps)) = (ps, [], True)"
  using assms
proof (induction ps)
  case Nil
  then show ?case by (simp add: frames_short sizeof_Header_def)
next
  case (Cons p ps)
  then show ?case using frames_encode [of p ok e e'] by simp
qed

section \<open>Receivers\<close>

text \<open>Feeding chunks, and the contract of the library's reads: each delivers at least what was asked
  for, at most a block, and the receiver never holds \<open>2 ^ 32\<close> bytes.\<close>

definition feed_all :: "(bytes \<Rightarrow> 's \<Rightarrow> 's) \<Rightarrow> bytes list \<Rightarrow> 's \<Rightarrow> 's" where
  "feed_all feed chunks s = fold feed chunks s"

lemma feed_all_simps [simp]:
  "feed_all feed [] s = s"
  "feed_all feed (c # cs) s = feed_all feed cs (feed c s)"
  by (simp_all add: feed_all_def)

fun reads_ok :: "('s \<Rightarrow> nat) \<Rightarrow> ('s \<Rightarrow> bytes) \<Rightarrow> (bytes \<Rightarrow> 's \<Rightarrow> 's) \<Rightarrow> bytes list \<Rightarrow> 's \<Rightarrow> bool" where
  "reads_ok need residue feed [] s = True"
| "reads_ok need residue feed (c # cs) s =
     (need s \<le> length c \<and> length c \<le> 2048 \<and> length (residue s) + length c < 2 ^ 32 \<and>
      reads_ok need residue feed cs (feed c s))"

locale stream_reader =
  fixes e :: endian
    and ok :: "Header \<Rightarrow> bool"
    and waiting :: "'s \<Rightarrow> bool"
    and closed :: "'s \<Rightarrow> bool"
    and need :: "'s \<Rightarrow> nat"
    and residue :: "'s \<Rightarrow> bytes"
    and feed :: "bytes \<Rightarrow> 's \<Rightarrow> 's"
    and world :: "'s \<Rightarrow> 'w"
    and deliver :: "bytes \<Rightarrow> 'w \<Rightarrow> 'w"
  assumes feed_good: "waiting s \<Longrightarrow> need s \<le> length c \<Longrightarrow> length c \<le> 2048 \<Longrightarrow>
        length (residue s) + length c < 2 ^ 32 \<Longrightarrow>
        frames e ok (residue s @ c) = (ps, r, True) \<Longrightarrow>
        waiting (feed c s) \<and> residue (feed c s) = r \<and> world (feed c s) = fold deliver ps (world s)"
    and feed_bad: "waiting s \<Longrightarrow> need s \<le> length c \<Longrightarrow> length c \<le> 2048 \<Longrightarrow>
        length (residue s) + length c < 2 ^ 32 \<Longrightarrow>
        frames e ok (residue s @ c) = (ps, r, False) \<Longrightarrow>
        closed (feed c s) \<and> world (feed c s) = fold deliver ps (world s)"
    and feed_closed: "closed s \<Longrightarrow> closed (feed c s) \<and> world (feed c s) = world s"
    and residue_idle: "waiting s \<Longrightarrow> frames e ok (residue s) = ([], residue s, True)"
begin

lemma closed_all: "closed s \<Longrightarrow> closed (feed_all feed cs s) \<and> world (feed_all feed cs s) = world s"
proof (induction cs arbitrary: s)
  case Nil
  then show ?case by simp
next
  case (Cons c cs)
  then show ?case using feed_closed [of s c] by simp
qed

text \<open>Any division into chunks delivers the payloads of the specification, in order.\<close>

lemma feed_all_frames:
  "waiting s \<Longrightarrow> reads_ok need residue feed cs s \<Longrightarrow>
    frames e ok (residue s @ concat cs) = (ps, r, good) \<Longrightarrow>
    world (feed_all feed cs s) = fold deliver ps (world s) \<and>
    (if good then waiting (feed_all feed cs s) \<and> residue (feed_all feed cs s) = r
     else closed (feed_all feed cs s))"
proof (induction cs arbitrary: s ps)
  case Nil
  then show ?case using residue_idle [of s] by simp
next
  case (Cons c cs)
  obtain ps1 r1 g1 where one: "frames e ok (residue s @ c) = (ps1, r1, g1)" by (metis prod_cases3)
  show ?case
  proof (cases g1)
    case True
    have step: "waiting (feed c s)" "residue (feed c s) = r1" "world (feed c s) = fold deliver ps1 (world s)"
      using feed_good [of s c ps1 r1] Cons.prems one True by simp_all
    obtain ps2 where ps2: "frames e ok (r1 @ concat cs) = (ps2, r, good)" "ps = ps1 @ ps2"
      using Cons.prems(3) frames_append_good [of e ok "residue s @ c" ps1 r1 "concat cs"] one True
      by (cases "frames e ok (r1 @ concat cs)") auto
    show ?thesis
      using Cons.IH [of "feed c s" ps2] step ps2 Cons.prems(2) by (simp split: if_splits)
  next
    case False
    have step: "closed (feed c s)" "world (feed c s) = fold deliver ps1 (world s)"
      using feed_bad [of s c ps1 r1] Cons.prems one False by simp_all
    have "ps = ps1" "\<not> good"
      using Cons.prems(3) frames_append_bad [of e ok "residue s @ c" ps1 r1 "concat cs"] one False by simp_all
    then show ?thesis using closed_all [OF step(1), of cs] step(2) by simp
  qed
qed

text \<open>
  So a receiver that starts fresh gets exactly the messages a sender wrote, however the network
  cuts the stream.
\<close>

lemma feed_all_messages:
  assumes "waiting s" "residue s = []" "reads_ok need residue feed cs s"
    and "concat cs = concat (map (\<lambda>p. Message_net_str e' (Message_of p)) ps)"
    and "\<forall>p \<in> set ps. length p < 2 ^ 32 \<and> ok (m_header (Message_of p))"
  shows "world (feed_all feed cs s) = fold deliver ps (world s)"
    and "waiting (feed_all feed cs s)" and "residue (feed_all feed cs s) = []"
  using feed_all_frames [OF assms(1,3), of ps "[]" True] assms(2,4) frames_encode_all [OF assms(5), of e e']
  by simp_all

end

end
