(* ===== verification/TcpConnRead.thy ===== *)
theory TcpConnRead
  imports Dispatcher Framing
begin

text \<open>
  The receiving half of the server's \<^verbatim>\<open>TcpConnAsync\<close> (\<^verbatim>\<open>source/Network/TcpConnAsync.cpp\<close>).  A complete
  message is handed to the dispatcher inside the read loop, so the operations transform the
  connection and the dispatcher together; \<open>i\<close> is the number of the connection, which the requests
  carry instead of its weak pointer.  Reading is the mutual recursion of \<^verbatim>\<open>do_read\<close> and
  \<^verbatim>\<open>do_read_msg\<close>: it ends because every round consumes a header.
\<close>

section \<open>Parsing\<close>

definition parse_header :: "endian \<Rightarrow> NetConf \<Rightarrow> TcpConn \<Rightarrow> int \<times> TcpConn" where
  "parse_header e cf c =
     (if unat (get_length (io_buffer (recv_bound c))) < sizeof_Header then (1, c)
      else
        let (_, head_str, b) = consume [] (u32_of_size sizeof_Header) (io_buffer (recv_bound c));
            header = Header_from_net_endian e (Header_of_mem e head_str);
            c1 = c\<lparr>recv_bound := (recv_bound c)\<lparr>io_header := header, io_buffer := b\<rparr>\<rparr>
        in if h_magic header \<noteq> kHeaderMagic \<or> h_version header \<noteq> kHeaderVersion then (- 1, c1)
           else if recv_max_msg_size cf \<noteq> 0 \<and> h_length header > word_of_int (recv_max_msg_size cf)
           then (- 1, c1)
           else (0, c1))"

definition parse_msg_body :: "Message \<Rightarrow> TcpConn \<Rightarrow> int \<times> Message \<times> TcpConn" where
  "parse_msg_body msg c =
     (if get_length (io_buffer (recv_bound c)) < h_length (io_header (recv_bound c)) then (1, msg, c)
      else
        let (_, msg_str, b) = consume [] (h_length (io_header (recv_bound c))) (io_buffer (recv_bound c));
            c1 = c\<lparr>recv_bound := (recv_bound c)\<lparr>io_buffer := b\<rparr>\<rparr>
        in (0, \<lparr>m_header = io_header (recv_bound c1), m_payload = msg_str\<rparr>, c1))"

text \<open>The two results of parsing in closed form; \<open>recv_data\<close> are the unread bytes.\<close>

definition recv_data :: "TcpConn \<Rightarrow> bytes" where
  "recv_data c = buf_data (io_buffer (recv_bound c))"

definition header_ok :: "NetConf \<Rightarrow> Header \<Rightarrow> bool" where
  "header_ok cf h \<longleftrightarrow> h_magic h = kHeaderMagic \<and> h_version h = kHeaderVersion \<and>
     \<not> (recv_max_msg_size cf \<noteq> 0 \<and> h_length h > word_of_int (recv_max_msg_size cf))"

definition strip_header :: "endian \<Rightarrow> TcpConn \<Rightarrow> TcpConn" where
  "strip_header e c = c\<lparr>recv_bound := (recv_bound c)\<lparr>io_header := Header_decode e (recv_data c),
     io_buffer := \<lparr>buf_data = drop sizeof_Header (recv_data c)\<rparr>\<rparr>\<rparr>"

definition strip_body :: "TcpConn \<Rightarrow> TcpConn" where
  "strip_body c = c\<lparr>recv_bound := (recv_bound c)\<lparr>
     io_buffer := \<lparr>buf_data = drop (unat (h_length (io_header (recv_bound c)))) (recv_data c)\<rparr>\<rparr>\<rparr>"

lemma parse_header_eq:
  assumes "sizeof_Header \<le> unat (get_length (io_buffer (recv_bound c)))"
  shows "parse_header e cf c =
    (if header_ok cf (Header_decode e (recv_data c)) then 0 else - 1, strip_header e c)"
proof -
  let ?b = "io_buffer (recv_bound c)"
  have n: "unat (u32_of_size sizeof_Header) = sizeof_Header" by (simp add: sizeof_Header_def)
  have "fst (snd (consume [] (u32_of_size sizeof_Header) ?b)) = take sizeof_Header (recv_data c)"
    by (simp add: consume_empty_store n recv_data_def)
  moreover have "snd (snd (consume [] (u32_of_size sizeof_Header) ?b)) =
      \<lparr>buf_data = drop sizeof_Header (recv_data c)\<rparr>"
    by (rule Buffer_eqI) (simp add: consume_data n recv_data_def)
  moreover have "Header_from_net_endian e (Header_of_mem e (take sizeof_Header (recv_data c))) =
      Header_decode e (recv_data c)"
    using Header_decode_take [of sizeof_Header e "recv_data c"] by (simp add: Header_decode_def)
  ultimately show ?thesis
    using assms by (simp add: parse_header_def case_prod_beta header_ok_def strip_header_def Let_def)
qed

lemma parse_msg_body_eq:
  assumes "h_length (io_header (recv_bound c)) \<le> get_length (io_buffer (recv_bound c))"
  shows "parse_msg_body msg c =
    (0, \<lparr>m_header = io_header (recv_bound c),
         m_payload = take (unat (h_length (io_header (recv_bound c)))) (recv_data c)\<rparr>, strip_body c)"
proof -
  let ?n = "h_length (io_header (recv_bound c))"
  have "snd (snd (consume [] ?n (io_buffer (recv_bound c)))) = \<lparr>buf_data = drop (unat ?n) (recv_data c)\<rparr>"
    by (rule Buffer_eqI) (simp add: consume_data recv_data_def)
  then show ?thesis
    using assms
    by (simp add: parse_msg_body_def case_prod_beta consume_empty_store strip_body_def recv_data_def Let_def)
qed

lemma strip_data [simp]:
  "recv_data (strip_header e c) = drop sizeof_Header (recv_data c)"
  "recv_data (strip_body c) = drop (unat (h_length (io_header (recv_bound c)))) (recv_data c)"
  by (simp_all add: recv_data_def strip_header_def strip_body_def)

lemma get_length_recv: "unat (get_length (io_buffer (recv_bound c))) \<le> length (recv_data c)"
  by (simp add: recv_data_def get_length_unat)

lemma dispatcher_handle_RPC_recv:
  "recv_data (the (snd (dispatcher_handle_RPC Q e cf r d (Some c)))) = recv_data c"
  using dispatcher_handle_RPC_sock [of Q e cf r d c] by (auto simp: async_send_message_frame recv_data_def)

section \<open>Reading\<close>

function (sequential) do_read ::
    "'q EQueue \<Rightarrow> endian \<Rightarrow> NetConf \<Rightarrow> nat \<Rightarrow> TcpConn \<Rightarrow> 'q Dispatcher \<Rightarrow> bool \<times> TcpConn \<times> 'q Dispatcher"
  and do_read_msg ::
    "'q EQueue \<Rightarrow> endian \<Rightarrow> NetConf \<Rightarrow> nat \<Rightarrow> TcpConn \<Rightarrow> 'q Dispatcher \<Rightarrow> TcpConn \<times> 'q Dispatcher" where
  "do_read Q e cf i c d =
     (if get_conn_stat c \<noteq> kWorking then (False, c, d)
      else if was_ops_cancelled c then (False, c, d)
      else if unat (get_length (io_buffer (recv_bound c))) < sizeof_Header then
        let bytes_read = unat (get_length (io_buffer (recv_bound c)));
            c1 = set_ops_cancel_timeout cf c
        in (True, c1\<lparr>socket := async_read (ReadHead (sizeof_Header - bytes_read)) (socket c1)\<rparr>, d)
      else
        let ret = fst (parse_header e cf c); c1 = snd (parse_header e cf c)
        in if ret = 0 then (True, do_read_msg Q e cf i c1 d)
           else if ret > 0 then (True, snd (do_read Q e cf i c1 d))
           else (False, sock_shutdown_and_close kShutBoth c1, d))"
| "do_read_msg Q e cf i c d =
     (if get_conn_stat c \<noteq> kWorking then (c, d)
      else if was_ops_cancelled c then (c, d)
      else if get_length (io_buffer (recv_bound c)) < h_length (io_header (recv_bound c)) then
        let to_read = min (h_length (io_header (recv_bound c)) - get_length (io_buffer (recv_bound c)))
                        (u32_of_size kFixedIoBufferSize);
            c1 = set_ops_cancel_timeout cf c
        in (c1\<lparr>socket := async_read (ReadMsg (unat to_read)) (socket c1)\<rparr>, d)
      else
        let ret = fst (parse_msg_body Message_default c);
            msg = fst (snd (parse_msg_body Message_default c));
            c1 = snd (snd (parse_msg_body Message_default c))
        in if ret = 0 then
             let h = dispatcher_handle_RPC Q e cf (instance_of i (m_payload msg)) d (Some c1)
             in snd (do_read Q e cf i (the (snd h)) (fst h))
           else if ret > 0 then do_read_msg Q e cf i c1 d
           else (sock_shutdown_and_close kShutBoth c1, d))"
  by pat_completeness auto
termination
proof (relation "measure (\<lambda>x. case x of
      Inl (Q, e, cf, i, c, d) \<Rightarrow> 2 * length (recv_data c)
    | Inr (Q, e, cf, i, c, d) \<Rightarrow> Suc (2 * length (recv_data c)))",
    goal_cases)
  case 1
  then show ?case by simp
next
  case (2 Q e cf i c d)
  then have "parse_header e cf c = (0, strip_header e c)" "sizeof_Header \<le> length (recv_data c)"
    using parse_header_eq [of c e cf] get_length_recv [of c] by simp_all
  with 2 show ?case by (simp add: sizeof_Header_def)
next
  case (3 Q e cf i c d)
  then show ?case using parse_header_eq [of c e cf] by (simp split: if_splits)
next
  case (4 Q e cf i c d)
  then show ?case using parse_msg_body_eq [of c Message_default] by (simp add: dispatcher_handle_RPC_recv)
next
  case (5 Q e cf i c d)
  then show ?case using parse_msg_body_eq [of c Message_default] by simp
qed

declare do_read.simps [simp del] do_read_msg.simps [simp del]

definition TcpConn_start ::
  "'q EQueue \<Rightarrow> endian \<Rightarrow> NetConf \<Rightarrow> nat \<Rightarrow> TcpConn \<Rightarrow> 'q Dispatcher \<Rightarrow> TcpConn \<times> 'q Dispatcher" where
  "TcpConn_start Q e cf i c d = snd (do_read Q e cf i (set_conn_stat kWorking c) d)"

text \<open>
  The completion handlers: \<open>None\<close> is success.  The string of the first \<open>n\<close> bytes of the block stays
  inside the block when \<open>n \<le> kFixedIoBufferSize\<close>, which the library guarantees for the buffer it
  was given; otherwise the run is not \<open>sane\<close>.
\<close>

definition take_block :: "nat \<Rightarrow> TcpConn \<Rightarrow> TcpConn" where
  "take_block n c = c\<lparr>
     sane := sane c \<and> n > 0 \<and> n \<le> length (io_block (recv_bound c)),
     recv_bound := (recv_bound c)\<lparr>io_buffer :=
       snd (append_internal (take n (io_block (recv_bound c))) (io_buffer (recv_bound c)))\<rparr>\<rparr>"

definition read_handler ::
  "'q EQueue \<Rightarrow> endian \<Rightarrow> NetConf \<Rightarrow> nat \<Rightarrow> error_code option \<Rightarrow> nat \<Rightarrow> TcpConn \<Rightarrow> 'q Dispatcher \<Rightarrow> TcpConn \<times> 'q Dispatcher" where
  "read_handler Q e cf i ec bytes_transferred c0 d =
     (let c = revoke_ops_cancel_timeout c0
      in case ec of
           Some err \<Rightarrow> (snd (handle_socket_ec err c), d)
         | None \<Rightarrow>
             let c1 = take_block bytes_transferred c
             in if unat (get_length (io_buffer (recv_bound c1))) < sizeof_Header
                then snd (do_read Q e cf i c1 d)
                else
                  let (ret, c2) = parse_header e cf c1
                  in if ret = 0 then do_read_msg Q e cf i c2 d
                     else if ret > 0 then snd (do_read Q e cf i c2 d)
                     else (sock_shutdown_and_close kShutBoth c2, d))"

definition read_msg_handler ::
  "'q EQueue \<Rightarrow> endian \<Rightarrow> NetConf \<Rightarrow> nat \<Rightarrow> error_code option \<Rightarrow> nat \<Rightarrow> TcpConn \<Rightarrow> 'q Dispatcher \<Rightarrow> TcpConn \<times> 'q Dispatcher" where
  "read_msg_handler Q e cf i ec bytes_transferred c0 d =
     (let c = revoke_ops_cancel_timeout c0
      in case ec of
           Some err \<Rightarrow> (snd (handle_socket_ec err c), d)
         | None \<Rightarrow>
             let c1 = take_block bytes_transferred c;
                 (ret, msg, c2) = parse_msg_body Message_default c1
             in if ret = 0 then
                  let (d1, sock) = dispatcher_handle_RPC Q e cf (instance_of i (m_payload msg)) d (Some c2)
                  in snd (do_read Q e cf i (the sock) d1)
                else if ret > 0 then do_read_msg Q e cf i c2 d
                else (sock_shutdown_and_close kShutBoth c2, d))"

text \<open>
  The environment's part: the oldest outstanding read completes with the bytes of \<open>chunk\<close>, which
  the library has put at the front of the block, or fails.
\<close>

definition io_read_ok ::
  "'q EQueue \<Rightarrow> endian \<Rightarrow> NetConf \<Rightarrow> nat \<Rightarrow> bytes \<Rightarrow> TcpConn \<times> 'q Dispatcher \<Rightarrow> TcpConn \<times> 'q Dispatcher" where
  "io_read_ok Q e cf i chunk s =
     (let (c, d) = s
      in case sk_reads (socket c) of
           [] \<Rightarrow> (c, d)
         | op # ops \<Rightarrow>
             let c1 = c\<lparr>socket := (socket c)\<lparr>sk_reads := ops\<rparr>,
                        recv_bound := (recv_bound c)\<lparr>io_block := blit chunk (io_block (recv_bound c))\<rparr>\<rparr>
             in case op of
                  ReadHead _ \<Rightarrow> read_handler Q e cf i None (length chunk) c1 d
                | ReadMsg _ \<Rightarrow> read_msg_handler Q e cf i None (length chunk) c1 d)"

definition io_read_error ::
  "'q EQueue \<Rightarrow> endian \<Rightarrow> NetConf \<Rightarrow> nat \<Rightarrow> error_code \<Rightarrow> nat \<Rightarrow> TcpConn \<times> 'q Dispatcher \<Rightarrow> TcpConn \<times> 'q Dispatcher" where
  "io_read_error Q e cf i err n s =
     (let (c, d) = s
      in case sk_reads (socket c) of
           [] \<Rightarrow> (c, d)
         | op # ops \<Rightarrow>
             let c1 = c\<lparr>socket := (socket c)\<lparr>sk_reads := ops\<rparr>\<rparr>
             in case op of
                  ReadHead _ \<Rightarrow> read_handler Q e cf i (Some err) n c1 d
                | ReadMsg _ \<Rightarrow> read_msg_handler Q e cf i (Some err) n c1 d)"

section \<open>The receiver as the framing specification sees it\<close>

definition srv_waiting :: "NetConf \<Rightarrow> TcpConn \<times> 'q Dispatcher \<Rightarrow> bool" where
  "srv_waiting cf s \<longleftrightarrow>
     (let c = fst s; h = io_header (recv_bound c); n = length (recv_data c)
      in conn_stat c = kWorking \<and> \<not> was_cancelled c \<and> send_inv cf c \<and>
         length (io_block (recv_bound c)) = kFixedIoBufferSize \<and> n < 2 ^ 32 \<and>
         (n < sizeof_Header \<and> sk_reads (socket c) = [ReadHead (sizeof_Header - n)] \<or>
          header_ok cf h \<and> n < unat (h_length h) \<and>
            sk_reads (socket c) = [ReadMsg (min (unat (h_length h) - n) kFixedIoBufferSize)]))"

definition srv_closed :: "TcpConn \<times> 'q Dispatcher \<Rightarrow> bool" where
  "srv_closed s \<longleftrightarrow> conn_stat (fst s) = kClosed \<and> sk_reads (socket (fst s)) = []"

text \<open>The bytes received and not yet delivered; a parsed header counts with its 16 bytes.\<close>

definition srv_residue :: "endian \<Rightarrow> TcpConn \<times> 'q Dispatcher \<Rightarrow> bytes" where
  "srv_residue e s =
     (case sk_reads (socket (fst s)) of
        [ReadMsg _] \<Rightarrow> Header_wire e (io_header (recv_bound (fst s))) @ recv_data (fst s)
      | _ \<Rightarrow> recv_data (fst s))"

definition srv_need :: "TcpConn \<times> 'q Dispatcher \<Rightarrow> nat" where
  "srv_need s = (case sk_reads (socket (fst s)) of [] \<Rightarrow> 0 | op # _ \<Rightarrow> read_min op)"

text \<open>
  What the rest of the system sees: the dispatcher with its queues, and the bytes sent or queued to
  the client.
\<close>

definition srv_world :: "TcpConn \<times> 'q Dispatcher \<Rightarrow> 'q Dispatcher \<times> bytes" where
  "srv_world s = (snd s, sent_bytes (fst s) @ send_backlog (fst s))"

definition refusal_bytes :: "endian \<Rightarrow> NetConf \<Rightarrow> route \<Rightarrow> bytes" where
  "refusal_bytes e cf rt =
     (case rt of
        Enqueue _ \<Rightarrow> []
      | Refuse st \<Rightarrow> if send_accepts cf (reject_frame e st) then Message_net_str e (reject_frame e st) else [])"

definition srv_deliver ::
  "'q EQueue \<Rightarrow> endian \<Rightarrow> NetConf \<Rightarrow> nat \<Rightarrow> bytes \<Rightarrow> 'q Dispatcher \<times> bytes \<Rightarrow> 'q Dispatcher \<times> bytes" where
  "srv_deliver Q e cf i p w =
     (fst (dispatcher_handle_RPC Q e cf (instance_of i p) (fst w) None),
      snd w @ refusal_bytes e cf (route_of e p (service_ids (fst w))))"

definition read_ready :: "NetConf \<Rightarrow> TcpConn \<Rightarrow> bool" where
  "read_ready cf c \<longleftrightarrow> conn_stat c = kWorking \<and> \<not> was_cancelled c \<and> send_inv cf c \<and>
     length (io_block (recv_bound c)) = kFixedIoBufferSize \<and> sk_reads (socket c) = [] \<and>
     length (recv_data c) < 2 ^ 32"

text \<open>The outcome the specification asks for, for the frames of the bytes at hand.\<close>

definition srv_outcome ::
  "'q EQueue \<Rightarrow> endian \<Rightarrow> NetConf \<Rightarrow> nat \<Rightarrow> bytes list \<times> bytes \<times> bool \<Rightarrow> 'q Dispatcher \<times> bytes \<Rightarrow>
    TcpConn \<times> 'q Dispatcher \<Rightarrow> bool" where
  "srv_outcome Q e cf i fr w s \<longleftrightarrow>
     srv_world s = fold (srv_deliver Q e cf i) (fst fr) w \<and>
     (if snd (snd fr) then srv_waiting cf s \<and> srv_residue e s = fst (snd fr) else srv_closed s)"

lemma dispatcher_handle_RPC_fst:
  "fst (dispatcher_handle_RPC Q e cf r d sock) = fst (dispatcher_handle_RPC Q e cf r d None)"
  by (simp add: dispatcher_handle_RPC_def case_prod_beta split: option.split)

lemma handled_ready:
  assumes "read_ready cf c" "length p < 2 ^ 32"
    and h_def: "h = dispatcher_handle_RPC Q e cf (instance_of i p) d (Some c)"
  shows "read_ready cf (the (snd h))" and "recv_data (the (snd h)) = recv_data c"
    and "srv_world (the (snd h), fst h) = srv_deliver Q e cf i p (srv_world (c, d))"
proof -
  have inv: "send_inv cf c" using assms(1) by (simp add: read_ready_def)
  have "read_ready cf (the (snd h)) \<and> recv_data (the (snd h)) = recv_data c \<and>
    srv_world (the (snd h), fst h) = srv_deliver Q e cf i p (srv_world (c, d))"
  proof (cases "route_of e p (service_ids d)")
    case (Enqueue sid)
    then show ?thesis
      using assms(1) dispatcher_handle_RPC_enqueue(1) [OF assms(2) Enqueue, of Q cf i "Some c"]
        dispatcher_handle_RPC_fst [of Q e cf "instance_of i p" d "Some c"]
      by (simp add: h_def srv_world_def srv_deliver_def refusal_bytes_def)
  next
    case (Refuse st)
    note eq = dispatcher_handle_RPC_refuse [OF assms(2) Refuse, of Q cf i]
    show ?thesis
      using assms(1) eq [of "Some c"] eq [of None] Refuse
        async_send_message_stream [OF inv, of e "reject_frame e st"]
      by (simp add: h_def srv_world_def srv_deliver_def refusal_bytes_def read_ready_def recv_data_def
        async_send_message_frame sent_bytes_def)
  qed
  then show "read_ready cf (the (snd h))" and "recv_data (the (snd h)) = recv_data c"
    and "srv_world (the (snd h), fst h) = srv_deliver Q e cf i p (srv_world (c, d))"
    by simp_all
qed

lemma strip_ready:
  "read_ready cf c \<Longrightarrow> read_ready cf (strip_header e c)"
  "read_ready cf c \<Longrightarrow> read_ready cf (strip_body c)"
  "srv_world (strip_header e c, d) = srv_world (c, d)"
  "srv_world (strip_body c, d) = srv_world (c, d)"
  "io_header (recv_bound (strip_header e c)) = Header_decode e (recv_data c)"
  by (auto simp: read_ready_def strip_header_def strip_body_def recv_data_def send_inv_def srv_world_def
    sent_bytes_def send_backlog_def in_flight_def)

lemma armed_waiting:
  assumes "read_ready cf c"
  shows "length (recv_data c) < sizeof_Header \<Longrightarrow> srv_waiting cf
      (set_ops_cancel_timeout cf c\<lparr>socket := async_read (ReadHead (sizeof_Header - length (recv_data c))) (socket c)\<rparr>, d)"
    and "header_ok cf (io_header (recv_bound c)) \<Longrightarrow>
      length (recv_data c) < unat (h_length (io_header (recv_bound c))) \<Longrightarrow> srv_waiting cf
      (set_ops_cancel_timeout cf c\<lparr>socket := async_read (ReadMsg (min
        (unat (h_length (io_header (recv_bound c))) - length (recv_data c)) kFixedIoBufferSize)) (socket c)\<rparr>, d)"
    and "srv_world (set_ops_cancel_timeout cf c\<lparr>socket := async_read op (socket c)\<rparr>, d) = srv_world (c, d)"
  using assms by (auto simp: srv_waiting_def read_ready_def send_inv_def recv_data_def srv_world_def
    sent_bytes_def send_backlog_def in_flight_def set_ops_cancel_timeout_def)

lemma recv_length: "read_ready cf c \<Longrightarrow> unat (get_length (io_buffer (recv_bound c))) = length (recv_data c)"
  by (simp add: read_ready_def recv_data_def get_length_small)

lemma do_read_outcome:
  fixes Q :: "'q EQueue"
  shows "read_ready cf c \<Longrightarrow>
      srv_outcome Q e cf i (frames e (header_ok cf) (recv_data c)) (srv_world (c, d)) (snd (do_read Q e cf i c d))"
    and "read_ready cf c \<Longrightarrow> header_ok cf (io_header (recv_bound c)) \<Longrightarrow>
      srv_outcome Q e cf i (frames e (header_ok cf) (Header_wire e (io_header (recv_bound c)) @ recv_data c))
        (srv_world (c, d)) (do_read_msg Q e cf i c d)"
proof (induction Q e cf i c d and Q e cf i c d rule: do_read_do_read_msg.induct)
  case (1 Q e cf i c d)
  note rdy = 1(3) and len = recv_length [OF 1(3)]
  have guards: "get_conn_stat c = kWorking" "\<not> was_ops_cancelled c"
    using rdy by (simp_all add: read_ready_def get_conn_stat_def was_ops_cancelled_def)
  consider "length (recv_data c) < sizeof_Header"
    | "sizeof_Header \<le> length (recv_data c)" "\<not> header_ok cf (Header_decode e (recv_data c))"
    | "sizeof_Header \<le> length (recv_data c)" "header_ok cf (Header_decode e (recv_data c))"
    by linarith
  then show ?case
  proof cases
    case 1
    with guards len rdy show ?thesis
      by (simp add: do_read.simps frames_short srv_outcome_def armed_waiting)
        (simp add: srv_residue_def recv_data_def read_ready_def)
  next
    case 2
    with guards len rdy show ?thesis
      by (simp add: do_read.simps frames_bad srv_outcome_def parse_header_eq)
        (simp add: srv_closed_def srv_world_def sock_shutdown_and_close_def strip_header_def
          sent_bytes_def send_backlog_def in_flight_def read_ready_def)
  next
    case 3
    then have "parse_header e cf c = (0, strip_header e c)" using len by (simp add: parse_header_eq)
    with 1(1) [OF _ _ _ refl refl] guards len rdy 3 show ?thesis
      by (simp add: do_read.simps strip_ready split_wire)
  qed
next
  case (2 Q e cf i c d)
  let ?h = "io_header (recv_bound c)"
  note rdy = 2(3) and len = recv_length [OF 2(3)]
  have guards: "get_conn_stat c = kWorking" "\<not> was_ops_cancelled c"
    using rdy by (simp_all add: read_ready_def get_conn_stat_def was_ops_cancelled_def)
  show ?case
  proof (cases "length (recv_data c) < unat (h_length ?h)")
    case True
    then have "get_length (io_buffer (recv_bound c)) < h_length ?h" using len by (simp add: word_less_nat_alt)
    with True guards len rdy 2(4) show ?thesis
      by (simp add: do_read_msg.simps frames_partial srv_outcome_def armed_waiting min_block_unat)
        (simp add: srv_residue_def recv_data_def read_ready_def)
  next
    case False
    then have ge: "h_length ?h \<le> get_length (io_buffer (recv_bound c))" using len by (simp add: word_le_nat_alt)
    then have nlt: "\<not> get_length (io_buffer (recv_bound c)) < h_length ?h" by simp
    let ?p = "take (unat (h_length ?h)) (recv_data c)"
    let ?H = "dispatcher_handle_RPC Q e cf (instance_of i ?p) d (Some (strip_body c))"
    have "unat (h_length ?h) < 2 ^ 32" by (rule unat_u32_less)
    then have small: "length ?p < 2 ^ 32" by simp
    note H = handled_ready [OF strip_ready(2) [OF rdy] small refl, of Q e i d]
    have "do_read_msg Q e cf i c d = snd (do_read Q e cf i (the (snd ?H)) (fst ?H))"
      using guards nlt by (simp add: do_read_msg.simps parse_msg_body_eq [OF ge] Let_def)
    moreover have "srv_outcome Q e cf i (frames e (header_ok cf) (drop (unat (h_length ?h)) (recv_data c)))
        (srv_deliver Q e cf i ?p (srv_world (c, d))) (snd (do_read Q e cf i (the (snd ?H)) (fst ?H)))"
      using 2(1) [OF _ _ _ refl refl refl _ refl] guards nlt H
      by (simp add: parse_msg_body_eq [OF ge] strip_ready)
    ultimately show ?thesis
      using frames_whole [of e "Header_wire e ?h @ recv_data c" "header_ok cf"] False 2(4)
      by (simp add: srv_outcome_def)
  qed
qed

text \<open>
  On a working connection the handlers do what the loop would do: the checks they skip hold.
\<close>

lemma read_handler_ok:
  assumes "conn_stat c = kWorking" "\<not> was_cancelled c"
  shows "read_handler Q e cf i None n c d =
    snd (do_read Q e cf i (take_block n (revoke_ops_cancel_timeout c)) d)"
  using assms
  by (subst do_read.simps)
    (simp add: read_handler_def get_conn_stat_def was_ops_cancelled_def take_block_def
      revoke_ops_cancel_timeout_def case_prod_beta Let_def do_read.simps)

lemma read_msg_handler_ok:
  assumes "conn_stat c = kWorking" "\<not> was_cancelled c"
  shows "read_msg_handler Q e cf i None n c d =
    do_read_msg Q e cf i (take_block n (revoke_ops_cancel_timeout c)) d"
proof -
  let ?c = "take_block n (revoke_ops_cancel_timeout c)"
  have guards: "get_conn_stat ?c = kWorking" "\<not> was_ops_cancelled ?c"
    using assms by (simp_all add: get_conn_stat_def was_ops_cancelled_def take_block_def revoke_ops_cancel_timeout_def)
  show ?thesis
  proof (cases "get_length (io_buffer (recv_bound ?c)) < h_length (io_header (recv_bound ?c))")
    case True
    then have "parse_msg_body Message_default ?c = (1, Message_default, ?c)" by (simp add: parse_msg_body_def)
    then show ?thesis by (simp add: read_msg_handler_def)
  next
    case False
    then have "parse_msg_body Message_default ?c = (0, \<lparr>m_header = io_header (recv_bound ?c),
        m_payload = take (unat (h_length (io_header (recv_bound ?c)))) (recv_data ?c)\<rparr>, strip_body ?c)"
      by (simp add: parse_msg_body_eq)
    with False guards show ?thesis
      by (subst do_read_msg.simps) (simp add: read_msg_handler_def case_prod_beta Let_def)
  qed
qed

text \<open>The connection with a chunk received.\<close>

definition with_chunk :: "bytes \<Rightarrow> TcpConn \<Rightarrow> TcpConn" where
  "with_chunk chunk c = take_block (length chunk) (revoke_ops_cancel_timeout
     (c\<lparr>socket := (socket c)\<lparr>sk_reads := []\<rparr>,
        recv_bound := (recv_bound c)\<lparr>io_block := blit chunk (io_block (recv_bound c))\<rparr>\<rparr>))"

lemma with_chunk_ready:
  assumes "srv_waiting cf (c, d)" "0 < length chunk" "length chunk \<le> kFixedIoBufferSize"
    "length (recv_data c) + length chunk < 2 ^ 32"
  shows "read_ready cf (with_chunk chunk c)" and "recv_data (with_chunk chunk c) = recv_data c @ chunk"
    and "srv_world (with_chunk chunk c, d) = srv_world (c, d)"
    and "io_header (recv_bound (with_chunk chunk c)) = io_header (recv_bound c)"
  using assms
  by (auto simp: with_chunk_def srv_waiting_def read_ready_def take_block_def revoke_ops_cancel_timeout_def
    recv_data_def append_internal_data send_inv_def take_blit' srv_world_def sent_bytes_def send_backlog_def
    in_flight_def Let_def)

lemma srv_waiting_cases:
  assumes "srv_waiting cf (c, d)"
  obtains "sk_reads (socket c) = [ReadHead (sizeof_Header - length (recv_data c))]"
      "length (recv_data c) < sizeof_Header" "srv_residue e (c, d) = recv_data c"
      "srv_need (c, d) = sizeof_Header - length (recv_data c)"
  | "sk_reads (socket c) = [ReadMsg (srv_need (c, d))]" "0 < srv_need (c, d)"
      "header_ok cf (io_header (recv_bound c))"
      "length (recv_data c) < unat (h_length (io_header (recv_bound c)))"
      "srv_residue e (c, d) = Header_wire e (io_header (recv_bound c)) @ recv_data c"
  using assms unfolding srv_waiting_def srv_residue_def srv_need_def Let_def
  by (auto simp: kFixedIoBufferSize_def)

lemma io_read_ok_outcome:
  fixes Q :: "'q EQueue"
  assumes "srv_waiting cf s" "srv_need s \<le> length chunk" "length chunk \<le> 2048"
    "length (srv_residue e s) + length chunk < 2 ^ 32"
  shows "srv_outcome Q e cf i (frames e (header_ok cf) (srv_residue e s @ chunk)) (srv_world s)
    (io_read_ok Q e cf i chunk s)"
proof -
  obtain c d where s: "s = (c, d)" by (cases s)
  have wait: "srv_waiting cf (c, d)" using assms(1) s by simp
  then have live: "conn_stat c = kWorking" "\<not> was_cancelled c" by (simp_all add: srv_waiting_def Let_def)
  have small: "length chunk \<le> kFixedIoBufferSize" using assms(3) by (simp add: kFixedIoBufferSize_def)
  from wait show ?thesis
  proof (cases rule: srv_waiting_cases [where e = e])
    case 1
    have "0 < length chunk" "length (recv_data c) + length chunk < 2 ^ 32" using 1 assms(2,4) s by auto
    note rdy = with_chunk_ready [OF wait this(1) small this(2)]
    have "io_read_ok Q e cf i chunk s = snd (do_read Q e cf i (with_chunk chunk c) d)"
      using 1 live by (simp add: s io_read_ok_def with_chunk_def read_handler_ok)
    then show ?thesis using do_read_outcome(1) [OF rdy(1), of Q e i d] rdy 1 s by simp
  next
    case 2
    have "0 < length chunk" "length (recv_data c) + length chunk < 2 ^ 32" using 2 assms(2,4) s by auto
    note rdy = with_chunk_ready [OF wait this(1) small this(2)]
    have "io_read_ok Q e cf i chunk s = do_read_msg Q e cf i (with_chunk chunk c) d"
      using 2 live by (simp add: s io_read_ok_def with_chunk_def read_msg_handler_ok)
    then show ?thesis using do_read_outcome(2) [OF rdy(1), of Q e i d] rdy 2 s by simp
  qed
qed

lemma srv_residue_idle:
  "srv_waiting cf s \<Longrightarrow> frames e (header_ok cf) (srv_residue e s) = ([], srv_residue e s, True)"
proof (cases s)
  case (Pair c d)
  assume "srv_waiting cf s"
  then have "srv_waiting cf (c, d)" using Pair by simp
  then show ?thesis
    by (cases rule: srv_waiting_cases [where e = e]) (simp_all add: Pair frames_short frames_partial)
qed

interpretation srv_read: stream_reader e "header_ok cf" "srv_waiting cf" srv_closed srv_need "srv_residue e"
  "io_read_ok Q e cf i" srv_world "srv_deliver Q e cf i"
  for Q :: "'q EQueue" and e cf i
proof unfold_locales
  fix s :: "TcpConn \<times> 'q Dispatcher" and c r :: bytes and ps
  assume "srv_waiting cf s" "srv_need s \<le> length c" "length c \<le> 2048" "length (srv_residue e s) + length c < 2 ^ 32"
  note out = io_read_ok_outcome [OF this, of Q i]
  show "srv_waiting cf (io_read_ok Q e cf i c s) \<and> srv_residue e (io_read_ok Q e cf i c s) = r \<and>
      srv_world (io_read_ok Q e cf i c s) = fold (srv_deliver Q e cf i) ps (srv_world s)"
    if "frames e (header_ok cf) (srv_residue e s @ c) = (ps, r, True)"
    using out that by (simp add: srv_outcome_def)
  show "srv_closed (io_read_ok Q e cf i c s) \<and>
      srv_world (io_read_ok Q e cf i c s) = fold (srv_deliver Q e cf i) ps (srv_world s)"
    if "frames e (header_ok cf) (srv_residue e s @ c) = (ps, r, False)"
    using out that by (simp add: srv_outcome_def)
next
  fix s :: "TcpConn \<times> 'q Dispatcher" and c
  assume "srv_closed s"
  then show "srv_closed (io_read_ok Q e cf i c s) \<and> srv_world (io_read_ok Q e cf i c s) = srv_world s"
    by (simp add: srv_closed_def io_read_ok_def case_prod_beta)
next
  fix s :: "TcpConn \<times> 'q Dispatcher"
  assume "srv_waiting cf s"
  then show "frames e (header_ok cf) (srv_residue e s) = ([], srv_residue e s, True)"
    by (rule srv_residue_idle)
qed

section \<open>From accepting a connection to the queues\<close>

lemma started_ready:
  assumes "sk_reads sock = []" "sk_writes sock = []"
  shows "read_ready cf (set_conn_stat kWorking (TcpConn_new ok sock))"
    and "recv_data (set_conn_stat kWorking (TcpConn_new ok sock)) = []"
  using assms by (simp_all add: read_ready_def TcpConn_new_def set_conn_stat_def set_tcp_nonblocking_def
    set_tcp_nodelay_def IOBound_new_def Buffer_new_def recv_data_def send_inv_def Let_def)

lemma TcpConn_start_waiting:
  fixes Q :: "'q EQueue"
  assumes "sk_reads sock = []" "sk_writes sock = []"
    and s_def: "s = TcpConn_start Q e cf i (TcpConn_new ok sock) d"
  shows "srv_waiting cf s" and "srv_residue e s = []" and "srv_world s = (d, sk_sent sock)"
proof -
  note rdy = started_ready(1) [OF assms(1,2), of cf ok] started_ready(2) [OF assms(1,2), of ok]
  have "srv_outcome Q e cf i ([], [], True) (srv_world (set_conn_stat kWorking (TcpConn_new ok sock), d)) s"
    using do_read_outcome(1) [OF rdy(1), of Q e i d] rdy(2)
    by (simp add: s_def TcpConn_start_def frames_short sizeof_Header_def)
  then show "srv_waiting cf s" and "srv_residue e s = []" and "srv_world s = (d, sk_sent sock)"
    using assms(2) by (simp_all add: srv_outcome_def srv_world_def sent_bytes_def send_backlog_def in_flight_def
      TcpConn_new_def set_conn_stat_def set_tcp_nonblocking_def set_tcp_nodelay_def IOBound_new_def
      Buffer_new_def Let_def)
qed

text \<open>A connection from its start on, fed with the chunks of a stream.\<close>

definition served ::
  "'q EQueue \<Rightarrow> endian \<Rightarrow> NetConf \<Rightarrow> nat \<Rightarrow> bool \<Rightarrow> socket \<Rightarrow> 'q Dispatcher \<Rightarrow> bytes list \<Rightarrow> TcpConn \<times> 'q Dispatcher" where
  "served Q e cf i ok sock d chunks =
     feed_all (io_read_ok Q e cf i) chunks (TcpConn_start Q e cf i (TcpConn_new ok sock) d)"

definition served_reads ::
  "'q EQueue \<Rightarrow> endian \<Rightarrow> NetConf \<Rightarrow> nat \<Rightarrow> bool \<Rightarrow> socket \<Rightarrow> 'q Dispatcher \<Rightarrow> bytes list \<Rightarrow> bool" where
  "served_reads Q e cf i ok sock d chunks \<longleftrightarrow>
     reads_ok srv_need (srv_residue e) (io_read_ok Q e cf i) chunks
       (TcpConn_start Q e cf i (TcpConn_new ok sock) d)"

lemma served_frames:
  fixes Q :: "'q EQueue"
  assumes "sk_reads sock = []" "sk_writes sock = []" "served_reads Q e cf i ok sock d chunks"
    and "frames e (header_ok cf) (concat chunks) = (ps, r, good)"
  shows "srv_world (served Q e cf i ok sock d chunks) = fold (srv_deliver Q e cf i) ps (d, sk_sent sock)"
    and "good \<Longrightarrow> srv_waiting cf (served Q e cf i ok sock d chunks)"
    and "\<not> good \<Longrightarrow> srv_closed (served Q e cf i ok sock d chunks)"
proof -
  note start = TcpConn_start_waiting [OF assms(1,2), where Q = Q and e = e and cf = cf and i = i and ok = ok and d = d, OF refl]
  show "srv_world (served Q e cf i ok sock d chunks) = fold (srv_deliver Q e cf i) ps (d, sk_sent sock)"
    and "good \<Longrightarrow> srv_waiting cf (served Q e cf i ok sock d chunks)"
    and "\<not> good \<Longrightarrow> srv_closed (served Q e cf i ok sock d chunks)"
    using srv_read.feed_all_frames [OF start(1) assms(3) [unfolded served_reads_def], of ps r good] start(2,3) assms(4)
    by (simp_all add: served_def split: if_splits)
qed

text \<open>What delivering a list of payloads amounts to.\<close>

lemma srv_deliver_ids:
  assumes "length p < 2 ^ 32"
  shows "service_ids (fst (srv_deliver Q e cf i p w)) = service_ids (fst w)"
proof (cases "route_of e p (service_ids (fst w))")
  case (Enqueue sid)
  then show ?thesis
    using dispatcher_handle_RPC_enqueue(3) [OF assms Enqueue, of Q cf i None] by (simp add: srv_deliver_def)
next
  case (Refuse st)
  then show ?thesis
    using dispatcher_handle_RPC_refuse [OF assms Refuse, of Q cf i None] by (simp add: srv_deliver_def)
qed

lemma srv_deliver_queue:
  assumes "length p < 2 ^ 32" "fifo_queue Q contents"
  shows "queue_of contents (fst (srv_deliver Q e cf i p w)) sid = queue_of contents (fst w) sid @
    (if route_of e p (service_ids (fst w)) = Enqueue sid then [queued_instance e i p] else [])"
proof (cases "route_of e p (service_ids (fst w))")
  case (Enqueue sid')
  then show ?thesis
    using dispatcher_handle_RPC_enqueue(2) [OF assms(1) Enqueue assms(2), of cf i None sid]
    by (simp add: srv_deliver_def)
next
  case (Refuse st)
  then show ?thesis
    using dispatcher_handle_RPC_refuse [OF assms(1) Refuse, of Q cf i None] by (simp add: srv_deliver_def)
qed

lemma srv_deliver_all:
  fixes Q :: "'q EQueue"
  assumes "\<forall>p \<in> set ps. length p < 2 ^ 32" "fifo_queue Q contents"
  shows "queue_of contents (fst (fold (srv_deliver Q e cf i) ps w)) sid = queue_of contents (fst w) sid @
      map (queued_instance e i) (filter (\<lambda>p. route_of e p (service_ids (fst w)) = Enqueue sid) ps)"
    and "snd (fold (srv_deliver Q e cf i) ps w) = snd w @
      concat (map (\<lambda>p. refusal_bytes e cf (route_of e p (service_ids (fst w)))) ps)"
  using assms(1)
proof (induction ps arbitrary: w)
  case Nil
  {
    case 1
    then show ?case by simp
  next
    case 2
    then show ?case by simp
  }
next
  case (Cons p ps)
  {
    case 1
    then show ?case
      using Cons.IH(1) [of "srv_deliver Q e cf i p w"] assms(2)
      by (simp add: srv_deliver_ids srv_deliver_queue)
  next
    case 2
    then show ?case
      using Cons.IH(2) [of "srv_deliver Q e cf i p w"]
      by (simp add: srv_deliver_ids) (simp add: srv_deliver_def)
  }
qed

lemma srv_world_proj:
  "srv_world s = w \<Longrightarrow> snd s = fst w \<and> sent_bytes (fst s) @ send_backlog (fst s) = snd w"
  by (auto simp: srv_world_def)

lemma srv_stat:
  "srv_waiting cf s \<Longrightarrow> conn_stat (fst s) = kWorking"
  "srv_closed s \<Longrightarrow> conn_stat (fst s) = kClosed"
  by (simp_all add: srv_waiting_def srv_closed_def Let_def)

text \<open>A single chunk with a whole header meets the contract of the first read.\<close>

lemma waiting_reads_single:
  assumes "srv_waiting cf s" "srv_residue e s = []" "sizeof_Header \<le> length ch" "length ch \<le> 2048"
  shows "reads_ok srv_need (srv_residue e) (io_read_ok Q e cf i) [ch] s"
proof -
  obtain c d where s: "s = (c, d)" by (cases s)
  have "srv_need (c, d) \<le> sizeof_Header"
    using assms(1,2) length_Header_wire [of e "io_header (recv_bound c)"] unfolding s
    by (cases rule: srv_waiting_cases [where e = e]) (auto simp: sizeof_Header_def)
  then show ?thesis using assms by (simp add: s)
qed

lemma served_reads_single:
  assumes "sk_reads sock = []" "sk_writes sock = []" "sizeof_Header \<le> length ch" "length ch \<le> 2048"
  shows "served_reads Q e cf i ok sock d [ch]"
  unfolding served_reads_def
  by (rule waiting_reads_single [OF TcpConn_start_waiting(1,2) [OF assms(1,2) refl] assms(3,4)])

text \<open>
  With a positive \<^verbatim>\<open>recv_max_msg_size\<close> the connection never holds more than a header, a maximal body
  and what was asked for, so the 32-bit sizes of the buffer do not wrap.
\<close>

lemma srv_residue_bounded:
  assumes "srv_waiting cf s" "0 < recv_max_msg_size cf" "recv_max_msg_size cf < 2 ^ 31"
  shows "length (srv_residue e s) < sizeof_Header + 2 ^ 31"
proof (cases s)
  case (Pair c d)
  have "srv_waiting cf (c, d)" using assms(1) Pair by simp
  then show ?thesis
  proof (cases rule: srv_waiting_cases [where e = e])
    case 1
    then show ?thesis by (simp add: Pair)
  next
    case 2
    let ?w = "word_of_int (recv_max_msg_size cf) :: u32"
    have "h_length (io_header (recv_bound c)) \<le> ?w" using 2(3) assms(2) by (auto simp: header_ok_def)
    moreover have "unat ?w < 2 ^ 31"
      using assms(2,3) by (simp add: unat_eq_nat_uint uint_word_of_int nat_less_iff)
    ultimately have "unat (h_length (io_header (recv_bound c))) < 2 ^ 31" by (simp add: word_le_nat_alt)
    with 2 show ?thesis by (simp add: Pair)
  qed
qed

section \<open>Errors and time\<close>

lemma handle_socket_ec_closes:
  "ec_closes err \<or> was_cancelled c \<Longrightarrow> conn_stat (snd (handle_socket_ec err c)) = kClosed"
  by (auto simp: handle_socket_ec_def was_ops_cancelled_def Let_def)

lemma io_timer_closes:
  "ops_cancel_timer c = Some (Suc n) \<Longrightarrow> conn_stat (io_timer c) = kClosed \<and> was_cancelled (io_timer c)"
  by (simp add: io_timer_def ops_cancel_timeout_call_def ops_cancel_def sock_shutdown_and_close_def
    set_conn_stat_def sock_cancel_def Let_def)

text \<open>A waiting connection is guarded by its timer whenever a time limit is configured.\<close>

lemma do_read_arms_timer:
  assumes "read_ready cf c" "length (recv_data c) < sizeof_Header" "ops_cancel_time_out cf \<noteq> 0"
  shows "ops_cancel_timer (fst (snd (do_read Q e cf i c d))) = Some 1"
  using assms recv_length [OF assms(1)]
  by (simp add: do_read.simps read_ready_def get_conn_stat_def was_ops_cancelled_def set_ops_cancel_timeout_def)

section \<open>The connection's state machine\<close>

text \<open>
  Between two handlers a connection keeps its state or becomes closed; \<^verbatim>\<open>kError\<close> is only a moment
  inside a handler.  So a closed connection stays closed, and a started one works or is closed.
\<close>

definition stat_step :: "TcpConn \<Rightarrow> TcpConn \<Rightarrow> bool" where
  "stat_step c c' \<longleftrightarrow> conn_stat c' = conn_stat c \<or> conn_stat c' = kClosed"

lemma stat_step_refl [intro, simp]: "stat_step c c"
  by (simp add: stat_step_def)

lemma stat_step_trans: "stat_step c c1 \<Longrightarrow> stat_step c1 c2 \<Longrightarrow> stat_step c c2"
  by (auto simp: stat_step_def)

lemma stat_step_close [intro, simp]: "stat_step c (sock_shutdown_and_close t c')"
  by (simp add: stat_step_def)

lemma stat_step_same: "conn_stat c' = conn_stat c \<Longrightarrow> stat_step c c'"
  by (simp add: stat_step_def)

lemma stat_step_from: "conn_stat c = conn_stat c0 \<Longrightarrow> stat_step c c' \<Longrightarrow> stat_step c0 c'"
  by (simp add: stat_step_def)

lemma parse_frame_stat:
  "conn_stat (snd (parse_header e cf c)) = conn_stat c"
  "conn_stat (snd (snd (parse_msg_body msg c))) = conn_stat c"
  by (simp_all add: parse_header_def parse_msg_body_def case_prod_beta Let_def)

lemma dispatcher_handle_RPC_stat:
  "conn_stat (the (snd (dispatcher_handle_RPC Q e cf r d (Some c)))) = conn_stat c"
  using dispatcher_handle_RPC_sock [of Q e cf r d c] by (auto simp: async_send_message_frame)

lemma do_read_stat:
  fixes Q :: "'q EQueue"
  shows "stat_step c (fst (snd (do_read Q e cf i c d)))"
    and "stat_step c (fst (do_read_msg Q e cf i c d))"
proof (induction Q e cf i c d and Q e cf i c d rule: do_read_do_read_msg.induct)
  case (1 Q e cf i c d)
  have "conn_stat (snd (parse_header e cf c)) = conn_stat c" by (rule parse_frame_stat)
  with 1 show ?case
    by (subst do_read.simps) (auto simp: Let_def stat_step_same elim: stat_step_from)
next
  case (2 Q e cf i c d)
  have "conn_stat (snd (snd (parse_msg_body Message_default c))) = conn_stat c" by (rule parse_frame_stat)
  with 2(1) [OF _ _ _ refl refl refl _ refl] 2(2) show ?case
    by (subst do_read_msg.simps)
      (auto simp: Let_def dispatcher_handle_RPC_stat stat_step_def)
qed

lemma handle_socket_ec_stat: "stat_step c (snd (handle_socket_ec err c))"
  by (auto simp: handle_socket_ec_def Let_def)

lemma take_block_stat [simp]: "conn_stat (take_block n c) = conn_stat c"
  by (simp add: take_block_def)

lemma revoke_stat [simp]: "conn_stat (revoke_ops_cancel_timeout c) = conn_stat c"
  by (simp add: revoke_ops_cancel_timeout_def)

lemma read_handler_stat: "stat_step c (fst (read_handler Q e cf i ec n c d))"
proof (cases ec)
  case None
  let ?c1 = "take_block n (revoke_ops_cancel_timeout c)"
  have "stat_step ?c1 (fst (read_handler Q e cf i None n c d))"
    using do_read_stat [of ?c1 Q e cf i d] do_read_stat [of "snd (parse_header e cf ?c1)" Q e cf i d]
      parse_frame_stat(1) [of e cf ?c1]
    by (simp add: read_handler_def case_prod_beta Let_def stat_step_def)
  then show ?thesis using None by (simp add: stat_step_def)
next
  case (Some err)
  then show ?thesis
    using handle_socket_ec_stat [of "revoke_ops_cancel_timeout c" err]
    by (simp add: read_handler_def stat_step_def)
qed

lemma read_msg_handler_stat: "stat_step c (fst (read_msg_handler Q e cf i ec n c d))"
proof (cases ec)
  case None
  let ?c1 = "take_block n (revoke_ops_cancel_timeout c)"
  let ?b = "parse_msg_body Message_default ?c1"
  let ?h = "dispatcher_handle_RPC Q e cf (instance_of i (m_payload (fst (snd ?b)))) d (Some (snd (snd ?b)))"
  have "stat_step ?c1 (fst (read_msg_handler Q e cf i None n c d))"
    using do_read_stat(1) [of "the (snd ?h)" Q e cf i "fst ?h"] do_read_stat(2) [of "snd (snd ?b)" Q e cf i d]
      parse_frame_stat(2) [of Message_default ?c1]
    by (simp add: read_msg_handler_def case_prod_beta Let_def dispatcher_handle_RPC_stat stat_step_def)
  then show ?thesis using None by (simp add: stat_step_def)
next
  case (Some err)
  then show ?thesis
    using handle_socket_ec_stat [of "revoke_ops_cancel_timeout c" err]
    by (simp add: read_msg_handler_def stat_step_def)
qed

lemma io_read_stat:
  "stat_step c (fst (io_read_ok Q e cf i chunk (c, d)))"
  "stat_step c (fst (io_read_error Q e cf i err n (c, d)))"
proof -
  show "stat_step c (fst (io_read_ok Q e cf i chunk (c, d)))"
  proof (cases "sk_reads (socket c)")
    case (Cons op ops)
    let ?c1 = "c\<lparr>socket := (socket c)\<lparr>sk_reads := ops\<rparr>,
      recv_bound := (recv_bound c)\<lparr>io_block := blit chunk (io_block (recv_bound c))\<rparr>\<rparr>"
    have "stat_step ?c1 (fst (io_read_ok Q e cf i chunk (c, d)))"
      using Cons by (cases op) (simp_all add: io_read_ok_def read_handler_stat read_msg_handler_stat)
    then show ?thesis by (simp add: stat_step_def)
  qed (simp add: io_read_ok_def)
  show "stat_step c (fst (io_read_error Q e cf i err n (c, d)))"
  proof (cases "sk_reads (socket c)")
    case (Cons op ops)
    let ?c1 = "c\<lparr>socket := (socket c)\<lparr>sk_reads := ops\<rparr>\<rparr>"
    have "stat_step ?c1 (fst (io_read_error Q e cf i err n (c, d)))"
      using Cons by (cases op) (simp_all add: io_read_error_def read_handler_stat read_msg_handler_stat)
    then show ?thesis by (simp add: stat_step_def)
  qed (simp add: io_read_error_def)
qed

lemma io_write_stat:
  "stat_step c (io_write_ok cf c)"
  "stat_step c (io_write_error cf err n c)"
proof -
  show "stat_step c (io_write_ok cf c)"
    by (auto simp: io_write_ok_def write_handler_def Let_def stat_step_def do_write_frame split: list.split)
  show "stat_step c (io_write_error cf err n c)"
  proof (cases "sk_writes (socket c)")
    case (Cons m ms)
    then show ?thesis
      by (auto simp: io_write_error_def write_handler_def handle_socket_ec_def Let_def stat_step_def)
  qed (simp add: io_write_error_def)
qed

lemma io_timer_stat: "stat_step c (io_timer c)" "stat_step c (io_late_timer cf c)"
  by (auto simp: io_timer_def io_late_timer_def ops_cancel_timeout_call_def stat_step_def split: option.split nat.split)

lemma async_send_message_stat: "stat_step c (snd (async_send_message e cf msg c))"
  by (simp add: stat_step_def async_send_message_frame)

end
