(* ===== verification/ClientSetting.thy ===== *)
theory ClientSetting
  imports RpcResponseMessage NetConn NetConf
begin

text \<open>
  \<^verbatim>\<open>source/Client/include/RpcClientStatus.h\<close> and the struct \<^verbatim>\<open>RpcClientSetting\<close> of
  \<^verbatim>\<open>source/Client/include/RpcClient.h\<close>.  The status is an \<^verbatim>\<open>enum class\<close> over \<^verbatim>\<open>uint8_t\<close> whose first
  six enumerators have the bytes of the server's statuses; \<open>OtherClientStatus b\<close> is a value without
  an enumerator.  The callback and the pointer to the io service are kept as whether they are set;
  the callback itself is an argument of the operations that call it.
\<close>

section \<open>Status\<close>

datatype RpcClientStatus =
    OK
  | SERVICE_SPECIFIC_ERROR
  | INVALID_VERSION
  | INVALID_SERVICE
  | INVALID_REQUEST
  | SYSTEM_ERROR
  | NETWORK_BEFORE_ERROR
  | NETWORK_CONNECT_ERROR
  | NETWORK_SEND_ERROR
  | NETWORK_RECV_ERROR
  | RPC_CALL_TIMEOUT
  | RECV_FORMAT_ERROR
  | OtherClientStatus u8

text \<open>\<^verbatim>\<open>static_cast<RpcClientStatus>(byte)\<close>\<close>

definition client_status_of_byte :: "u8 \<Rightarrow> RpcClientStatus" where
  "client_status_of_byte b =
     (if b = 0 then OK
      else if b = 1 then SERVICE_SPECIFIC_ERROR
      else if b = 2 then INVALID_VERSION
      else if b = 3 then INVALID_SERVICE
      else if b = 4 then INVALID_REQUEST
      else if b = 5 then SYSTEM_ERROR
      else if b = 10 then NETWORK_BEFORE_ERROR
      else if b = 11 then NETWORK_CONNECT_ERROR
      else if b = 12 then NETWORK_SEND_ERROR
      else if b = 13 then NETWORK_RECV_ERROR
      else if b = 20 then RPC_CALL_TIMEOUT
      else if b = 21 then RECV_FORMAT_ERROR
      else OtherClientStatus b)"

definition client_status :: "RpcResponseStatus \<Rightarrow> RpcClientStatus" where
  "client_status st = client_status_of_byte (status_byte st)"

text \<open>The two enumerations agree on the statuses the server can send.\<close>

lemma client_status_named:
  "client_status RpcResponseStatus.OK = RpcClientStatus.OK"
  "client_status RpcResponseStatus.SERVICE_SPECIFIC_ERROR = RpcClientStatus.SERVICE_SPECIFIC_ERROR"
  "client_status RpcResponseStatus.INVALID_VERSION = RpcClientStatus.INVALID_VERSION"
  "client_status RpcResponseStatus.INVALID_SERVICE = RpcClientStatus.INVALID_SERVICE"
  "client_status RpcResponseStatus.INVALID_REQUEST = RpcClientStatus.INVALID_REQUEST"
  "client_status RpcResponseStatus.SYSTEM_ERROR = RpcClientStatus.SYSTEM_ERROR"
  by (simp_all add: client_status_def client_status_of_byte_def)

lemma client_status_OK: "client_status (status_of_byte b) = RpcClientStatus.OK \<longleftrightarrow> b = 0"
  by (simp add: client_status_def client_status_of_byte_def)

section \<open>Settings\<close>

record RpcClientSetting =
  serv_addr :: string
  serv_port :: u32
  cs_send_max_msg_size :: u32
  cs_recv_max_msg_size :: u32
  cs_log_level :: u32
  has_handler :: bool
  has_io_service :: bool

definition RpcClientSetting_new :: RpcClientSetting where
  "RpcClientSetting_new = \<lparr>serv_addr = [], serv_port = 0, cs_send_max_msg_size = 0,
     cs_recv_max_msg_size = 0, cs_log_level = 7, has_handler = False, has_io_service = False\<rparr>"

text \<open>The header checks of the two client connections, and the size check of their senders.\<close>

definition client_header_ok :: "RpcClientSetting \<Rightarrow> Header \<Rightarrow> bool" where
  "client_header_ok cs h \<longleftrightarrow> h_magic h = kHeaderMagic \<and> h_version h = kHeaderVersion \<and>
     \<not> (cs_recv_max_msg_size cs \<noteq> 0 \<and> h_length h > cs_recv_max_msg_size cs)"

definition client_accepts :: "RpcClientSetting \<Rightarrow> Message \<Rightarrow> bool" where
  "client_accepts cs msg \<longleftrightarrow>
     \<not> (cs_send_max_msg_size cs \<noteq> 0 \<and> h_length (m_header msg) > cs_send_max_msg_size cs)"

end
