(* ===== verification/TcpConnSync.thy ===== *)
theory TcpConnSync
  imports ClientSetting Framing
begin

text \<open>
  \<^verbatim>\<open>source/Client/TcpConnSync.h\<close> and \<^verbatim>\<open>.cpp\<close>: the client's blocking connection.  The network is a
  script: for every blocking call, in order, its result, and whether another thread (the timer of
  the RPC call) shut the connection down while the call was blocked.  A loop that needs more results
  than the script has is a call that never returns, \<open>None\<close>.
\<close>

section \<open>State and environment\<close>

record TcpConnSync = NetConn +
  sc_recv_bound :: IOBound
  sc_send_bound :: IOBound
  sc_sane :: bool

text \<open>
  A blocking write ends well (\<open>None\<close>) or fails after some bytes; a blocking read yields a chunk or
  fails.
\<close>

type_synonym write_script = "(bool \<times> (error_code \<times> nat) option) list"
type_synonym read_script = "(bool \<times> (error_code + bytes)) list"

definition TcpConnSync_new :: "bool \<Rightarrow> socket \<Rightarrow> TcpConnSync" where
  "TcpConnSync_new ok sock =
     (let c0 = \<lparr>conn_stat = kPending, socket = sock, sc_recv_bound = IOBound_new,
                sc_send_bound = IOBound_new, sc_sane = True\<rparr>;
          c1 = snd (set_tcp_nonblocking ok False c0);
          c2 = snd (set_tcp_nodelay ok True c1);
          c3 = snd (set_tcp_nonblocking ok False c2)
      in set_conn_stat kWorking c3)"

definition shutdown_and_close_socket :: "'a NetConn_scheme \<Rightarrow> 'a NetConn_scheme" where
  "shutdown_and_close_socket c = sock_shutdown_and_close kShutBoth c"

definition meanwhile :: "bool \<Rightarrow> TcpConnSync \<Rightarrow> TcpConnSync" where
  "meanwhile shut c = (if shut then shutdown_and_close_socket c else c)"

definition handle_socket_ec_sync :: "error_code \<Rightarrow> TcpConnSync \<Rightarrow> bool \<times> TcpConnSync" where
  "handle_socket_ec_sync ec c =
     (let close_socket = ec_closes ec
      in (close_socket, if close_socket then sock_shutdown_and_close kShutBoth c else c))"

section \<open>Writing\<close>

text \<open>Result, whether another thread shut the connection, the script left, the connection.\<close>

fun write_loop :: "write_script \<Rightarrow> TcpConnSync \<Rightarrow> (bool \<times> bool \<times> write_script \<times> TcpConnSync) option" where
  "write_loop [] c =
     (if get_length (io_buffer (sc_send_bound c)) > 0 then None else Some (True, False, [], c))"
| "write_loop ((shut, ec) # ws) c =
     (if get_length (io_buffer (sc_send_bound c)) > 0 then
        let to_write = min (get_length (io_buffer (sc_send_bound c))) (u32_of_size kFixedIoBufferSize)
        in case consume_raw (Some (io_block (sc_send_bound c))) to_write (io_buffer (sc_send_bound c)) of
             Inl _ \<Rightarrow> Some (False, False, ws, c\<lparr>sc_sane := False\<rparr>)
           | Inr (_, blk, b) \<Rightarrow>
               let n = (case ec of None \<Rightarrow> unat to_write | Some (_, k) \<Rightarrow> min k (unat to_write));
                   c1 = c\<lparr>sc_send_bound := (sc_send_bound c)\<lparr>io_block := the blk, io_buffer := b\<rparr>,
                          socket := (socket c)\<lparr>sk_sent := sk_sent (socket c) @ take n (the blk)\<rparr>\<rparr>;
                   c2 = meanwhile shut c1
               in case ec of
                    Some (err, _) \<Rightarrow> Some (False, shut, ws, snd (handle_socket_ec_sync err c2))
                  | None \<Rightarrow>
                      map_option (\<lambda>(r, shut', ws', c'). (r, shut \<or> shut', ws', c')) (write_loop ws c2)
      else Some (True, False, (shut, ec) # ws, c))"

definition do_write_sync :: "write_script \<Rightarrow> TcpConnSync \<Rightarrow> (bool \<times> bool \<times> write_script \<times> TcpConnSync) option" where
  "do_write_sync ws c =
     (if get_conn_stat c \<noteq> kWorking then Some (False, False, ws, c) else write_loop ws c)"

definition send_net_message_sync ::
  "endian \<Rightarrow> RpcClientSetting \<Rightarrow> Message \<Rightarrow> write_script \<Rightarrow> TcpConnSync \<Rightarrow>
    (bool \<times> bool \<times> write_script \<times> TcpConnSync) option" where
  "send_net_message_sync e cs msg ws c =
     (if cs_send_max_msg_size cs \<noteq> 0 \<and> h_length (m_header msg) > cs_send_max_msg_size cs
      then Some (False, False, ws, c)
      else do_write_sync ws (c\<lparr>sc_send_bound := (sc_send_bound c)\<lparr>
             io_buffer := snd (Buffer_append e msg (io_buffer (sc_send_bound c)))\<rparr>\<rparr>))"

section \<open>Reading\<close>

definition parse_header_sync :: "endian \<Rightarrow> RpcClientSetting \<Rightarrow> TcpConnSync \<Rightarrow> int \<times> TcpConnSync" where
  "parse_header_sync e cs c =
     (if unat (get_length (io_buffer (sc_recv_bound c))) < sizeof_Header then (1, c)
      else
        let (_, head_str, b) = consume [] (u32_of_size sizeof_Header) (io_buffer (sc_recv_bound c));
            header = Header_from_net_endian e (Header_of_mem e head_str);
            c1 = c\<lparr>sc_recv_bound := (sc_recv_bound c)\<lparr>io_header := header, io_buffer := b\<rparr>\<rparr>
        in if h_magic header \<noteq> kHeaderMagic \<or> h_version header \<noteq> kHeaderVersion then (- 1, c1)
           else if cs_recv_max_msg_size cs \<noteq> 0 \<and> h_length header > cs_recv_max_msg_size cs then (- 1, c1)
           else (0, c1))"

definition parse_msg_body_sync :: "Message \<Rightarrow> TcpConnSync \<Rightarrow> int \<times> Message \<times> TcpConnSync" where
  "parse_msg_body_sync msg c =
     (if get_length (io_buffer (sc_recv_bound c)) < h_length (io_header (sc_recv_bound c)) then (1, msg, c)
      else
        let (_, msg_str, b) = consume [] (h_length (io_header (sc_recv_bound c))) (io_buffer (sc_recv_bound c));
            c1 = c\<lparr>sc_recv_bound := (sc_recv_bound c)\<lparr>io_buffer := b\<rparr>\<rparr>
        in (0, \<lparr>m_header = io_header (sc_recv_bound c1), m_payload = msg_str\<rparr>, c1))"

text \<open>The body of both reading loops after a successful read.\<close>

definition take_block_sync :: "bytes \<Rightarrow> TcpConnSync \<Rightarrow> TcpConnSync" where
  "take_block_sync chunk c =
     (let blk = blit chunk (io_block (sc_recv_bound c))
      in c\<lparr>sc_sane := sc_sane c \<and> length chunk \<le> length (io_block (sc_recv_bound c)),
           sc_recv_bound := (sc_recv_bound c)\<lparr>io_block := blk,
             io_buffer := snd (append_internal (take (length chunk) blk) (io_buffer (sc_recv_bound c)))\<rparr>\<rparr>)"

text \<open>
  The two \<^verbatim>\<open>while\<close> loops, of \<^verbatim>\<open>do_read\<close> and of \<^verbatim>\<open>do_read_msg\<close>, differ in the number of bytes
  they wait for.
\<close>

fun read_loop :: "(TcpConnSync \<Rightarrow> bool) \<Rightarrow> read_script \<Rightarrow> TcpConnSync \<Rightarrow> (bool \<times> bool \<times> read_script \<times> TcpConnSync) option" where
  "read_loop wants [] c = (if wants c then None else Some (True, False, [], c))"
| "read_loop wants ((shut, res) # rs) c =
     (if wants c then
        let c1 = meanwhile shut c
        in case res of
             Inl err \<Rightarrow> Some (False, shut, rs, snd (handle_socket_ec_sync err c1))
           | Inr chunk \<Rightarrow>
               map_option (\<lambda>(r, shut', rs', c'). (r, shut \<or> shut', rs', c'))
                 (read_loop wants rs (take_block_sync chunk c1))
      else Some (True, False, (shut, res) # rs, c))"

definition need_header :: "TcpConnSync \<Rightarrow> bool" where
  "need_header c \<longleftrightarrow> unat (get_length (io_buffer (sc_recv_bound c))) < sizeof_Header"

definition need_body :: "TcpConnSync \<Rightarrow> bool" where
  "need_body c \<longleftrightarrow> get_length (io_buffer (sc_recv_bound c)) < h_length (io_header (sc_recv_bound c))"

definition do_read_msg_sync ::
  "Message \<Rightarrow> read_script \<Rightarrow> TcpConnSync \<Rightarrow> (bool \<times> Message \<times> bool \<times> read_script \<times> TcpConnSync) option" where
  "do_read_msg_sync msg rs c =
     (if get_conn_stat c \<noteq> kWorking then Some (False, msg, False, rs, c)
      else case read_loop need_body rs c of
             None \<Rightarrow> None
           | Some (ok, shut, rs', c1) \<Rightarrow>
               if \<not> ok then Some (False, msg, shut, rs', c1)
               else
                 let (ret, msg', c2) = parse_msg_body_sync msg c1
                 in if ret = 0 then Some (True, msg', shut, rs', c2)
                    else Some (False, msg', shut, rs', sock_shutdown_and_close kShutBoth c2))"

definition do_read_sync ::
  "endian \<Rightarrow> RpcClientSetting \<Rightarrow> Message \<Rightarrow> read_script \<Rightarrow> TcpConnSync \<Rightarrow>
    (bool \<times> Message \<times> bool \<times> read_script \<times> TcpConnSync) option" where
  "do_read_sync e cs msg rs c =
     (if get_conn_stat c \<noteq> kWorking then Some (False, msg, False, rs, c)
      else case read_loop need_header rs c of
             None \<Rightarrow> None
           | Some (ok, shut, rs', c1) \<Rightarrow>
               if \<not> ok then Some (False, msg, shut, rs', c1)
               else
                 let (ret, c2) = parse_header_sync e cs c1
                 in if ret = 0 then
                      map_option (\<lambda>(r, m, shut', rs'', c'). (r, m, shut \<or> shut', rs'', c'))
                        (do_read_msg_sync msg rs' c2)
                    else Some (False, msg, shut, rs', sock_shutdown_and_close kShutBoth c2))"

definition recv_net_message_sync ::
  "endian \<Rightarrow> RpcClientSetting \<Rightarrow> Message \<Rightarrow> read_script \<Rightarrow> TcpConnSync \<Rightarrow>
    (bool \<times> Message \<times> bool \<times> read_script \<times> TcpConnSync) option" where
  "recv_net_message_sync e cs msg rs c = do_read_sync e cs msg rs c"

section \<open>What writing does\<close>

definition sync_ready :: "TcpConnSync \<Rightarrow> bool" where
  "sync_ready c \<longleftrightarrow> sc_sane c \<and> conn_stat c = kWorking \<and>
     length (io_block (sc_recv_bound c)) = kFixedIoBufferSize \<and>
     length (io_block (sc_send_bound c)) = kFixedIoBufferSize"

definition sync_data :: "TcpConnSync \<Rightarrow> bytes" where
  "sync_data c = buf_data (io_buffer (sc_recv_bound c))"

definition sync_out :: "TcpConnSync \<Rightarrow> bytes" where
  "sync_out c = buf_data (io_buffer (sc_send_bound c))"

lemma TcpConnSync_new_ready:
  "sync_ready (TcpConnSync_new ok sock)" "sync_data (TcpConnSync_new ok sock) = []"
  "sync_out (TcpConnSync_new ok sock) = []" "sk_sent (socket (TcpConnSync_new ok sock)) = sk_sent sock"
  by (simp_all add: sync_ready_def sync_data_def sync_out_def TcpConnSync_new_def set_conn_stat_def
    set_tcp_nonblocking_def set_tcp_nodelay_def IOBound_new_def Buffer_new_def Let_def)

definition write_block :: "nat \<Rightarrow> TcpConnSync \<Rightarrow> TcpConnSync" where
  "write_block n c = c\<lparr>
     sc_send_bound := (sc_send_bound c)\<lparr>io_block := blit (take n (sync_out c)) (io_block (sc_send_bound c)),
       io_buffer := \<lparr>buf_data = drop n (sync_out c)\<rparr>\<rparr>,
     socket := (socket c)\<lparr>sk_sent := sk_sent (socket c) @ take n (sync_out c)\<rparr>\<rparr>"

lemma write_loop_step:
  assumes "sync_ready c" "sync_out c \<noteq> []" "length (sync_out c) < 2 ^ 32"
  shows "write_loop ((False, None) # ws) c =
    map_option (\<lambda>(r, shut', ws', c'). (r, shut', ws', c'))
      (write_loop ws (write_block (min (length (sync_out c)) kFixedIoBufferSize) c))"
proof -
  let ?b = "io_buffer (sc_send_bound c)"
  let ?w = "min (get_length ?b) (u32_of_size kFixedIoBufferSize)"
  have len: "unat (get_length ?b) = length (sync_out c)"
    using assms(3) by (simp add: get_length_small sync_out_def)
  have n: "unat ?w = min (length (sync_out c)) kFixedIoBufferSize" by (simp add: unat_min_block len)
  have pos: "0 < unat ?w" unfolding n using assms(2) by (simp add: kFixedIoBufferSize_def)
  have "get_length ?b > 0" using len assms(2) by (simp add: word_gt_0 flip: unat_gt_0)
  moreover have "consume_raw (Some (io_block (sc_send_bound c))) ?w ?b =
      Inr (True, Some (blit (take (unat ?w) (sync_out c)) (io_block (sc_send_bound c))), front_erase ?w ?b)"
    unfolding sync_out_def
    by (rule consume_raw_ok) (use pos n assms(1) in \<open>auto simp: sync_out_def sync_ready_def\<close>)
  moreover have "front_erase ?w ?b = \<lparr>buf_data = drop (unat ?w) (sync_out c)\<rparr>"
    by (rule Buffer_eqI) (simp add: front_erase_data sync_out_def)
  moreover have "take (unat ?w) (blit (take (unat ?w) (sync_out c)) (io_block (sc_send_bound c))) =
      take (unat ?w) (sync_out c)"
    using n by (simp add: take_blit')
  ultimately show ?thesis
    by (simp add: Let_def meanwhile_def write_block_def n)
qed

lemma write_block_ready:
  assumes "sync_ready c" "n \<le> kFixedIoBufferSize"
  shows "sync_ready (write_block n c)" and "sync_out (write_block n c) = drop n (sync_out c)"
    and "sk_sent (socket (write_block n c)) = sk_sent (socket c) @ take n (sync_out c)"
    and "sc_recv_bound (write_block n c) = sc_recv_bound c"
  using assms by (simp_all add: sync_ready_def write_block_def sync_out_def)

lemma write_loop_done: "sync_out c = [] \<Longrightarrow> write_loop ws c = Some (True, False, ws, c)"
  by (cases ws) (auto simp: get_length_def sync_out_def u32_of_size_def)

text \<open>
  When every blocking write succeeds and there are enough of them (one per block), the loop returns
  and everything has been transmitted in order.
\<close>

lemma write_loop_all:
  assumes "sync_ready c" "length (sync_out c) < 2 ^ 32" "length (sync_out c) \<le> n * kFixedIoBufferSize"
  shows "\<exists>k c'. write_loop (replicate n (False, None)) c = Some (True, False, replicate k (False, None), c') \<and>
    sync_ready c' \<and> sync_out c' = [] \<and> sk_sent (socket c') = sk_sent (socket c) @ sync_out c \<and>
    sc_recv_bound c' = sc_recv_bound c"
  using assms
proof (induction n arbitrary: c)
  case 0
  then show ?case using write_loop_done [of c "[]"] by auto
next
  case (Suc n)
  show ?case
  proof (cases "sync_out c = []")
    case True
    then show ?thesis using write_loop_done [OF True] Suc.prems(1) by (intro exI [of _ "Suc n"] exI [of _ c]) simp
  next
    case False
    let ?n = "min (length (sync_out c)) kFixedIoBufferSize"
    note blk = write_block_ready [OF Suc.prems(1), of ?n]
    have "length (sync_out (write_block ?n c)) < 2 ^ 32"
      "length (sync_out (write_block ?n c)) \<le> n * kFixedIoBufferSize"
      using blk(2) Suc.prems(2,3) by auto
    then obtain k c' where c': "write_loop (replicate n (False, None)) (write_block ?n c) =
          Some (True, False, replicate k (False, None), c')"
        "sync_ready c'" "sync_out c' = []" "sc_recv_bound c' = sc_recv_bound (write_block ?n c)"
        "sk_sent (socket c') = sk_sent (socket (write_block ?n c)) @ sync_out (write_block ?n c)"
      using Suc.IH [of "write_block ?n c"] blk(1) by auto
    have "sk_sent (socket c') = sk_sent (socket c) @ sync_out c" using c'(5) blk(2,3) by simp
    with c' blk(4) write_loop_step [OF Suc.prems(1) False Suc.prems(2)] show ?thesis
      by (intro exI [of _ k] exI [of _ c']) simp
  qed
qed

lemma send_net_message_sync_ok:
  assumes "sync_ready c" "sync_out c = []" "client_accepts cs msg"
    and "sizeof_Header + length (m_payload msg) < 2 ^ 32"
    and "sizeof_Header + length (m_payload msg) \<le> n * kFixedIoBufferSize"
  shows "\<exists>k c'. send_net_message_sync e cs msg (replicate n (False, None)) c =
      Some (True, False, replicate k (False, None), c') \<and>
    sync_ready c' \<and> sync_out c' = [] \<and> sk_sent (socket c') = sk_sent (socket c) @ Message_net_str e msg \<and>
    sc_recv_bound c' = sc_recv_bound c"
proof -
  let ?c = "c\<lparr>sc_send_bound := (sc_send_bound c)\<lparr>
    io_buffer := snd (Buffer_append e msg (io_buffer (sc_send_bound c)))\<rparr>\<rparr>"
  have out: "sync_out ?c = Message_net_str e msg" using assms(2) by (simp add: sync_out_def Buffer_append_data)
  have "sync_ready ?c" using assms(1) by (simp add: sync_ready_def)
  moreover have "send_net_message_sync e cs msg (replicate n (False, None)) c =
      write_loop (replicate n (False, None)) ?c"
    using assms(1,3) by (auto simp: send_net_message_sync_def do_write_sync_def client_accepts_def
      get_conn_stat_def sync_ready_def)
  ultimately show ?thesis using write_loop_all [of ?c n] assms(4,5) out by simp
qed

section \<open>What reading does\<close>

definition good_reads :: "bytes list \<Rightarrow> read_script" where
  "good_reads chunks = map (\<lambda>ch. (False, Inr ch)) chunks"

text \<open>The connection after some chunks; only the receiving side changed.\<close>

definition recv_more :: "TcpConnSync \<Rightarrow> TcpConnSync \<Rightarrow> bool" where
  "recv_more c c' \<longleftrightarrow> sync_ready c' \<and> socket c' = socket c \<and> sc_send_bound c' = sc_send_bound c \<and>
     io_header (sc_recv_bound c') = io_header (sc_recv_bound c)"

lemma take_block_sync_ready:
  assumes "sync_ready c" "length ch \<le> kFixedIoBufferSize"
  shows "recv_more c (take_block_sync ch c)" and "sync_data (take_block_sync ch c) = sync_data c @ ch"
  using assms by (simp_all add: recv_more_def take_block_sync_def sync_ready_def sync_data_def
    append_internal_data Let_def)

lemma read_loop_good:
  assumes "sync_ready c" "\<forall>ch \<in> set chunks. length ch \<le> kFixedIoBufferSize"
    and "length (sync_data c) + length (concat chunks) < 2 ^ 32"
    and "\<And>c'. recv_more c c' \<Longrightarrow> length (sync_data c') < 2 ^ 32 \<Longrightarrow> wants c' \<longleftrightarrow> length (sync_data c') < n"
  shows "if length (sync_data c) + length (concat chunks) < n then read_loop wants (good_reads chunks) c = None
    else \<exists>left c'. read_loop wants (good_reads chunks) c = Some (True, False, good_reads left, c') \<and>
      recv_more c c' \<and> n \<le> length (sync_data c') \<and> sync_data c' @ concat left = sync_data c @ concat chunks \<and>
      (\<forall>ch \<in> set left. length ch \<le> kFixedIoBufferSize)"
  using assms
proof (induction chunks arbitrary: c)
  case Nil
  then have "wants c \<longleftrightarrow> length (sync_data c) < n" by (simp add: recv_more_def)
  with Nil show ?case by (auto simp: good_reads_def recv_more_def intro!: exI [of _ "[]"] exI [of _ c])
next
  case (Cons ch chunks)
  have w: "wants c \<longleftrightarrow> length (sync_data c) < n" using Cons.prems by (simp add: recv_more_def)
  show ?case
  proof (cases "wants c")
    case False
    then show ?thesis using w Cons.prems(1,2)
      by (auto simp: good_reads_def recv_more_def intro!: exI [of _ "ch # chunks"] exI [of _ c])
  next
    case True
    let ?c = "take_block_sync ch c"
    have ch: "length ch \<le> kFixedIoBufferSize" using Cons.prems(2) by simp
    note blk = take_block_sync_ready [OF Cons.prems(1) ch]
    have step: "read_loop wants (good_reads (ch # chunks)) c = read_loop wants (good_reads chunks) ?c"
      using True by (simp add: good_reads_def meanwhile_def option.map_ident_strong case_prod_beta)
    have "wants c' \<longleftrightarrow> length (sync_data c') < n" if "recv_more ?c c'" "length (sync_data c') < 2 ^ 32" for c'
      using Cons.prems(4) [of c'] that blk(1) by (simp add: recv_more_def)
    then have IH: "if length (sync_data ?c) + length (concat chunks) < n then read_loop wants (good_reads chunks) ?c = None
      else \<exists>left c'. read_loop wants (good_reads chunks) ?c = Some (True, False, good_reads left, c') \<and>
        recv_more ?c c' \<and> n \<le> length (sync_data c') \<and> sync_data c' @ concat left = sync_data ?c @ concat chunks \<and>
        (\<forall>ch \<in> set left. length ch \<le> kFixedIoBufferSize)"
      using Cons.IH [of ?c] Cons.prems(2,3) blk by (simp add: recv_more_def)
    have "recv_more ?c c' \<Longrightarrow> recv_more c c'" for c' using blk(1) by (simp add: recv_more_def)
    with IH step blk(2) show ?thesis by (auto simp: add.assoc split: if_splits)
  qed
qed

definition strip_header_sync :: "endian \<Rightarrow> TcpConnSync \<Rightarrow> TcpConnSync" where
  "strip_header_sync e c = c\<lparr>sc_recv_bound := (sc_recv_bound c)\<lparr>io_header := Header_decode e (sync_data c),
     io_buffer := \<lparr>buf_data = drop sizeof_Header (sync_data c)\<rparr>\<rparr>\<rparr>"

lemma parse_header_sync_eq:
  assumes "sizeof_Header \<le> length (sync_data c)" "length (sync_data c) < 2 ^ 32"
  shows "parse_header_sync e cs c =
    (if client_header_ok cs (Header_decode e (sync_data c)) then 0 else - 1, strip_header_sync e c)"
proof -
  let ?b = "io_buffer (sc_recv_bound c)"
  have n: "unat (u32_of_size sizeof_Header) = sizeof_Header" by (simp add: sizeof_Header_def)
  have "fst (snd (consume [] (u32_of_size sizeof_Header) ?b)) = take sizeof_Header (sync_data c)"
    by (simp add: consume_empty_store n sync_data_def)
  moreover have "snd (snd (consume [] (u32_of_size sizeof_Header) ?b)) =
      \<lparr>buf_data = drop sizeof_Header (sync_data c)\<rparr>"
    by (rule Buffer_eqI) (simp add: consume_data n sync_data_def)
  moreover have "Header_from_net_endian e (Header_of_mem e (take sizeof_Header (sync_data c))) =
      Header_decode e (sync_data c)"
    using Header_decode_take [of sizeof_Header e "sync_data c"] by (simp add: Header_decode_def)
  moreover have "unat (get_length ?b) = length (sync_data c)"
    using assms(2) by (simp add: get_length_small sync_data_def)
  ultimately show ?thesis
    using assms(1) by (simp add: parse_header_sync_def case_prod_beta client_header_ok_def strip_header_sync_def Let_def)
qed

lemma strip_header_sync_ready:
  "sync_ready c \<Longrightarrow> sync_ready (strip_header_sync e c)"
  "sync_data (strip_header_sync e c) = drop sizeof_Header (sync_data c)"
  "io_header (sc_recv_bound (strip_header_sync e c)) = Header_decode e (sync_data c)"
  "socket (strip_header_sync e c) = socket c"
  "sc_send_bound (strip_header_sync e c) = sc_send_bound c"
  by (auto simp: sync_ready_def strip_header_sync_def sync_data_def)

lemma parse_msg_body_sync_eq:
  assumes "unat (h_length (io_header (sc_recv_bound c))) \<le> length (sync_data c)" "length (sync_data c) < 2 ^ 32"
  shows "parse_msg_body_sync msg c =
    (0, \<lparr>m_header = io_header (sc_recv_bound c),
         m_payload = take (unat (h_length (io_header (sc_recv_bound c)))) (sync_data c)\<rparr>,
     c\<lparr>sc_recv_bound := (sc_recv_bound c)\<lparr>io_buffer :=
       \<lparr>buf_data = drop (unat (h_length (io_header (sc_recv_bound c)))) (sync_data c)\<rparr>\<rparr>\<rparr>)"
proof -
  let ?n = "h_length (io_header (sc_recv_bound c))" and ?b = "io_buffer (sc_recv_bound c)"
  have "\<not> get_length ?b < ?n"
    using assms by (simp add: word_less_nat_alt get_length_small sync_data_def)
  moreover have "snd (snd (consume [] ?n ?b)) = \<lparr>buf_data = drop (unat ?n) (sync_data c)\<rparr>"
    by (rule Buffer_eqI) (simp add: consume_data sync_data_def)
  ultimately show ?thesis
    by (simp add: parse_msg_body_sync_def case_prod_beta consume_empty_store sync_data_def Let_def)
qed

lemma read_loop_header:
  assumes "sync_ready c" "\<forall>ch \<in> set chunks. length ch \<le> kFixedIoBufferSize"
    and "length (sync_data c) + length (concat chunks) < 2 ^ 32"
  shows "if length (sync_data c) + length (concat chunks) < sizeof_Header
    then read_loop need_header (good_reads chunks) c = None
    else \<exists>left c'. read_loop need_header (good_reads chunks) c = Some (True, False, good_reads left, c') \<and>
      recv_more c c' \<and> sizeof_Header \<le> length (sync_data c') \<and>
      sync_data c' @ concat left = sync_data c @ concat chunks \<and>
      (\<forall>ch \<in> set left. length ch \<le> kFixedIoBufferSize)"
  by (rule read_loop_good [OF assms]) (simp add: need_header_def get_length_small sync_data_def)

lemma read_loop_body:
  assumes "sync_ready c" "\<forall>ch \<in> set chunks. length ch \<le> kFixedIoBufferSize"
    and "length (sync_data c) + length (concat chunks) < 2 ^ 32"
  shows "if length (sync_data c) + length (concat chunks) < unat (h_length (io_header (sc_recv_bound c)))
    then read_loop need_body (good_reads chunks) c = None
    else \<exists>left c'. read_loop need_body (good_reads chunks) c = Some (True, False, good_reads left, c') \<and>
      recv_more c c' \<and> unat (h_length (io_header (sc_recv_bound c))) \<le> length (sync_data c') \<and>
      sync_data c' @ concat left = sync_data c @ concat chunks \<and>
      (\<forall>ch \<in> set left. length ch \<le> kFixedIoBufferSize)"
  by (rule read_loop_good [OF assms])
    (simp add: need_body_def get_length_small sync_data_def recv_more_def word_less_nat_alt)

text \<open>What a receive leaves behind: the stream without its first \<open>k\<close> bytes.\<close>

definition read_past :: "nat \<Rightarrow> TcpConnSync \<Rightarrow> bytes list \<Rightarrow> TcpConnSync \<Rightarrow> bytes list \<Rightarrow> bool" where
  "read_past k c chunks c' left \<longleftrightarrow> sync_ready c' \<and> socket c' = socket c \<and> sc_send_bound c' = sc_send_bound c \<and>
     sync_data c' @ concat left = drop k (sync_data c @ concat chunks) \<and>
     (\<forall>ch \<in> set left. length ch \<le> kFixedIoBufferSize)"

lemma do_read_msg_sync_good:
  assumes "sync_ready c" "\<forall>ch \<in> set chunks. length ch \<le> kFixedIoBufferSize"
    and "length (sync_data c) + length (concat chunks) < 2 ^ 32"
  defines "n \<equiv> unat (h_length (io_header (sc_recv_bound c)))"
  shows "if length (sync_data c) + length (concat chunks) < n
    then do_read_msg_sync msg (good_reads chunks) c = None
    else \<exists>left c'. do_read_msg_sync msg (good_reads chunks) c =
        Some (True, \<lparr>m_header = io_header (sc_recv_bound c), m_payload = take n (sync_data c @ concat chunks)\<rparr>,
          False, good_reads left, c') \<and> read_past n c chunks c' left"
proof (cases "length (sync_data c) + length (concat chunks) < n")
  case True
  then show ?thesis
    using read_loop_body [OF assms(1-3)] assms(1)
    by (simp add: do_read_msg_sync_def get_conn_stat_def sync_ready_def n_def)
next
  case False
  then obtain left c1 where c1: "read_loop need_body (good_reads chunks) c = Some (True, False, good_reads left, c1)"
      "recv_more c c1" "n \<le> length (sync_data c1)" "sync_data c1 @ concat left = sync_data c @ concat chunks"
      "\<forall>ch \<in> set left. length ch \<le> kFixedIoBufferSize"
    using read_loop_body [OF assms(1-3)] by (auto simp: n_def)
  have h: "io_header (sc_recv_bound c1) = io_header (sc_recv_bound c)" using c1(2) by (simp add: recv_more_def)
  have "length (sync_data c1) + length (concat left) < 2 ^ 32"
    using assms(3) c1(4) by (metis length_append)
  then have "length (sync_data c1) < 2 ^ 32" by simp
  then have body: "parse_msg_body_sync msg c1 =
      (0, \<lparr>m_header = io_header (sc_recv_bound c), m_payload = take n (sync_data c1)\<rparr>,
       c1\<lparr>sc_recv_bound := (sc_recv_bound c1)\<lparr>io_buffer := \<lparr>buf_data = drop n (sync_data c1)\<rparr>\<rparr>\<rparr>)"
    using parse_msg_body_sync_eq [of c1 msg] c1(3) by (simp add: h n_def)
  have "take n (sync_data c1) = take n (sync_data c @ concat chunks)"
    "drop n (sync_data c1) @ concat left = drop n (sync_data c @ concat chunks)"
    using c1(3) by (simp_all flip: c1(4))
  with body c1 assms(1) False show ?thesis
    by (auto simp: do_read_msg_sync_def get_conn_stat_def read_past_def recv_more_def sync_ready_def sync_data_def
      intro!: exI [of _ left])
qed

text \<open>
  Receiving a message, for every division of the stream into chunks: the first frame of the
  specification when there is one, a closed connection when the header is refused, and waiting for
  ever when the stream ends before the frame does.
\<close>

lemma do_read_sync_header:
  assumes "sync_ready c" "\<forall>ch \<in> set chunks. length ch \<le> kFixedIoBufferSize"
    and "length (sync_data c) + length (concat chunks) < 2 ^ 32"
    and "sizeof_Header \<le> length (sync_data c) + length (concat chunks)"
    and h_def: "h = Header_decode e (sync_data c @ concat chunks)"
  obtains left c1 where "recv_more c c1" "io_header (sc_recv_bound (strip_header_sync e c1)) = h"
    "sync_ready (strip_header_sync e c1)"
    "\<forall>ch \<in> set left. length ch \<le> kFixedIoBufferSize"
    "sync_data (strip_header_sync e c1) @ concat left = drop sizeof_Header (sync_data c @ concat chunks)"
    "do_read_sync e cs msg (good_reads chunks) c =
      (if client_header_ok cs h then do_read_msg_sync msg (good_reads left) (strip_header_sync e c1)
       else Some (False, msg, False, good_reads left, sock_shutdown_and_close kShutBoth (strip_header_sync e c1)))"
proof -
  obtain left c1 where c1: "read_loop need_header (good_reads chunks) c = Some (True, False, good_reads left, c1)"
      "recv_more c c1" "sizeof_Header \<le> length (sync_data c1)"
      "sync_data c1 @ concat left = sync_data c @ concat chunks"
      "\<forall>ch \<in> set left. length ch \<le> kFixedIoBufferSize"
    using read_loop_header [OF assms(1-3)] assms(4) by auto
  have "length (sync_data c1) + length (concat left) < 2 ^ 32" using assms(3) c1(4) by (metis length_append)
  then have small: "length (sync_data c1) < 2 ^ 32" by simp
  have h: "Header_decode e (sync_data c1) = h"
    unfolding h_def c1(4) [symmetric] using c1(3) by (simp add: Header_decode_append)
  have "do_read_sync e cs msg (good_reads chunks) c =
      (if client_header_ok cs h then do_read_msg_sync msg (good_reads left) (strip_header_sync e c1)
       else Some (False, msg, False, good_reads left, sock_shutdown_and_close kShutBoth (strip_header_sync e c1)))"
    using assms(1) c1(1) parse_header_sync_eq [OF c1(3) small, of e cs]
    by (simp add: do_read_sync_def get_conn_stat_def sync_ready_def h option.map_ident_strong case_prod_beta)
  moreover have "sync_data (strip_header_sync e c1) @ concat left =
      drop sizeof_Header (sync_data c @ concat chunks)"
    using c1(3) by (simp add: strip_header_sync_ready flip: c1(4))
  ultimately show thesis
    using that c1(2,5) h by (simp add: strip_header_sync_ready recv_more_def)
qed

lemma do_read_sync_frame:
  assumes "sync_ready c" "\<forall>ch \<in> set chunks. length ch \<le> kFixedIoBufferSize"
    and "length (sync_data c) + length (concat chunks) < 2 ^ 32"
    and "frames e (client_header_ok cs) (sync_data c @ concat chunks) = (p # ps, r, g)"
  shows "\<exists>left c'. do_read_sync e cs msg (good_reads chunks) c =
      Some (True, \<lparr>m_header = Header_decode e (sync_data c @ concat chunks), m_payload = p\<rparr>, False,
        good_reads left, c') \<and> read_past (sizeof_Header + length p) c chunks c' left"
proof -
  let ?bs = "sync_data c @ concat chunks"
  note fr = frames_ConsD [OF assms(4)]
  have ge: "sizeof_Header \<le> length (sync_data c) + length (concat chunks)" using fr(1) by simp
  obtain left c1 where c1: "recv_more c c1" "io_header (sc_recv_bound (strip_header_sync e c1)) = Header_decode e ?bs"
      "sync_ready (strip_header_sync e c1)" "\<forall>ch \<in> set left. length ch \<le> kFixedIoBufferSize"
      "sync_data (strip_header_sync e c1) @ concat left = drop sizeof_Header ?bs"
      "do_read_sync e cs msg (good_reads chunks) c =
        (if client_header_ok cs (Header_decode e ?bs)
         then do_read_msg_sync msg (good_reads left) (strip_header_sync e c1)
         else Some (False, msg, False, good_reads left, sock_shutdown_and_close kShutBoth (strip_header_sync e c1)))"
    by (rule do_read_sync_header [OF assms(1-3) ge refl])
  let ?c = "strip_header_sync e c1"
  have "length (sync_data ?c) + length (concat left) = length (drop sizeof_Header ?bs)"
    using c1(5) by (metis length_append)
  then have "length (sync_data ?c) + length (concat left) < 2 ^ 32"
    "\<not> length (sync_data ?c) + length (concat left) < unat (h_length (Header_decode e ?bs))"
    using assms(3) fr(1) by auto
  then obtain left' c' where "do_read_msg_sync msg (good_reads left) ?c =
      Some (True, \<lparr>m_header = Header_decode e ?bs, m_payload = p\<rparr>, False, good_reads left', c')"
      "read_past (length p) ?c left c' left'"
    using do_read_msg_sync_good [OF c1(3,4), of msg] c1(2,5) fr(3,4) by auto
  moreover have "read_past (sizeof_Header + length p) c chunks c' left'" if "read_past (length p) ?c left c' left'"
  proof -
    have "drop (length p) (sync_data ?c @ concat left) = drop (sizeof_Header + length p) ?bs"
      unfolding c1(5) by (simp add: add.commute del: drop_append)
    then show ?thesis using that c1(1)
      by (simp add: read_past_def recv_more_def strip_header_sync_ready del: drop_append)
  qed
  ultimately show ?thesis using c1(6) fr(2) by auto
qed

lemma do_read_sync_refused:
  assumes "sync_ready c" "\<forall>ch \<in> set chunks. length ch \<le> kFixedIoBufferSize"
    and "length (sync_data c) + length (concat chunks) < 2 ^ 32"
    and "frames e (client_header_ok cs) (sync_data c @ concat chunks) = ([], r, False)"
  shows "\<exists>left c'. do_read_sync e cs msg (good_reads chunks) c = Some (False, msg, False, good_reads left, c') \<and>
      conn_stat c' = kClosed"
proof -
  have "sizeof_Header \<le> length (sync_data c) + length (concat chunks)"
    "\<not> client_header_ok cs (Header_decode e (sync_data c @ concat chunks))"
    using frames_NilD(2) [OF assms(4)] by auto
  with do_read_sync_header [OF assms(1-3) this(1) refl, of e cs msg] show ?thesis by (metis sock_shutdown_and_close_closed)
qed

lemma do_read_sync_blocks:
  assumes "sync_ready c" "\<forall>ch \<in> set chunks. length ch \<le> kFixedIoBufferSize"
    and "length (sync_data c) + length (concat chunks) < 2 ^ 32"
    and "frames e (client_header_ok cs) (sync_data c @ concat chunks) = ([], r, True)"
  shows "do_read_sync e cs msg (good_reads chunks) c = None"
proof (cases "length (sync_data c) + length (concat chunks) < sizeof_Header")
  case True
  then show ?thesis
    using read_loop_header [OF assms(1-3)] assms(1)
    by (simp add: do_read_sync_def get_conn_stat_def sync_ready_def)
next
  case False
  let ?bs = "sync_data c @ concat chunks"
  have ge: "sizeof_Header \<le> length (sync_data c) + length (concat chunks)" using False by simp
  have ok: "client_header_ok cs (Header_decode e ?bs)"
    "length ?bs < sizeof_Header + unat (h_length (Header_decode e ?bs))"
    using frames_NilD(2,3) [OF assms(4)] False by auto
  obtain left c1 where c1: "recv_more c c1" "io_header (sc_recv_bound (strip_header_sync e c1)) = Header_decode e ?bs"
      "sync_ready (strip_header_sync e c1)" "\<forall>ch \<in> set left. length ch \<le> kFixedIoBufferSize"
      "sync_data (strip_header_sync e c1) @ concat left = drop sizeof_Header ?bs"
      "do_read_sync e cs msg (good_reads chunks) c =
        (if client_header_ok cs (Header_decode e ?bs)
         then do_read_msg_sync msg (good_reads left) (strip_header_sync e c1)
         else Some (False, msg, False, good_reads left, sock_shutdown_and_close kShutBoth (strip_header_sync e c1)))"
    by (rule do_read_sync_header [OF assms(1-3) ge refl])
  let ?c = "strip_header_sync e c1"
  have "length (sync_data ?c) + length (concat left) = length (drop sizeof_Header ?bs)"
    using c1(5) by (metis length_append)
  then have "length (sync_data ?c) + length (concat left) < 2 ^ 32"
    "length (sync_data ?c) + length (concat left) < unat (h_length (Header_decode e ?bs))"
    using assms(3) ok(2) ge by auto
  then show ?thesis using do_read_msg_sync_good [OF c1(3,4), of msg] c1(2,6) ok(1) by simp
qed

end
