(* ===== verification/ClientTcpConnAsync.thy ===== *)
theory ClientTcpConnAsync
  imports TcpConnSync TcpConnWrite
begin

text \<open>
  \<^verbatim>\<open>source/Client/TcpConnAsync.h\<close> and \<^verbatim>\<open>.cpp\<close>: the client's asynchronous connection.  It has the
  reading and writing loops of the server's connection without its cancel timer; a complete message
  goes to \<^verbatim>\<open>wrapper_handler_\<close>, here a function \<open>wh\<close> on the state \<open>'u\<close> of what lies above the connection
  (\<open>None\<close> for an empty \<^verbatim>\<open>std::function\<close>).  The connection meets the same two contracts, the sender's
  of theory Sender and the receiver's of theory Framing.
\<close>

record ClientConnAsync = NetConn +
  ac_recv_bound :: IOBound
  ac_send_status :: SendStatus
  ac_send_bound :: IOBound
  ac_sane :: bool

definition ClientConnAsync_new :: "bool \<Rightarrow> socket \<Rightarrow> ClientConnAsync" where
  "ClientConnAsync_new ok sock =
     (let c0 = \<lparr>conn_stat = kPending, socket = sock, ac_recv_bound = IOBound_new, ac_send_status = kSendDone,
                ac_send_bound = IOBound_new, ac_sane = True\<rparr>;
          c1 = snd (set_tcp_nonblocking ok False c0);
          c2 = snd (set_tcp_nodelay ok True c1);
          c3 = snd (set_tcp_nonblocking ok True c2)
      in set_conn_stat kWorking c3)"

definition handle_socket_ec_async :: "error_code \<Rightarrow> ClientConnAsync \<Rightarrow> bool \<times> ClientConnAsync" where
  "handle_socket_ec_async ec c =
     (let close_socket = ec_closes ec
      in (close_socket, if close_socket then sock_shutdown_and_close kShutBoth c else c))"

section \<open>Writing\<close>

definition do_write_async :: "ClientConnAsync \<Rightarrow> bool \<times> ClientConnAsync" where
  "do_write_async c =
     (if ac_send_status c \<noteq> kSendDone then (True, c)
      else if get_conn_stat c \<noteq> kWorking then (False, c)
      else if get_length (io_buffer (ac_send_bound c)) = 0 then (True, c)
      else
        let to_write = min (get_length (io_buffer (ac_send_bound c))) (u32_of_size kFixedIoBufferSize)
        in case consume_raw (Some (io_block (ac_send_bound c))) to_write (io_buffer (ac_send_bound c)) of
             Inl _ \<Rightarrow> (False, c\<lparr>ac_sane := False\<rparr>)
           | Inr (_, blk, b) \<Rightarrow>
               let c1 = c\<lparr>ac_send_bound := (ac_send_bound c)\<lparr>io_block := the blk, io_buffer := b\<rparr>,
                          ac_send_status := kSend\<rparr>
               in (True, c1\<lparr>socket := async_write (unat to_write) (socket c1)\<rparr>))"

definition write_handler_async :: "error_code option \<Rightarrow> nat \<Rightarrow> ClientConnAsync \<Rightarrow> ClientConnAsync" where
  "write_handler_async ec bytes_transferred c =
     (case ec of
        Some err \<Rightarrow> snd (handle_socket_ec_async err c)
      | None \<Rightarrow>
          snd (do_write_async (c\<lparr>ac_sane := ac_sane c \<and> bytes_transferred > 0, ac_send_status := kSendDone\<rparr>)))"

definition send_net_message_async :: "endian \<Rightarrow> RpcClientSetting \<Rightarrow> Message \<Rightarrow> ClientConnAsync \<Rightarrow> bool \<times> ClientConnAsync" where
  "send_net_message_async e cs msg c =
     (if cs_send_max_msg_size cs \<noteq> 0 \<and> h_length (m_header msg) > cs_send_max_msg_size cs then (False, c)
      else do_write_async (c\<lparr>ac_send_bound := (ac_send_bound c)\<lparr>
             io_buffer := snd (Buffer_append e msg (io_buffer (ac_send_bound c)))\<rparr>\<rparr>))"

text \<open>The oldest outstanding write completes or fails after \<open>k\<close> bytes, as for the server's connection.\<close>

definition io_write_ok_async :: "ClientConnAsync \<Rightarrow> ClientConnAsync" where
  "io_write_ok_async c =
     (case sk_writes (socket c) of
        [] \<Rightarrow> c
      | n # ns \<Rightarrow> write_handler_async None n (c\<lparr>socket := (socket c)\<lparr>sk_writes := ns,
                    sk_sent := sk_sent (socket c) @ take n (io_block (ac_send_bound c))\<rparr>\<rparr>))"

definition io_write_error_async :: "error_code \<Rightarrow> nat \<Rightarrow> ClientConnAsync \<Rightarrow> ClientConnAsync" where
  "io_write_error_async err k c =
     (case sk_writes (socket c) of
        [] \<Rightarrow> c
      | n # ns \<Rightarrow> write_handler_async (Some err) (min k n) (c\<lparr>socket := (socket c)\<lparr>sk_writes := ns,
                    sk_sent := sk_sent (socket c) @ take (min k n) (io_block (ac_send_bound c))\<rparr>\<rparr>))"

section \<open>Parsing\<close>

definition parse_header_async :: "endian \<Rightarrow> RpcClientSetting \<Rightarrow> ClientConnAsync \<Rightarrow> int \<times> ClientConnAsync" where
  "parse_header_async e cs c =
     (if unat (get_length (io_buffer (ac_recv_bound c))) < sizeof_Header then (1, c)
      else
        let (_, head_str, b) = consume [] (u32_of_size sizeof_Header) (io_buffer (ac_recv_bound c));
            header = Header_from_net_endian e (Header_of_mem e head_str);
            c1 = c\<lparr>ac_recv_bound := (ac_recv_bound c)\<lparr>io_header := header, io_buffer := b\<rparr>\<rparr>
        in if h_magic header \<noteq> kHeaderMagic \<or> h_version header \<noteq> kHeaderVersion then (- 1, c1)
           else if cs_recv_max_msg_size cs \<noteq> 0 \<and> h_length header > cs_recv_max_msg_size cs then (- 1, c1)
           else (0, c1))"

definition parse_msg_body_async :: "Message \<Rightarrow> ClientConnAsync \<Rightarrow> int \<times> Message \<times> ClientConnAsync" where
  "parse_msg_body_async msg c =
     (if get_length (io_buffer (ac_recv_bound c)) < h_length (io_header (ac_recv_bound c)) then (1, msg, c)
      else
        let (_, msg_str, b) = consume [] (h_length (io_header (ac_recv_bound c))) (io_buffer (ac_recv_bound c));
            c1 = c\<lparr>ac_recv_bound := (ac_recv_bound c)\<lparr>io_buffer := b\<rparr>\<rparr>
        in (0, \<lparr>m_header = io_header (ac_recv_bound c1), m_payload = msg_str\<rparr>, c1))"

definition async_data :: "ClientConnAsync \<Rightarrow> bytes" where
  "async_data c = buf_data (io_buffer (ac_recv_bound c))"

definition strip_header_async :: "endian \<Rightarrow> ClientConnAsync \<Rightarrow> ClientConnAsync" where
  "strip_header_async e c = c\<lparr>ac_recv_bound := (ac_recv_bound c)\<lparr>io_header := Header_decode e (async_data c),
     io_buffer := \<lparr>buf_data = drop sizeof_Header (async_data c)\<rparr>\<rparr>\<rparr>"

definition strip_body_async :: "ClientConnAsync \<Rightarrow> ClientConnAsync" where
  "strip_body_async c = c\<lparr>ac_recv_bound := (ac_recv_bound c)\<lparr>
     io_buffer := \<lparr>buf_data = drop (unat (h_length (io_header (ac_recv_bound c)))) (async_data c)\<rparr>\<rparr>\<rparr>"

lemma parse_header_async_eq:
  assumes "sizeof_Header \<le> unat (get_length (io_buffer (ac_recv_bound c)))"
  shows "parse_header_async e cs c =
    (if client_header_ok cs (Header_decode e (async_data c)) then 0 else - 1, strip_header_async e c)"
proof -
  let ?b = "io_buffer (ac_recv_bound c)"
  have n: "unat (u32_of_size sizeof_Header) = sizeof_Header" by (simp add: sizeof_Header_def)
  have "fst (snd (consume [] (u32_of_size sizeof_Header) ?b)) = take sizeof_Header (async_data c)"
    by (simp add: consume_empty_store n async_data_def)
  moreover have "snd (snd (consume [] (u32_of_size sizeof_Header) ?b)) =
      \<lparr>buf_data = drop sizeof_Header (async_data c)\<rparr>"
    by (rule Buffer_eqI) (simp add: consume_data n async_data_def)
  moreover have "Header_from_net_endian e (Header_of_mem e (take sizeof_Header (async_data c))) =
      Header_decode e (async_data c)"
    using Header_decode_take [of sizeof_Header e "async_data c"] by (simp add: Header_decode_def)
  ultimately show ?thesis
    using assms by (simp add: parse_header_async_def case_prod_beta client_header_ok_def strip_header_async_def Let_def)
qed

lemma parse_msg_body_async_eq:
  assumes "h_length (io_header (ac_recv_bound c)) \<le> get_length (io_buffer (ac_recv_bound c))"
  shows "parse_msg_body_async msg c =
    (0, \<lparr>m_header = io_header (ac_recv_bound c),
         m_payload = take (unat (h_length (io_header (ac_recv_bound c)))) (async_data c)\<rparr>, strip_body_async c)"
proof -
  let ?n = "h_length (io_header (ac_recv_bound c))"
  have "snd (snd (consume [] ?n (io_buffer (ac_recv_bound c)))) = \<lparr>buf_data = drop (unat ?n) (async_data c)\<rparr>"
    by (rule Buffer_eqI) (simp add: consume_data async_data_def)
  then show ?thesis
    using assms
    by (simp add: parse_msg_body_async_def case_prod_beta consume_empty_store strip_body_async_def async_data_def Let_def)
qed

lemma strip_data_async [simp]:
  "async_data (strip_header_async e c) = drop sizeof_Header (async_data c)"
  "async_data (strip_body_async c) = drop (unat (h_length (io_header (ac_recv_bound c)))) (async_data c)"
  by (simp_all add: async_data_def strip_header_async_def strip_body_async_def)

lemma get_length_async: "unat (get_length (io_buffer (ac_recv_bound c))) \<le> length (async_data c)"
  by (simp add: async_data_def get_length_unat)

section \<open>Reading\<close>

definition call_wrapper :: "(Message \<Rightarrow> 'u \<Rightarrow> 'u) option \<Rightarrow> Message \<Rightarrow> 'u \<Rightarrow> 'u" where
  "call_wrapper wh msg u = (case wh of None \<Rightarrow> u | Some f \<Rightarrow> f msg u)"

function (sequential) do_read_async ::
    "(Message \<Rightarrow> 'u \<Rightarrow> 'u) option \<Rightarrow> endian \<Rightarrow> RpcClientSetting \<Rightarrow> ClientConnAsync \<Rightarrow> 'u \<Rightarrow> bool \<times> ClientConnAsync \<times> 'u"
  and do_read_msg_async ::
    "(Message \<Rightarrow> 'u \<Rightarrow> 'u) option \<Rightarrow> endian \<Rightarrow> RpcClientSetting \<Rightarrow> ClientConnAsync \<Rightarrow> 'u \<Rightarrow> ClientConnAsync \<times> 'u" where
  "do_read_async wh e cs c u =
     (if get_conn_stat c \<noteq> kWorking then (False, c, u)
      else if unat (get_length (io_buffer (ac_recv_bound c))) < sizeof_Header then
        let bytes_read = unat (get_length (io_buffer (ac_recv_bound c)))
        in (True, c\<lparr>socket := async_read (ReadHead (sizeof_Header - bytes_read)) (socket c)\<rparr>, u)
      else
        let ret = fst (parse_header_async e cs c); c1 = snd (parse_header_async e cs c)
        in if ret = 0 then (True, do_read_msg_async wh e cs c1 u)
           else if ret > 0 then (True, snd (do_read_async wh e cs c1 u))
           else (False, sock_shutdown_and_close kShutBoth c1, u))"
| "do_read_msg_async wh e cs c u =
     (if get_conn_stat c \<noteq> kWorking then (c, u)
      else if get_length (io_buffer (ac_recv_bound c)) < h_length (io_header (ac_recv_bound c)) then
        let to_read = min (h_length (io_header (ac_recv_bound c)) - get_length (io_buffer (ac_recv_bound c)))
                        (u32_of_size kFixedIoBufferSize)
        in (c\<lparr>socket := async_read (ReadMsg (unat to_read)) (socket c)\<rparr>, u)
      else
        let ret = fst (parse_msg_body_async Message_default c);
            msg = fst (snd (parse_msg_body_async Message_default c));
            c1 = snd (snd (parse_msg_body_async Message_default c))
        in if ret = 0 then snd (do_read_async wh e cs c1 (call_wrapper wh msg u))
           else if ret > 0 then do_read_msg_async wh e cs c1 u
           else (sock_shutdown_and_close kShutBoth c1, u))"
  by pat_completeness auto
termination
proof (relation "measure (\<lambda>x. case x of
      Inl (wh, e, cs, c, u) \<Rightarrow> 2 * length (async_data c)
    | Inr (wh, e, cs, c, u) \<Rightarrow> Suc (2 * length (async_data c)))",
    goal_cases)
  case 1
  then show ?case by simp
next
  case (2 wh e cs c u)
  then have "parse_header_async e cs c = (0, strip_header_async e c)" "sizeof_Header \<le> length (async_data c)"
    using parse_header_async_eq [of c e cs] get_length_async [of c] by simp_all
  with 2 show ?case by (simp add: sizeof_Header_def)
next
  case (3 wh e cs c u)
  then show ?case using parse_header_async_eq [of c e cs] by (simp split: if_splits)
next
  case (4 wh e cs c u)
  then show ?case using parse_msg_body_async_eq [of c Message_default] by simp
next
  case (5 wh e cs c u)
  then show ?case using parse_msg_body_async_eq [of c Message_default] by simp
qed

declare do_read_async.simps [simp del] do_read_msg_async.simps [simp del]

definition recv_net_message_async ::
  "(Message \<Rightarrow> 'u \<Rightarrow> 'u) option \<Rightarrow> endian \<Rightarrow> RpcClientSetting \<Rightarrow> ClientConnAsync \<Rightarrow> 'u \<Rightarrow> bool \<times> ClientConnAsync \<times> 'u" where
  "recv_net_message_async wh e cs c u = do_read_async wh e cs c u"

definition take_block_async :: "nat \<Rightarrow> ClientConnAsync \<Rightarrow> ClientConnAsync" where
  "take_block_async n c = c\<lparr>
     ac_sane := ac_sane c \<and> n > 0 \<and> n \<le> length (io_block (ac_recv_bound c)),
     ac_recv_bound := (ac_recv_bound c)\<lparr>io_buffer :=
       snd (append_internal (take n (io_block (ac_recv_bound c))) (io_buffer (ac_recv_bound c)))\<rparr>\<rparr>"

definition read_handler_async ::
  "(Message \<Rightarrow> 'u \<Rightarrow> 'u) option \<Rightarrow> endian \<Rightarrow> RpcClientSetting \<Rightarrow> error_code option \<Rightarrow> nat \<Rightarrow> ClientConnAsync \<Rightarrow> 'u \<Rightarrow>
    ClientConnAsync \<times> 'u" where
  "read_handler_async wh e cs ec bytes_transferred c u =
     (case ec of
        Some err \<Rightarrow> (snd (handle_socket_ec_async err c), u)
      | None \<Rightarrow>
          let c1 = take_block_async bytes_transferred c
          in if unat (get_length (io_buffer (ac_recv_bound c1))) < sizeof_Header
             then snd (do_read_async wh e cs c1 u)
             else
               let (ret, c2) = parse_header_async e cs c1
               in if ret = 0 then do_read_msg_async wh e cs c2 u
                  else if ret > 0 then snd (do_read_async wh e cs c2 u)
                  else (sock_shutdown_and_close kShutBoth c2, u))"

definition read_msg_handler_async ::
  "(Message \<Rightarrow> 'u \<Rightarrow> 'u) option \<Rightarrow> endian \<Rightarrow> RpcClientSetting \<Rightarrow> error_code option \<Rightarrow> nat \<Rightarrow> ClientConnAsync \<Rightarrow> 'u \<Rightarrow>
    ClientConnAsync \<times> 'u" where
  "read_msg_handler_async wh e cs ec bytes_transferred c u =
     (case ec of
        Some err \<Rightarrow> (snd (handle_socket_ec_async err c), u)
      | None \<Rightarrow>
          let c1 = take_block_async bytes_transferred c;
              (ret, msg, c2) = parse_msg_body_async Message_default c1
          in if ret = 0 then snd (do_read_async wh e cs c2 (call_wrapper wh msg u))
             else if ret > 0 then do_read_msg_async wh e cs c2 u
             else (sock_shutdown_and_close kShutBoth c2, u))"

text \<open>The oldest outstanding read completes with the bytes of \<open>chunk\<close>, or fails.\<close>

definition io_read_ok_async ::
  "(Message \<Rightarrow> 'u \<Rightarrow> 'u) option \<Rightarrow> endian \<Rightarrow> RpcClientSetting \<Rightarrow> bytes \<Rightarrow> ClientConnAsync \<times> 'u \<Rightarrow> ClientConnAsync \<times> 'u" where
  "io_read_ok_async wh e cs chunk s =
     (let (c, u) = s
      in case sk_reads (socket c) of
           [] \<Rightarrow> (c, u)
         | op # ops \<Rightarrow>
             let c1 = c\<lparr>socket := (socket c)\<lparr>sk_reads := ops\<rparr>,
                        ac_recv_bound := (ac_recv_bound c)\<lparr>io_block := blit chunk (io_block (ac_recv_bound c))\<rparr>\<rparr>
             in case op of
                  ReadHead _ \<Rightarrow> read_handler_async wh e cs None (length chunk) c1 u
                | ReadMsg _ \<Rightarrow> read_msg_handler_async wh e cs None (length chunk) c1 u)"

definition io_read_error_async ::
  "(Message \<Rightarrow> 'u \<Rightarrow> 'u) option \<Rightarrow> endian \<Rightarrow> RpcClientSetting \<Rightarrow> error_code \<Rightarrow> nat \<Rightarrow> ClientConnAsync \<times> 'u \<Rightarrow>
    ClientConnAsync \<times> 'u" where
  "io_read_error_async wh e cs err n s =
     (let (c, u) = s
      in case sk_reads (socket c) of
           [] \<Rightarrow> (c, u)
         | op # ops \<Rightarrow>
             let c1 = c\<lparr>socket := (socket c)\<lparr>sk_reads := ops\<rparr>\<rparr>
             in case op of
                  ReadHead _ \<Rightarrow> read_handler_async wh e cs (Some err) n c1 u
                | ReadMsg _ \<Rightarrow> read_msg_handler_async wh e cs (Some err) n c1 u)"

section \<open>The sending half simulates the server's\<close>

text \<open>
  Seen as a server connection without time limit, the client's connection takes the same steps; so
  it inherits the sender's contract.
\<close>

definition as_server :: "ClientConnAsync \<Rightarrow> TcpConn" where
  "as_server c = \<lparr>conn_stat = conn_stat c, socket = socket c, was_cancelled = False, ops_cancel_timer = None,
     recv_bound = ac_recv_bound c, send_status = ac_send_status c, send_bound = ac_send_bound c, sane = ac_sane c\<rparr>"

definition as_conf :: "RpcClientSetting \<Rightarrow> NetConf" where
  "as_conf cs = NetConf_default\<lparr>ops_cancel_time_out := 0, send_max_msg_size := uint (cs_send_max_msg_size cs),
     recv_max_msg_size := uint (cs_recv_max_msg_size cs)\<rparr>"

lemma as_server_fields [simp]:
  "conn_stat (as_server c) = conn_stat c" "socket (as_server c) = socket c"
  "was_cancelled (as_server c) = False" "ops_cancel_timer (as_server c) = None"
  "recv_bound (as_server c) = ac_recv_bound c" "send_status (as_server c) = ac_send_status c"
  "send_bound (as_server c) = ac_send_bound c" "sane (as_server c) = ac_sane c"
  by (simp_all add: as_server_def)

lemma do_write_simulates:
  "fst (do_write_async c) = fst (do_write (as_conf cs) (as_server c))"
  "as_server (snd (do_write_async c)) = snd (do_write (as_conf cs) (as_server c))"
  by (auto simp: do_write_async_def do_write_def get_conn_stat_def was_ops_cancelled_def Let_def
    set_ops_cancel_timeout_def as_conf_def split: sum.split)

lemma client_accepts_as_conf: "send_accepts (as_conf cs) msg = client_accepts cs msg"
  by (simp add: send_accepts_def client_accepts_def as_conf_def uint_0_iff)

lemma send_net_message_simulates:
  "as_server (snd (send_net_message_async e cs msg c)) = snd (async_send_message e (as_conf cs) msg (as_server c))"
proof -
  have "as_server (c\<lparr>ac_send_bound := (ac_send_bound c)\<lparr>
      io_buffer := snd (Buffer_append e msg (io_buffer (ac_send_bound c)))\<rparr>\<rparr>) = push_message e msg (as_server c)"
    by (simp add: push_message_def as_server_def)
  then show ?thesis
    using client_accepts_as_conf [of cs msg]
    by (auto simp: send_net_message_async_def async_send_message_eq do_write_simulates(2) [of _ cs] client_accepts_def)
qed

lemma io_write_simulates: "as_server (io_write_ok_async c) = io_write_ok (as_conf cs) (as_server c)"
proof (cases "sk_writes (socket c)")
  case Nil
  then show ?thesis by (simp add: io_write_ok_async_def io_write_ok_def)
next
  case (Cons n ns)
  then show ?thesis
    by (simp add: io_write_ok_async_def io_write_ok_def write_handler_async_def write_handler_def
      do_write_simulates(2) [of _ cs] revoke_ops_cancel_timeout_def) (simp add: as_server_def)
qed

definition async_send_inv :: "RpcClientSetting \<Rightarrow> ClientConnAsync \<Rightarrow> bool" where
  "async_send_inv cs c \<longleftrightarrow> send_inv (as_conf cs) (as_server c)"

definition async_send_live :: "RpcClientSetting \<Rightarrow> ClientConnAsync \<Rightarrow> bool" where
  "async_send_live cs c \<longleftrightarrow> send_live (as_conf cs) (as_server c)"

interpretation cli_send: live_sender "async_send_inv cs" "\<lambda>msg c. snd (send_net_message_async e cs msg c)"
  io_write_ok_async "Message_net_str e" "client_accepts cs" "\<lambda>c. sent_bytes (as_server c)"
  "\<lambda>c. send_backlog (as_server c)" "async_send_live cs"
  for e cs
proof unfold_locales
  fix c msg
  assume "async_send_inv cs c"
  then have inv: "send_inv (as_conf cs) (as_server c)" by (simp add: async_send_inv_def)
  show "async_send_inv cs (snd (send_net_message_async e cs msg c))"
    using inv srv_send.inv_send by (simp add: async_send_inv_def send_net_message_simulates)
  show "async_send_inv cs (io_write_ok_async c)"
    using inv srv_send.inv_wdone by (simp add: async_send_inv_def io_write_simulates [of _ cs])
  show "sent_bytes (as_server (snd (send_net_message_async e cs msg c))) @
      send_backlog (as_server (snd (send_net_message_async e cs msg c))) =
      sent_bytes (as_server c) @ send_backlog (as_server c) @ (if client_accepts cs msg then Message_net_str e msg else [])"
    using srv_send.stream_send [OF inv, of e msg]
    by (simp add: send_net_message_simulates client_accepts_as_conf)
  show "sent_bytes (as_server (io_write_ok_async c)) @ send_backlog (as_server (io_write_ok_async c)) =
      sent_bytes (as_server c) @ send_backlog (as_server c)"
    using srv_send.stream_wdone [OF inv] by (simp add: io_write_simulates [of _ cs])
next
  fix c
  assume "async_send_live cs c"
  then have live: "send_live (as_conf cs) (as_server c)" by (simp add: async_send_live_def)
  show "async_send_inv cs c" using srv_send.live_inv [OF live] by (simp add: async_send_inv_def)
  show "async_send_live cs (io_write_ok_async c)"
    using srv_send.live_wdone [OF live] by (simp add: async_send_live_def io_write_simulates [of _ cs])
  show "length (send_backlog (as_server (io_write_ok_async c))) < length (send_backlog (as_server c))"
    if "send_backlog (as_server c) \<noteq> []"
    using srv_send.live_progress [OF live that] by (simp add: io_write_simulates [of _ cs])
  show "send_backlog (as_server (io_write_ok_async c)) = []" if "send_backlog (as_server c) = []"
    using srv_send.live_idle [OF live that] by (simp add: io_write_simulates [of _ cs])
qed

section \<open>The receiving half meets the framing specification\<close>

definition cli_waiting :: "RpcClientSetting \<Rightarrow> ClientConnAsync \<times> 'u \<Rightarrow> bool" where
  "cli_waiting cs s \<longleftrightarrow>
     (let c = fst s; h = io_header (ac_recv_bound c); n = length (async_data c)
      in conn_stat c = kWorking \<and> ac_sane c \<and>
         length (io_block (ac_recv_bound c)) = kFixedIoBufferSize \<and> n < 2 ^ 32 \<and>
         (n < sizeof_Header \<and> sk_reads (socket c) = [ReadHead (sizeof_Header - n)] \<or>
          client_header_ok cs h \<and> n < unat (h_length h) \<and>
            sk_reads (socket c) = [ReadMsg (min (unat (h_length h) - n) kFixedIoBufferSize)]))"

definition cli_closed :: "ClientConnAsync \<times> 'u \<Rightarrow> bool" where
  "cli_closed s \<longleftrightarrow> conn_stat (fst s) = kClosed \<and> sk_reads (socket (fst s)) = []"

definition cli_residue :: "endian \<Rightarrow> ClientConnAsync \<times> 'u \<Rightarrow> bytes" where
  "cli_residue e s =
     (case sk_reads (socket (fst s)) of
        [ReadMsg _] \<Rightarrow> Header_wire e (io_header (ac_recv_bound (fst s))) @ async_data (fst s)
      | _ \<Rightarrow> async_data (fst s))"

definition cli_need :: "ClientConnAsync \<times> 'u \<Rightarrow> nat" where
  "cli_need s = (case sk_reads (socket (fst s)) of [] \<Rightarrow> 0 | op # _ \<Rightarrow> read_min op)"

definition async_ready :: "ClientConnAsync \<Rightarrow> bool" where
  "async_ready c \<longleftrightarrow> conn_stat c = kWorking \<and> ac_sane c \<and>
     length (io_block (ac_recv_bound c)) = kFixedIoBufferSize \<and> sk_reads (socket c) = [] \<and>
     length (async_data c) < 2 ^ 32"

definition cli_outcome ::
  "endian \<Rightarrow> RpcClientSetting \<Rightarrow> (bytes \<Rightarrow> 'u \<Rightarrow> 'u) \<Rightarrow> bytes list \<times> bytes \<times> bool \<Rightarrow> 'u \<Rightarrow> ClientConnAsync \<times> 'u \<Rightarrow> bool" where
  "cli_outcome e cs f fr u s \<longleftrightarrow>
     snd s = fold f (fst fr) u \<and>
     (if snd (snd fr) then cli_waiting cs s \<and> cli_residue e s = fst (snd fr) else cli_closed s)"

text \<open>A wrapper that looks at the payload only, as \<^verbatim>\<open>RpcClientImpl::async_recv_wrapper\<close> does.\<close>

definition payload_wrapper :: "(bytes \<Rightarrow> 'u \<Rightarrow> 'u) \<Rightarrow> (Message \<Rightarrow> 'u \<Rightarrow> 'u) option" where
  "payload_wrapper f = Some (\<lambda>msg. f (m_payload msg))"

lemma call_payload_wrapper [simp]: "call_wrapper (payload_wrapper f) msg u = f (m_payload msg) u"
  by (simp add: call_wrapper_def payload_wrapper_def)

lemma async_recv_length:
  "async_ready c \<Longrightarrow> unat (get_length (io_buffer (ac_recv_bound c))) = length (async_data c)"
  by (simp add: async_ready_def async_data_def get_length_small)

lemma strip_async_ready:
  "async_ready c \<Longrightarrow> async_ready (strip_header_async e c)"
  "async_ready c \<Longrightarrow> async_ready (strip_body_async c)"
  "io_header (ac_recv_bound (strip_header_async e c)) = Header_decode e (async_data c)"
  by (auto simp: async_ready_def strip_header_async_def strip_body_async_def async_data_def)

lemma do_read_async_outcome:
  fixes u :: 'u
  shows "async_ready c \<Longrightarrow> wh = payload_wrapper f \<Longrightarrow>
      cli_outcome e cs f (frames e (client_header_ok cs) (async_data c)) u (snd (do_read_async wh e cs c u))"
    and "async_ready c \<Longrightarrow> wh = payload_wrapper f \<Longrightarrow> client_header_ok cs (io_header (ac_recv_bound c)) \<Longrightarrow>
      cli_outcome e cs f (frames e (client_header_ok cs) (Header_wire e (io_header (ac_recv_bound c)) @ async_data c))
        u (do_read_msg_async wh e cs c u)"
proof (induction wh e cs c u and wh e cs c u rule: do_read_async_do_read_msg_async.induct)
  case (1 wh e cs c u)
  note rdy = 1(3) and len = async_recv_length [OF 1(3)]
  have guard: "get_conn_stat c = kWorking" using rdy by (simp add: async_ready_def get_conn_stat_def)
  consider "length (async_data c) < sizeof_Header"
    | "sizeof_Header \<le> length (async_data c)" "\<not> client_header_ok cs (Header_decode e (async_data c))"
    | "sizeof_Header \<le> length (async_data c)" "client_header_ok cs (Header_decode e (async_data c))"
    by linarith
  then show ?case
  proof cases
    case 1
    with guard len rdy show ?thesis
      by (simp add: do_read_async.simps frames_short cli_outcome_def)
        (simp add: cli_residue_def cli_waiting_def async_data_def async_ready_def Let_def)
  next
    case 2
    with guard len rdy show ?thesis
      by (simp add: do_read_async.simps frames_bad cli_outcome_def parse_header_async_eq)
        (simp add: cli_closed_def sock_shutdown_and_close_def strip_header_async_def async_ready_def)
  next
    case 3
    then have "parse_header_async e cs c = (0, strip_header_async e c)"
      using len by (simp add: parse_header_async_eq)
    with 1(1) [OF _ _ refl refl] 1(4) guard len rdy 3 show ?thesis
      by (simp add: do_read_async.simps strip_async_ready split_wire)
  qed
next
  case (2 wh e cs c u)
  let ?h = "io_header (ac_recv_bound c)"
  note rdy = 2(3) and len = async_recv_length [OF 2(3)]
  have guard: "get_conn_stat c = kWorking" using rdy by (simp add: async_ready_def get_conn_stat_def)
  show ?case
  proof (cases "length (async_data c) < unat (h_length ?h)")
    case True
    then have "get_length (io_buffer (ac_recv_bound c)) < h_length ?h" using len by (simp add: word_less_nat_alt)
    with True guard len rdy 2(5) show ?thesis
      by (simp add: do_read_msg_async.simps frames_partial cli_outcome_def min_block_unat)
        (simp add: cli_residue_def cli_waiting_def async_data_def async_ready_def Let_def)
  next
    case False
    then have ge: "h_length ?h \<le> get_length (io_buffer (ac_recv_bound c))" using len by (simp add: word_le_nat_alt)
    then have nlt: "\<not> get_length (io_buffer (ac_recv_bound c)) < h_length ?h" by simp
    let ?p = "take (unat (h_length ?h)) (async_data c)"
    have "do_read_msg_async wh e cs c u = snd (do_read_async wh e cs (strip_body_async c) (f ?p u))"
      using guard nlt 2(4) by (simp add: do_read_msg_async.simps parse_msg_body_async_eq [OF ge] Let_def)
    moreover have "cli_outcome e cs f (frames e (client_header_ok cs) (drop (unat (h_length ?h)) (async_data c)))
        (f ?p u) (snd (do_read_async wh e cs (strip_body_async c) (f ?p u)))"
      using 2(1) [OF _ _ refl refl refl] 2(4) guard nlt rdy
      by (simp add: parse_msg_body_async_eq [OF ge] strip_async_ready)
    ultimately show ?thesis
      using frames_whole [of e "Header_wire e ?h @ async_data c" "client_header_ok cs"] False 2(5)
      by (simp add: cli_outcome_def)
  qed
qed

lemma read_handler_async_ok:
  assumes "conn_stat c = kWorking"
  shows "read_handler_async wh e cs None n c u = snd (do_read_async wh e cs (take_block_async n c) u)"
  using assms
  by (subst do_read_async.simps)
    (simp add: read_handler_async_def get_conn_stat_def take_block_async_def case_prod_beta Let_def
      do_read_async.simps)

lemma read_msg_handler_async_ok:
  assumes "conn_stat c = kWorking"
  shows "read_msg_handler_async wh e cs None n c u = do_read_msg_async wh e cs (take_block_async n c) u"
proof -
  let ?c = "take_block_async n c"
  have guard: "get_conn_stat ?c = kWorking" using assms by (simp add: get_conn_stat_def take_block_async_def)
  show ?thesis
  proof (cases "get_length (io_buffer (ac_recv_bound ?c)) < h_length (io_header (ac_recv_bound ?c))")
    case True
    then have "parse_msg_body_async Message_default ?c = (1, Message_default, ?c)"
      by (simp add: parse_msg_body_async_def)
    then show ?thesis by (simp add: read_msg_handler_async_def)
  next
    case False
    then have "parse_msg_body_async Message_default ?c = (0, \<lparr>m_header = io_header (ac_recv_bound ?c),
        m_payload = take (unat (h_length (io_header (ac_recv_bound ?c)))) (async_data ?c)\<rparr>, strip_body_async ?c)"
      by (simp add: parse_msg_body_async_eq)
    with False guard show ?thesis
      by (subst do_read_msg_async.simps) (simp add: read_msg_handler_async_def case_prod_beta Let_def)
  qed
qed

definition with_chunk_async :: "bytes \<Rightarrow> ClientConnAsync \<Rightarrow> ClientConnAsync" where
  "with_chunk_async chunk c = take_block_async (length chunk)
     (c\<lparr>socket := (socket c)\<lparr>sk_reads := []\<rparr>,
        ac_recv_bound := (ac_recv_bound c)\<lparr>io_block := blit chunk (io_block (ac_recv_bound c))\<rparr>\<rparr>)"

lemma with_chunk_async_ready:
  assumes "cli_waiting cs (c, u)" "0 < length chunk" "length chunk \<le> kFixedIoBufferSize"
    "length (async_data c) + length chunk < 2 ^ 32"
  shows "async_ready (with_chunk_async chunk c)" and "async_data (with_chunk_async chunk c) = async_data c @ chunk"
    and "io_header (ac_recv_bound (with_chunk_async chunk c)) = io_header (ac_recv_bound c)"
  using assms
  by (auto simp: with_chunk_async_def cli_waiting_def async_ready_def take_block_async_def
    async_data_def append_internal_data take_blit' Let_def)

lemma cli_waiting_cases:
  assumes "cli_waiting cs (c, u)"
  obtains "sk_reads (socket c) = [ReadHead (sizeof_Header - length (async_data c))]"
      "length (async_data c) < sizeof_Header" "cli_residue e (c, u) = async_data c"
      "cli_need (c, u) = sizeof_Header - length (async_data c)"
  | "sk_reads (socket c) = [ReadMsg (cli_need (c, u))]" "0 < cli_need (c, u)"
      "client_header_ok cs (io_header (ac_recv_bound c))"
      "length (async_data c) < unat (h_length (io_header (ac_recv_bound c)))"
      "cli_residue e (c, u) = Header_wire e (io_header (ac_recv_bound c)) @ async_data c"
  using assms unfolding cli_waiting_def cli_residue_def cli_need_def Let_def
  by (auto simp: kFixedIoBufferSize_def)

lemma io_read_ok_async_outcome:
  fixes s :: "ClientConnAsync \<times> 'u"
  assumes "cli_waiting cs s" "cli_need s \<le> length chunk" "length chunk \<le> 2048"
    "length (cli_residue e s) + length chunk < 2 ^ 32"
  shows "cli_outcome e cs f (frames e (client_header_ok cs) (cli_residue e s @ chunk)) (snd s)
    (io_read_ok_async (payload_wrapper f) e cs chunk s)"
proof -
  obtain c u where s: "s = (c, u)" by (cases s)
  have wait: "cli_waiting cs (c, u)" using assms(1) s by simp
  then have live: "conn_stat c = kWorking" by (simp add: cli_waiting_def Let_def)
  have small: "length chunk \<le> kFixedIoBufferSize" using assms(3) by (simp add: kFixedIoBufferSize_def)
  from wait show ?thesis
  proof (cases rule: cli_waiting_cases [where e = e])
    case 1
    have "0 < length chunk" "length (async_data c) + length chunk < 2 ^ 32" using 1 assms(2,4) s by auto
    note rdy = with_chunk_async_ready [OF wait this(1) small this(2)]
    have "io_read_ok_async (payload_wrapper f) e cs chunk s =
        snd (do_read_async (payload_wrapper f) e cs (with_chunk_async chunk c) u)"
      using 1 live by (simp add: s io_read_ok_async_def with_chunk_async_def read_handler_async_ok)
    then show ?thesis using do_read_async_outcome(1) [OF rdy(1) refl, of e cs f u] rdy 1 s by simp
  next
    case 2
    have "0 < length chunk" "length (async_data c) + length chunk < 2 ^ 32" using 2 assms(2,4) s by auto
    note rdy = with_chunk_async_ready [OF wait this(1) small this(2)]
    have "io_read_ok_async (payload_wrapper f) e cs chunk s =
        do_read_msg_async (payload_wrapper f) e cs (with_chunk_async chunk c) u"
      using 2 live by (simp add: s io_read_ok_async_def with_chunk_async_def read_msg_handler_async_ok)
    then show ?thesis using do_read_async_outcome(2) [OF rdy(1) refl, of cs e f u] rdy 2 s by simp
  qed
qed

lemma cli_residue_idle:
  "cli_waiting cs s \<Longrightarrow> frames e (client_header_ok cs) (cli_residue e s) = ([], cli_residue e s, True)"
proof (cases s)
  case (Pair c u)
  assume "cli_waiting cs s"
  then have "cli_waiting cs (c, u)" using Pair by simp
  then show ?thesis
    by (cases rule: cli_waiting_cases [where e = e]) (simp_all add: Pair frames_short frames_partial)
qed

interpretation cli_read: stream_reader e "client_header_ok cs" "cli_waiting cs" cli_closed cli_need "cli_residue e"
  "io_read_ok_async (payload_wrapper f) e cs" snd f
  for e cs and f :: "bytes \<Rightarrow> 'u \<Rightarrow> 'u"
proof unfold_locales
  fix s :: "ClientConnAsync \<times> 'u" and c r :: bytes and ps
  assume "cli_waiting cs s" "cli_need s \<le> length c" "length c \<le> 2048" "length (cli_residue e s) + length c < 2 ^ 32"
  note out = io_read_ok_async_outcome [OF this, of f]
  show "cli_waiting cs (io_read_ok_async (payload_wrapper f) e cs c s) \<and>
      cli_residue e (io_read_ok_async (payload_wrapper f) e cs c s) = r \<and>
      snd (io_read_ok_async (payload_wrapper f) e cs c s) = fold f ps (snd s)"
    if "frames e (client_header_ok cs) (cli_residue e s @ c) = (ps, r, True)"
    using out that by (simp add: cli_outcome_def)
  show "cli_closed (io_read_ok_async (payload_wrapper f) e cs c s) \<and>
      snd (io_read_ok_async (payload_wrapper f) e cs c s) = fold f ps (snd s)"
    if "frames e (client_header_ok cs) (cli_residue e s @ c) = (ps, r, False)"
    using out that by (simp add: cli_outcome_def)
next
  fix s :: "ClientConnAsync \<times> 'u" and c
  assume "cli_closed s"
  then show "cli_closed (io_read_ok_async (payload_wrapper f) e cs c s) \<and>
      snd (io_read_ok_async (payload_wrapper f) e cs c s) = snd s"
    by (simp add: cli_closed_def io_read_ok_async_def case_prod_beta)
next
  fix s :: "ClientConnAsync \<times> 'u"
  assume "cli_waiting cs s"
  then show "frames e (client_header_ok cs) (cli_residue e s) = ([], cli_residue e s, True)"
    by (rule cli_residue_idle)
qed

text \<open>A new connection whose reading was started waits for a header.\<close>

lemma recv_net_message_async_waiting:
  assumes "sk_reads sock = []"
  shows "cli_waiting cs (snd (recv_net_message_async (payload_wrapper f) e cs (ClientConnAsync_new ok sock) u))"
    and "cli_residue e (snd (recv_net_message_async (payload_wrapper f) e cs (ClientConnAsync_new ok sock) u)) = []"
    and "snd (snd (recv_net_message_async (payload_wrapper f) e cs (ClientConnAsync_new ok sock) u)) = u"
proof -
  have rdy: "async_ready (ClientConnAsync_new ok sock)" "async_data (ClientConnAsync_new ok sock) = []"
    using assms by (simp_all add: async_ready_def async_data_def ClientConnAsync_new_def set_conn_stat_def
      set_tcp_nonblocking_def set_tcp_nodelay_def IOBound_new_def Buffer_new_def Let_def)
  show "cli_waiting cs (snd (recv_net_message_async (payload_wrapper f) e cs (ClientConnAsync_new ok sock) u))"
    and "cli_residue e (snd (recv_net_message_async (payload_wrapper f) e cs (ClientConnAsync_new ok sock) u)) = []"
    and "snd (snd (recv_net_message_async (payload_wrapper f) e cs (ClientConnAsync_new ok sock) u)) = u"
    using do_read_async_outcome(1) [OF rdy(1) refl, of e cs f u] rdy(2)
    by (simp_all add: recv_net_message_async_def cli_outcome_def frames_short sizeof_Header_def)
qed

text \<open>A single chunk with a whole header meets the contract of the first read.\<close>

lemma cli_reads_single:
  assumes "cli_waiting cs s" "cli_residue e s = []" "sizeof_Header \<le> length ch" "length ch \<le> 2048"
  shows "reads_ok cli_need (cli_residue e) feed [ch] s"
proof -
  obtain c u where s: "s = (c, u)" by fastforce
  have "cli_need (c, u) \<le> sizeof_Header"
    using assms(1,2) length_Header_wire [of e "io_header (ac_recv_bound c)"] unfolding s
    by (cases rule: cli_waiting_cases [where e = e]) (auto simp: sizeof_Header_def)
  then show ?thesis using assms(2,3,4) by (simp add: s)
qed

end
