(* ===== verification/RpcClientImpl.thy ===== *)
theory RpcClientImpl
  imports ClientTcpConnAsync RpcInstance
begin

text \<open>
  \<^verbatim>\<open>source/Client/RpcClientImpl.h\<close> and \<^verbatim>\<open>.cpp\<close>: the client behind \<^verbatim>\<open>RpcClient\<close>.  \<^verbatim>\<open>rpc_call_timer_\<close> is \<open>None\<close>
  for a null pointer and otherwise the list of its pending waits, each with the \<^verbatim>\<open>sync\<close> flag bound into
  the handler.  While a blocking call waits, the io thread may run that handler; the scripts of theory
  TcpConnSync say when, and \<open>note_timeout\<close> books it.  \<open>None\<close> as a result is a call that never returns,
  or for the timer's handler the dereference of a null connection pointer.
\<close>

section \<open>State\<close>

record RpcClientImpl =
  client_setting :: RpcClientSetting
  roo_io_service :: bool
  was_timeout :: bool
  rpc_call_timer :: "bool list option"
  conn_sync :: "TcpConnSync option"
  conn_async :: "ClientConnAsync option"
  impl_handler :: bool

definition RpcClientImpl_new :: "RpcClientSetting \<Rightarrow> RpcClientImpl" where
  "RpcClientImpl_new cs = \<lparr>client_setting = cs, roo_io_service = False, was_timeout = False,
     rpc_call_timer = None, conn_sync = None, conn_async = None, impl_handler = False\<rparr>"

text \<open>\<open>io_ok\<close>: whether the support library's io service could be made and started.\<close>

definition RpcClientImpl_init :: "bool \<Rightarrow> RpcClientImpl \<Rightarrow> bool \<times> RpcClientImpl" where
  "RpcClientImpl_init io_ok r =
     (let r1 = r\<lparr>impl_handler := has_handler (client_setting r)\<rparr>
      in if has_io_service (client_setting r1) then (True, r1)
         else if \<not> io_ok then (False, r1)
         else (True, r1\<lparr>roo_io_service := True,
                        client_setting := (client_setting r1)\<lparr>has_io_service := True\<rparr>\<rparr>))"

definition RpcClientImpl_delete :: "RpcClientImpl \<Rightarrow> RpcClientImpl" where
  "RpcClientImpl_delete r = r\<lparr>conn_sync := map_option shutdown_and_close_socket (conn_sync r),
     conn_async := map_option shutdown_and_close_socket (conn_async r)\<rparr>"

section \<open>The call timer\<close>

definition set_rpc_call_timeout :: "u32 \<Rightarrow> bool \<Rightarrow> RpcClientImpl \<Rightarrow> RpcClientImpl" where
  "set_rpc_call_timeout sec sync r =
     (if sec = 0 then r else r\<lparr>rpc_call_timer := Some [sync], was_timeout := False\<rparr>)"

definition rpc_call_timeout :: "error_code option \<Rightarrow> bool \<Rightarrow> RpcClientImpl \<Rightarrow> RpcClientImpl option" where
  "rpc_call_timeout ec sync r =
     (case ec of
        None \<Rightarrow>
          let r1 = r\<lparr>was_timeout := True\<rparr>
          in if sync then
               map_option (\<lambda>c. r1\<lparr>conn_sync := Some (shutdown_and_close_socket c)\<rparr>) (conn_sync r1)
             else
               map_option (\<lambda>c. r1\<lparr>conn_async := Some (shutdown_and_close_socket c)\<rparr>) (conn_async r1)
      | Some _ \<Rightarrow> Some r)"

text \<open>The environment's part: the timer expires between calls.\<close>

definition io_rpc_timer :: "RpcClientImpl \<Rightarrow> RpcClientImpl option" where
  "io_rpc_timer r =
     (case rpc_call_timer r of
        Some (sync # ws) \<Rightarrow> rpc_call_timeout None sync (r\<lparr>rpc_call_timer := Some ws\<rparr>)
      | _ \<Rightarrow> Some r)"

text \<open>The same handler during a blocking call, which has already closed the connection.\<close>

definition note_timeout :: "bool \<Rightarrow> RpcClientImpl \<Rightarrow> RpcClientImpl" where
  "note_timeout shut r =
     (if shut then r\<lparr>was_timeout := True, rpc_call_timer := map_option tl (rpc_call_timer r)\<rparr> else r)"

section \<open>Blocking calls\<close>

definition send_rpc_message ::
  "endian \<Rightarrow> RpcClientSetting \<Rightarrow> RpcRequestMessage \<Rightarrow> write_script \<Rightarrow> TcpConnSync \<Rightarrow>
    (bool \<times> bool \<times> write_script \<times> TcpConnSync) option" where
  "send_rpc_message e cs req_message ws c =
     send_net_message_sync e cs (Message_of (RpcRequestMessage_net_str e req_message)) ws c"

definition recv_rpc_message ::
  "endian \<Rightarrow> RpcClientSetting \<Rightarrow> Message \<Rightarrow> read_script \<Rightarrow> TcpConnSync \<Rightarrow>
    (bool \<times> Message \<times> bool \<times> read_script \<times> TcpConnSync) option" where
  "recv_rpc_message e cs net_message rs c = recv_net_message_sync e cs net_message rs c"

text \<open>The checks of a received response, the last part of the blocking call.\<close>

definition check_response :: "endian \<Rightarrow> u16 \<Rightarrow> u16 \<Rightarrow> bytes \<Rightarrow> bytes \<Rightarrow> RpcClientStatus \<times> bytes" where
  "check_response e sid op payload respload =
     (let (parsed, rsp_message) = RpcResponseMessageParse e payload RpcResponseMessage_default
      in if \<not> parsed then (RECV_FORMAT_ERROR, respload)
         else if rs_magic (rsm_header rsp_message) \<noteq> kRpcHeaderMagic \<or>
                 rs_service_id (rsm_header rsp_message) \<noteq> sid \<or>
                 rs_opcode (rsm_header rsp_message) \<noteq> op
         then (RECV_FORMAT_ERROR, respload)
         else if rs_status (rsm_header rsp_message) \<noteq> RpcResponseStatus.OK
         then (client_status (rs_status (rsm_header rsp_message)), respload)
         else (RpcClientStatus.OK, rsm_payload rsp_message))"

text \<open>
  \<open>connect_ec\<close> is the outcome of connecting, when the call has to.  The result is the status, the
  caller's \<^verbatim>\<open>respload\<close>, what is left of the scripts, and the client.
\<close>

definition call_RPC_sync ::
  "endian \<Rightarrow> error_code option \<Rightarrow> bool \<Rightarrow> u16 \<Rightarrow> u16 \<Rightarrow> bytes \<Rightarrow> bytes \<Rightarrow> u32 \<Rightarrow> write_script \<Rightarrow> read_script \<Rightarrow>
    RpcClientImpl \<Rightarrow> (RpcClientStatus \<times> bytes \<times> write_script \<times> read_script \<times> RpcClientImpl) option" where
  "call_RPC_sync e connect_ec ok sid op payload respload timeout_sec ws rs r =
     (if conn_sync r = None \<and> connect_ec \<noteq> None then Some (NETWORK_CONNECT_ERROR, respload, ws, rs, r)
      else
        let c = (case conn_sync r of None \<Rightarrow> TcpConnSync_new ok socket_connected | Some c \<Rightarrow> c);
            r1 = r\<lparr>conn_sync := Some c\<rparr>;
            req_message = RpcRequestMessage_of sid op payload;
            r2 = (if timeout_sec > 0 then set_rpc_call_timeout timeout_sec True r1 else r1)
        in case send_rpc_message e (client_setting r2) req_message ws c of
             None \<Rightarrow> None
           | Some (sent, shut, ws', c1) \<Rightarrow>
               let r3 = note_timeout shut (r2\<lparr>conn_sync := Some c1\<rparr>)
               in if \<not> sent then
                    Some (if was_timeout r3 then RPC_CALL_TIMEOUT else NETWORK_SEND_ERROR,
                          respload, ws', rs, r3\<lparr>conn_sync := None\<rparr>)
                  else
                    case recv_rpc_message e (client_setting r3) Message_default rs c1 of
                      None \<Rightarrow> None
                    | Some (got, net_message, shut', rs', c2) \<Rightarrow>
                        let r4 = note_timeout shut' (r3\<lparr>conn_sync := Some c2\<rparr>)
                        in if \<not> got then
                             Some (if was_timeout r4 then RPC_CALL_TIMEOUT else NETWORK_RECV_ERROR,
                                   respload, ws', rs', r4\<lparr>conn_sync := None\<rparr>)
                           else
                             let (status, respload') = check_response e sid op (m_payload net_message) respload
                             in Some (status, respload', ws', rs', r4))"

section \<open>Asynchronous calls\<close>

type_synonym 'u rpc_handler = "RpcClientStatus \<Rightarrow> u16 \<Rightarrow> u16 \<Rightarrow> bytes \<Rightarrow> 'u \<Rightarrow> 'u"

definition send_rpc_message_async ::
  "endian \<Rightarrow> RpcClientSetting \<Rightarrow> RpcRequestMessage \<Rightarrow> ClientConnAsync \<Rightarrow> bool \<times> ClientConnAsync" where
  "send_rpc_message_async e cs req_message c =
     send_net_message_async e cs (Message_of (RpcRequestMessage_net_str e req_message)) c"

text \<open>\<open>has\<close> says whether \<^verbatim>\<open>handler_\<close> is set; \<open>cb\<close> is that callback on the state \<open>'u\<close> of the application.\<close>

definition async_recv_wrapper :: "endian \<Rightarrow> bool \<Rightarrow> 'u rpc_handler \<Rightarrow> bytes \<Rightarrow> 'u \<Rightarrow> 'u" where
  "async_recv_wrapper e has cb payload u =
     (let (parsed, rsp_message) = RpcResponseMessageParse e payload RpcResponseMessage_default;
          (status, sid, op, respload) =
            (if \<not> parsed then (RECV_FORMAT_ERROR, - 1, - 1, [])
             else if rs_magic (rsm_header rsp_message) \<noteq> kRpcHeaderMagic
             then (RECV_FORMAT_ERROR, - 1, - 1, [])
             else if rs_status (rsm_header rsp_message) \<noteq> RpcResponseStatus.OK
             then (client_status (rs_status (rsm_header rsp_message)), - 1, - 1, [])
             else (RpcClientStatus.OK, rs_service_id (rsm_header rsp_message),
                   rs_opcode (rsm_header rsp_message), rsm_payload rsp_message))
      in if has then cb status sid op respload u else u)"

definition call_RPC_async ::
  "endian \<Rightarrow> 'u rpc_handler \<Rightarrow> error_code option \<Rightarrow> bool \<Rightarrow> u16 \<Rightarrow> u16 \<Rightarrow> bytes \<Rightarrow> u32 \<Rightarrow> RpcClientImpl \<Rightarrow> 'u \<Rightarrow>
    RpcClientStatus \<times> RpcClientImpl \<times> 'u" where
  "call_RPC_async e cb connect_ec ok sid op payload timeout_sec r u =
     (if conn_async r = None \<and> connect_ec \<noteq> None then (NETWORK_CONNECT_ERROR, r, u)
      else
        let wh = payload_wrapper (async_recv_wrapper e (impl_handler r) cb);
            (c, u1) = (case conn_async r of
                         Some c \<Rightarrow> (c, u)
                       | None \<Rightarrow> snd (recv_net_message_async wh e (client_setting r)
                                   (ClientConnAsync_new ok socket_connected) u));
            r1 = r\<lparr>conn_async := Some c\<rparr>;
            req_message = RpcRequestMessage_of sid op payload;
            r2 = (if timeout_sec > 0 then set_rpc_call_timeout timeout_sec False r1 else r1);
            (sent, c1) = send_rpc_message_async e (client_setting r2) req_message c;
            r3 = r2\<lparr>conn_async := Some c1\<rparr>
        in if \<not> sent then
             (if was_timeout r3 then RPC_CALL_TIMEOUT else NETWORK_SEND_ERROR, r3\<lparr>conn_async := None\<rparr>, u1)
           else (RpcClientStatus.OK, r3, u1))"

section \<open>What the client makes of a response\<close>

lemma check_response_reply:
  "check_response e sid op (RpcResponseMessage_net_str e' (RpcResponseMessage_of sid op body)) respload =
    (RpcClientStatus.OK, body)"
  by (simp add: check_response_def RpcResponseMessageParse_wire)

text \<open>A status message carries ids 0, which the blocking call compares with its own.\<close>

lemma check_response_status:
  assumes "named_status st" "st \<noteq> RpcResponseStatus.OK"
  shows "check_response e sid op (RpcResponseMessage_net_str e' (RpcResponseMessage_status st)) respload =
    (if sid = 0 \<and> op = 0 then client_status st else RECV_FORMAT_ERROR, respload)"
  using assms by (simp add: check_response_def RpcResponseMessageParse_wire)

lemma check_response_other_ids:
  assumes "sid \<noteq> sid' \<or> op \<noteq> op'"
  shows "check_response e sid op (RpcResponseMessage_net_str e' (RpcResponseMessage_of sid' op' body)) respload =
    (RECV_FORMAT_ERROR, respload)"
  using assms by (auto simp: check_response_def RpcResponseMessageParse_wire)

lemma async_recv_wrapper_reply:
  "async_recv_wrapper e True cb (RpcResponseMessage_net_str e' (RpcResponseMessage_of sid op body)) u =
    cb RpcClientStatus.OK sid op body u"
  by (simp add: async_recv_wrapper_def RpcResponseMessageParse_wire)

lemma async_recv_wrapper_status:
  assumes "named_status st" "st \<noteq> RpcResponseStatus.OK"
  shows "async_recv_wrapper e True cb (RpcResponseMessage_net_str e' (RpcResponseMessage_status st)) u =
    cb (client_status st) (- 1) (- 1) [] u"
  using assms by (simp add: async_recv_wrapper_def RpcResponseMessageParse_wire)

section \<open>A blocking call\<close>

text \<open>
  The client is ready for a call when it has no connection, or one that works, has nothing
  unsent, and whose buffer still holds \<open>before\<close>.
\<close>

definition call_ready :: "RpcClientImpl \<Rightarrow> bytes \<Rightarrow> bool" where
  "call_ready r before \<longleftrightarrow>
     (case conn_sync r of
        None \<Rightarrow> before = []
      | Some c \<Rightarrow> sync_ready c \<and> sync_out c = [] \<and> sync_data c = before)"

definition request_frame :: "endian \<Rightarrow> u16 \<Rightarrow> u16 \<Rightarrow> bytes \<Rightarrow> Message" where
  "request_frame e sid op payload = Message_of (RpcRequestMessage_net_str e (RpcRequestMessage_of sid op payload))"

definition wire_sent :: "RpcClientImpl \<Rightarrow> bytes" where
  "wire_sent r = (case conn_sync r of None \<Rightarrow> [] | Some c \<Rightarrow> sk_sent (socket c))"

lemma length_request_frame:
  "length (Message_net_str e (request_frame e sid op payload)) =
    sizeof_Header + sizeof_RpcRequestHeader + length payload"
  by (simp add: request_frame_def)

lemma opened_conn:
  assumes "call_ready r before"
    and c_def: "c = (case conn_sync r of None \<Rightarrow> TcpConnSync_new ok socket_connected | Some c \<Rightarrow> c)"
  shows "sync_ready c" and "sync_out c = []" and "sync_data c = before" and "sk_sent (socket c) = wire_sent r"
  using assms by (auto simp: call_ready_def wire_sent_def TcpConnSync_new_ready socket_connected_def
    split: option.splits)

text \<open>
  A call whose writes succeed and whose stream of answers starts with a frame: it returns, has
  transmitted exactly its request, and gives the verdict on that frame's payload.
\<close>

lemma call_RPC_sync_answered:
  fixes before :: bytes
  assumes rdy: "call_ready r before" and conn: "conn_sync r = None \<Longrightarrow> connect_ec = None"
    and acc: "client_accepts (client_setting r) (request_frame e sid op payload)"
    and small: "sizeof_Header + sizeof_RpcRequestHeader + length payload < 2 ^ 32"
    and blocks: "sizeof_Header + sizeof_RpcRequestHeader + length payload \<le> n * kFixedIoBufferSize"
    and chunks: "\<forall>ch \<in> set chunks. length ch \<le> kFixedIoBufferSize"
      "length before + length (concat chunks) < 2 ^ 32"
    and fr: "frames e (client_header_ok (client_setting r)) (before @ concat chunks) = (p # ps, rest, g)"
  shows "\<exists>k left r'. call_RPC_sync e connect_ec ok sid op payload respload timeout_sec
        (replicate n (False, None)) (good_reads chunks) r =
      Some (fst (check_response e sid op p respload), snd (check_response e sid op p respload),
        replicate k (False, None), good_reads left, r') \<and>
      wire_sent r' = wire_sent r @ Message_net_str e (request_frame e sid op payload) \<and>
      (\<exists>after. call_ready r' after \<and>
        after @ concat left = drop (sizeof_Header + length p) (before @ concat chunks)) \<and>
      (\<forall>ch \<in> set left. length ch \<le> kFixedIoBufferSize) \<and>
      client_setting r' = client_setting r \<and> conn_sync r' \<noteq> None \<and>
      rpc_call_timer r' = (if timeout_sec > 0 then Some [True] else rpc_call_timer r)"
proof -
  define c where "c = (case conn_sync r of None \<Rightarrow> TcpConnSync_new ok socket_connected | Some c \<Rightarrow> c)"
  note c = opened_conn [OF rdy c_def]
  obtain k c1 where c1: "send_net_message_sync e (client_setting r) (request_frame e sid op payload)
        (replicate n (False, None)) c = Some (True, False, replicate k (False, None), c1)"
      "sync_ready c1" "sync_out c1 = []" "sc_recv_bound c1 = sc_recv_bound c"
      "sk_sent (socket c1) = sk_sent (socket c) @ Message_net_str e (request_frame e sid op payload)"
    using send_net_message_sync_ok [OF c(1,2) acc, of n e] small blocks
    by (auto simp: request_frame_def add.assoc)
  have d1: "sync_data c1 = before" using c1(4) c(3) by (simp add: sync_data_def)
  obtain left c2 h where c2: "do_read_sync e (client_setting r) Message_default (good_reads chunks) c1 =
        Some (True, \<lparr>m_header = h, m_payload = p\<rparr>, False, good_reads left, c2)"
      "read_past (sizeof_Header + length p) c1 chunks c2 left"
    using do_read_sync_frame [OF c1(2) chunks(1), of e "client_setting r" p ps rest g Message_default]
      chunks(2) fr d1 by auto
  define r2 where "r2 = (if timeout_sec > 0 then set_rpc_call_timeout timeout_sec True (r\<lparr>conn_sync := Some c\<rparr>)
    else r\<lparr>conn_sync := Some c\<rparr>)"
  have r2: "client_setting r2 = client_setting r"
    "rpc_call_timer r2 = (if timeout_sec > 0 then Some [True] else rpc_call_timer r)"
    by (auto simp: r2_def set_rpc_call_timeout_def word_gt_0)
  have call: "call_RPC_sync e connect_ec ok sid op payload respload timeout_sec (replicate n (False, None)) (good_reads chunks) r =
      Some (fst (check_response e sid op p respload), snd (check_response e sid op p respload),
        replicate k (False, None), good_reads left, r2\<lparr>conn_sync := Some c2\<rparr>)"
    using conn c1(1) c2(1) r2(1)
    by (auto simp: call_RPC_sync_def Let_def send_rpc_message_def recv_rpc_message_def recv_net_message_sync_def
      note_timeout_def case_prod_beta request_frame_def simp flip: c_def r2_def)
  have "wire_sent (r2\<lparr>conn_sync := Some c2\<rparr>) = wire_sent r @ Message_net_str e (request_frame e sid op payload)"
    using c2(2) c1(5) c(4) by (simp add: wire_sent_def read_past_def)
  moreover have "call_ready (r2\<lparr>conn_sync := Some c2\<rparr>) (sync_data c2)"
    using c2(2) c1(3) by (simp add: call_ready_def read_past_def sync_out_def)
  moreover have "sync_data c2 @ concat left = drop (sizeof_Header + length p) (before @ concat chunks)"
    using c2(2) d1 by (simp add: read_past_def)
  moreover have "\<forall>ch \<in> set left. length ch \<le> kFixedIoBufferSize" using c2(2) by (simp add: read_past_def)
  ultimately show ?thesis using call r2 by auto
qed

text \<open>
  A sequence of calls over one connection, each with enough successful writes; the reads of one
  call go on where those of the one before it stopped.
\<close>

fun call_all :: "endian \<Rightarrow> nat \<Rightarrow> (u16 \<times> u16 \<times> bytes) list \<Rightarrow> read_script \<Rightarrow> RpcClientImpl \<Rightarrow>
    ((RpcClientStatus \<times> bytes) list \<times> RpcClientImpl) option" where
  "call_all e n [] rs r = Some ([], r)"
| "call_all e n ((sid, op, payload) # calls) rs r =
     (case call_RPC_sync e None True sid op payload [] 0 (replicate n (False, None)) rs r of
        None \<Rightarrow> None
      | Some (st, resp, _, rs', r') \<Rightarrow>
          map_option (\<lambda>(results, r''). ((st, resp) # results, r'')) (call_all e n calls rs' r'))"

definition request_fits :: "endian \<Rightarrow> RpcClientSetting \<Rightarrow> nat \<Rightarrow> u16 \<times> u16 \<times> bytes \<Rightarrow> bool" where
  "request_fits e cs n call \<longleftrightarrow>
     (case call of (sid, op, payload) \<Rightarrow>
        client_accepts cs (request_frame e sid op payload) \<and>
        sizeof_Header + sizeof_RpcRequestHeader + length payload < 2 ^ 32 \<and>
        sizeof_Header + sizeof_RpcRequestHeader + length payload \<le> n * kFixedIoBufferSize)"

definition call_bytes :: "endian \<Rightarrow> u16 \<times> u16 \<times> bytes \<Rightarrow> bytes" where
  "call_bytes e call = (case call of (sid, op, payload) \<Rightarrow> Message_net_str e (request_frame e sid op payload))"

definition call_verdict :: "endian \<Rightarrow> u16 \<times> u16 \<times> bytes \<Rightarrow> bytes \<Rightarrow> RpcClientStatus \<times> bytes" where
  "call_verdict e call p = (case call of (sid, op, payload) \<Rightarrow> check_response e sid op p [])"

lemma call_all_answers:
  assumes "call_ready r before" "list_all (request_fits e (client_setting r) n) calls"
    and "\<forall>ch \<in> set chunks. length ch \<le> kFixedIoBufferSize" "length before + length (concat chunks) < 2 ^ 32"
    and "frames e (client_header_ok (client_setting r)) (before @ concat chunks) = (ps, rest, g)"
    and "length calls = length ps"
  shows "\<exists>r'. call_all e n calls (good_reads chunks) r = Some (map2 (call_verdict e) calls ps, r') \<and>
    wire_sent r' = wire_sent r @ concat (map (call_bytes e) calls)"
  using assms
proof (induction calls arbitrary: r before chunks ps)
  case Nil
  then show ?case by simp
next
  case (Cons call calls)
  obtain sid op payload where call: "call = (sid, op, payload)" by (cases call)
  obtain p ps' where ps: "ps = p # ps'" using Cons.prems(6) by (cases ps) auto
  have fits: "client_accepts (client_setting r) (request_frame e sid op payload)"
    "sizeof_Header + sizeof_RpcRequestHeader + length payload < 2 ^ 32"
    "sizeof_Header + sizeof_RpcRequestHeader + length payload \<le> n * kFixedIoBufferSize"
    using Cons.prems(2) by (simp_all add: call request_fits_def)
  obtain k left r1 after where one:
      "call_RPC_sync e None True sid op payload [] 0 (replicate n (False, None)) (good_reads chunks) r =
        Some (fst (check_response e sid op p []), snd (check_response e sid op p []), replicate k (False, None),
          good_reads left, r1)"
      "wire_sent r1 = wire_sent r @ Message_net_str e (request_frame e sid op payload)"
      "call_ready r1 after" "after @ concat left = drop (sizeof_Header + length p) (before @ concat chunks)"
      "\<forall>ch \<in> set left. length ch \<le> kFixedIoBufferSize" "client_setting r1 = client_setting r"
    using call_RPC_sync_answered [OF Cons.prems(1) _ fits Cons.prems(3,4) Cons.prems(5) [unfolded ps],
        where connect_ec = None and ok = True and respload = "[]" and timeout_sec = 0] by auto
  have fr: "frames e (client_header_ok (client_setting r1)) (after @ concat left) = (ps', rest, g)"
    using frames_ConsD(4,5) [OF Cons.prems(5) [unfolded ps]] one(4,6) by simp
  have "length after + length (concat left) \<le> length (before @ concat chunks)"
    using arg_cong [OF one(4), of length] by simp
  then have small: "length after + length (concat left) < 2 ^ 32" using Cons.prems(4) by simp
  have "list_all (request_fits e (client_setting r1) n) calls" using Cons.prems(2) one(6) by simp
  from Cons.IH [OF one(3) this one(5) small fr] Cons.prems(6) ps
  obtain r' where "call_all e n calls (good_reads left) r1 = Some (map2 (call_verdict e) calls ps', r')"
      "wire_sent r' = wire_sent r1 @ concat (map (call_bytes e) calls)" by auto
  moreover have "call_verdict e call p = check_response e sid op p []"
    "call_bytes e call = Message_net_str e (request_frame e sid op payload)"
    by (simp_all add: call call_verdict_def call_bytes_def)
  ultimately show ?case using one(1,2) by (simp add: call ps)
qed

section \<open>Calls that fail, and the timer\<close>

lemma call_RPC_sync_unconnected:
  "conn_sync r = None \<Longrightarrow>
    call_RPC_sync e (Some ec) ok sid op payload respload timeout_sec ws rs r =
      Some (NETWORK_CONNECT_ERROR, respload, ws, rs, r)"
  by (simp add: call_RPC_sync_def)

text \<open>A request over the size limit is not sent and the connection is given up.\<close>

lemma call_RPC_sync_too_big:
  assumes "conn_sync r = None \<Longrightarrow> connect_ec = None"
    and "\<not> client_accepts (client_setting r) (request_frame e sid op payload)"
  shows "\<exists>r'. call_RPC_sync e connect_ec ok sid op payload respload timeout_sec ws rs r =
      Some (if timeout_sec = 0 \<and> was_timeout r then RPC_CALL_TIMEOUT else NETWORK_SEND_ERROR, respload, ws, rs, r') \<and>
    conn_sync r' = None \<and> rpc_call_timer r' = (if timeout_sec > 0 then Some [True] else rpc_call_timer r)"
proof -
  define r2 where "r2 c = (if timeout_sec > 0 then set_rpc_call_timeout timeout_sec True (r\<lparr>conn_sync := Some c\<rparr>)
    else r\<lparr>conn_sync := Some c\<rparr>)" for c
  have r2: "client_setting (r2 c) = client_setting r" "was_timeout (r2 c) = (timeout_sec = 0 \<and> was_timeout r)"
    "rpc_call_timer (r2 c) = (if timeout_sec > 0 then Some [True] else rpc_call_timer r)" for c
    by (auto simp: r2_def set_rpc_call_timeout_def word_gt_0)
  let ?c = "case conn_sync r of None \<Rightarrow> TcpConnSync_new ok socket_connected | Some c \<Rightarrow> c"
  have "call_RPC_sync e connect_ec ok sid op payload respload timeout_sec ws rs r =
      Some (if timeout_sec = 0 \<and> was_timeout r then RPC_CALL_TIMEOUT else NETWORK_SEND_ERROR, respload, ws, rs,
        (r2 ?c)\<lparr>conn_sync := None\<rparr>)"
    using assms r2 [of ?c]
    by (auto simp: call_RPC_sync_def Let_def send_rpc_message_def send_net_message_sync_def client_accepts_def
      note_timeout_def request_frame_def simp flip: r2_def)
  with r2 show ?thesis by auto
qed

text \<open>
  On a connection that is closed the call gives up at once; without a time limit of its own it
  reports what an earlier timer left in \<^verbatim>\<open>was_timeout_\<close>.
\<close>

lemma call_RPC_sync_closed:
  assumes "conn_sync r = Some c" "conn_stat c \<noteq> kWorking"
  shows "\<exists>r'. call_RPC_sync e connect_ec ok sid op payload respload timeout_sec ws rs r =
      Some (if timeout_sec = 0 \<and> was_timeout r then RPC_CALL_TIMEOUT else NETWORK_SEND_ERROR, respload, ws, rs, r') \<and>
    conn_sync r' = None"
proof -
  define r2 where "r2 = (if timeout_sec > 0 then set_rpc_call_timeout timeout_sec True (r\<lparr>conn_sync := Some c\<rparr>)
    else r\<lparr>conn_sync := Some c\<rparr>)"
  have r2: "was_timeout r2 = (timeout_sec = 0 \<and> was_timeout r)"
    by (auto simp: r2_def set_rpc_call_timeout_def word_gt_0)
  have "\<exists>c1. send_rpc_message e (client_setting r2) (RpcRequestMessage_of sid op payload) ws c =
      Some (False, False, ws, c1)"
    using assms(2) by (auto simp: send_rpc_message_def send_net_message_sync_def do_write_sync_def get_conn_stat_def)
  then obtain c1 where "send_rpc_message e (client_setting r2) (RpcRequestMessage_of sid op payload) ws c =
      Some (False, False, ws, c1)" by blast
  then have "call_RPC_sync e connect_ec ok sid op payload respload timeout_sec ws rs r =
      Some (if timeout_sec = 0 \<and> was_timeout r then RPC_CALL_TIMEOUT else NETWORK_SEND_ERROR, respload, ws, rs,
        r2\<lparr>conn_sync := None\<rparr>)"
    using assms(1) r2 by (simp add: call_RPC_sync_def Let_def note_timeout_def flip: r2_def)
  then show ?thesis by simp
qed

lemma io_rpc_timer_closes:
  assumes "rpc_call_timer r = Some [True]" "conn_sync r = Some c"
  shows "io_rpc_timer r = Some (r\<lparr>rpc_call_timer := Some [], was_timeout := True,
    conn_sync := Some (shutdown_and_close_socket c)\<rparr>)"
  using assms by (simp add: io_rpc_timer_def rpc_call_timeout_def Let_def)

lemma io_rpc_timer_null:
  assumes "rpc_call_timer r = Some [True]" "conn_sync r = None"
  shows "io_rpc_timer r = None"
  using assms by (simp add: io_rpc_timer_def rpc_call_timeout_def Let_def)

section \<open>An asynchronous call\<close>

lemma send_net_message_async_accepted:
  assumes "async_send_inv cs c" "conn_stat c = kWorking" "client_accepts cs msg"
  shows "fst (send_net_message_async e cs msg c)"
proof -
  let ?c = "c\<lparr>ac_send_bound := (ac_send_bound c)\<lparr>
    io_buffer := snd (Buffer_append e msg (io_buffer (ac_send_bound c)))\<rparr>\<rparr>"
  have srv: "as_server ?c = push_message e msg (as_server c)" by (simp add: push_message_def as_server_def)
  have inv: "send_inv (as_conf cs) (push_message e msg (as_server c))"
    using assms(1) by (simp add: async_send_inv_def push_message_stream)
  have "fst (do_write (as_conf cs) (push_message e msg (as_server c)))"
    using do_write_returns [OF inv] assms(2) by simp
  then have "fst (do_write_async ?c)" by (simp add: do_write_simulates(1) [of _ cs] srv)
  then show ?thesis using assms(3) by (auto simp: send_net_message_async_def client_accepts_def)
qed

lemma call_RPC_async_queued:
  assumes "conn_async r = Some c" "async_send_inv (client_setting r) c" "conn_stat c = kWorking"
    and "client_accepts (client_setting r) (request_frame e sid op payload)"
  shows "\<exists>r' c'. call_RPC_async e cb connect_ec ok sid op payload timeout_sec r u = (RpcClientStatus.OK, r', u) \<and>
    conn_async r' = Some c' \<and> async_send_inv (client_setting r) c' \<and>
    sent_bytes (as_server c') @ send_backlog (as_server c') =
      sent_bytes (as_server c) @ send_backlog (as_server c) @ Message_net_str e (request_frame e sid op payload)"
proof -
  let ?msg = "request_frame e sid op payload"
  define r2 where "r2 = (if timeout_sec > 0 then set_rpc_call_timeout timeout_sec False (r\<lparr>conn_async := Some c\<rparr>)
    else r\<lparr>conn_async := Some c\<rparr>)"
  have r2: "client_setting r2 = client_setting r" by (simp add: r2_def set_rpc_call_timeout_def)
  define c' where "c' = snd (send_net_message_async e (client_setting r) ?msg c)"
  have "fst (send_net_message_async e (client_setting r) ?msg c)"
    by (rule send_net_message_async_accepted [OF assms(2,3,4)])
  then have "call_RPC_async e cb connect_ec ok sid op payload timeout_sec r u =
      (RpcClientStatus.OK, r2\<lparr>conn_async := Some c'\<rparr>, u)"
    using assms(1) unfolding c'_def r2_def
    by (cases "timeout_sec > 0") (simp_all add: call_RPC_async_def Let_def send_rpc_message_async_def case_prod_beta
      request_frame_def set_rpc_call_timeout_def)
  moreover have "async_send_inv (client_setting r) c'"
    using cli_send.inv_send [OF assms(2)] by (simp add: c'_def)
  moreover have "sent_bytes (as_server c') @ send_backlog (as_server c') =
      sent_bytes (as_server c) @ send_backlog (as_server c) @ Message_net_str e ?msg"
    using cli_send.stream_send [OF assms(2), of e ?msg] assms(4) by (simp add: c'_def)
  ultimately show ?thesis by auto
qed

end
