(* ===== verification/EndToEnd.thy ===== *)
theory EndToEnd
  imports TcpConnRead RpcClientImpl
begin

text \<open>
  A call across the whole path: the client's request goes over the wire to the server's connection,
  through the dispatcher into a service's queue, a worker runs the service, its answer is queued on
  the connection and written, and the client reads and checks it.  Client and server may have
  different byte orders.
\<close>

section \<open>A worker serves one request\<close>

text \<open>
  One running turn of a worker of the service \<open>sid\<close> (\<^verbatim>\<open>Executor::executor_service_run\<close>), for requests of
  the connection \<open>c\<close>.
\<close>

definition serve_one ::
  "(bytes \<Rightarrow> XtraReadOps_Request option) \<Rightarrow> (XtraReadOps_Response \<Rightarrow> bytes) \<Rightarrow> 'q EQueue \<Rightarrow> endian \<Rightarrow> NetConf \<Rightarrow>
    u16 \<Rightarrow> TcpConn \<times> 'q Dispatcher \<Rightarrow> TcpConn \<times> 'q Dispatcher" where
  "serve_one unmarshal marshal Q e cf sid s =
     (let (c, d) = s
      in case map_find (services d) sid of
           None \<Rightarrow> (c, d)
         | Some ex \<Rightarrow>
             let (t, ex') = executor_service_turn Q kThreadRunning ex;
                 d' = d\<lparr>services := map_put sid ex' (services d)\<rparr>
             in case t of
                  Handle r \<Rightarrow> (the (snd (service_handle_RPC unmarshal marshal e cf r (Some c))), d')
                | _ \<Rightarrow> (c, d'))"

lemma serve_one_pops:
  assumes "fifo_queue Q contents" "queue_of contents d sid = r # rs"
  shows "fst (serve_one unmarshal marshal Q e cf sid (c, d)) =
      snd (async_send_message e cf (service_answer unmarshal marshal e r) c)"
    and "queue_of contents (snd (serve_one unmarshal marshal Q e cf sid (c, d))) sid = rs"
proof -
  obtain ex where ex: "map_find (services d) sid = Some ex" "contents (rpc_queue ex) = r # rs"
    using assms(2) by (auto simp: queue_of_def split: option.splits)
  have "fst (q_POP Q (rpc_queue ex)) = Some r" "contents (snd (q_POP Q (rpc_queue ex))) = rs"
    using fifo_queueD(4,5) [OF assms(1) ex(2)] by simp_all
  then show "fst (serve_one unmarshal marshal Q e cf sid (c, d)) =
      snd (async_send_message e cf (service_answer unmarshal marshal e r) c)"
    and "queue_of contents (snd (serve_one unmarshal marshal Q e cf sid (c, d))) sid = rs"
    using ex by (simp_all add: serve_one_def executor_service_turn_def case_prod_beta Let_def
      service_handle_RPC_answer queue_of_def smap.find_put)
qed

section \<open>The request's way\<close>

definition request_payload :: "endian \<Rightarrow> u16 \<Rightarrow> u16 \<Rightarrow> bytes \<Rightarrow> bytes" where
  "request_payload e sid op payload = RpcRequestMessage_net_str e (RpcRequestMessage_of sid op payload)"

lemma request_payload_decode:
  "RpcRequestHeader_decode e (request_payload e' sid op payload) = rqm_header (RpcRequestMessage_of sid op payload)"
  "drop sizeof_RpcRequestHeader (request_payload e' sid op payload) = payload"
  by (simp_all add: request_payload_def RpcRequestMessage_net_str_wire RpcRequestHeader_decode_wire)

lemma request_payload_ok: "request_ok e (request_payload e' sid op payload) \<longleftrightarrow> payload \<noteq> []"
  unfolding request_ok_def request_payload_decode by (simp add: request_payload_def)

lemma request_payload_route:
  "payload \<noteq> [] \<Longrightarrow> sid \<in> ids \<Longrightarrow> route_of e (request_payload e' sid op payload) ids = Enqueue sid"
  by (simp add: route_of_def request_payload_ok request_payload_decode Let_def)

text \<open>After reading a request: it is queued, the connection waits on and has nothing to send.\<close>

lemma request_received:
  fixes Q :: "'q EQueue"
  assumes Q: "fifo_queue Q contents" and d: "sid \<in> service_ids d" "queue_of contents d sid = []"
    and sock: "sk_reads sock = []" "sk_writes sock = []" "sk_sent sock = []"
    and p: "payload \<noteq> []" "length (request_payload ec sid op payload) < 2 ^ 32"
      "header_ok cf (m_header (Message_of (request_payload ec sid op payload)))"
    and chunks: "concat chunks = Message_net_str ec (Message_of (request_payload ec sid op payload))"
    and reads: "served_reads Q es cf i ok sock d chunks"
    and s1: "s1 = served Q es cf i ok sock d chunks"
  shows "queue_of contents (snd s1) sid = [queued_instance es i (request_payload ec sid op payload)]"
    and "send_live cf (fst s1)" and "sent_bytes (fst s1) = []" and "send_backlog (fst s1) = []"
proof -
  let ?p = "request_payload ec sid op payload"
  have fr: "frames es (header_ok cf) (concat chunks) = ([?p], [], True)"
    using frames_encode_all [of "[?p]" "header_ok cf" es ec] p(2,3) chunks by simp
  note fed = served_frames [OF sock(1,2) reads fr]
  have w1: "snd s1 = fst (fold (srv_deliver Q es cf i) [?p] (d, []))"
    "sent_bytes (fst s1) @ send_backlog (fst s1) = snd (fold (srv_deliver Q es cf i) [?p] (d, []))"
    using srv_world_proj [OF fed(1)] sock(3) by (simp_all add: s1)
  have route: "route_of es ?p (service_ids d) = Enqueue sid" using p(1) d(1) by (rule request_payload_route)
  show "queue_of contents (snd s1) sid = [queued_instance es i ?p]"
    unfolding w1(1) using srv_deliver_all(1) [of "[?p]" Q contents es cf i "(d, [])" sid] Q p(2) route d(2) by simp
  have out: "sent_bytes (fst s1) @ send_backlog (fst s1) = []"
    unfolding w1(2) using srv_deliver_all(2) [of "[?p]" Q contents es cf i "(d, [])"] Q p(2) route
    by (simp add: refusal_bytes_def)
  then show "sent_bytes (fst s1) = []" "send_backlog (fst s1) = []" by simp_all
  moreover have "srv_waiting cf s1" using fed(2) by (simp add: s1)
  ultimately show "send_live cf (fst s1)"
    by (simp add: send_live_def srv_waiting_def send_backlog_def Let_def)
qed

section \<open>The answer's way\<close>

lemma answer_sent:
  assumes "send_live cf c" "send_backlog c = []" "send_accepts cf msg"
    and "sizeof_Header + length (m_payload msg) < 2 ^ 32"
    and "sizeof_Header + length (m_payload msg) \<le> n"
  shows "sent_bytes ((io_write_ok cf ^^ n) (snd (async_send_message e cf msg c))) =
    sent_bytes c @ Message_net_str e msg"
proof -
  let ?c = "snd (async_send_message e cf msg c)"
  have inv: "send_inv cf c" using assms(1) by (simp add: send_live_def)
  have live: "send_live cf ?c"
    using assms do_write_live [of cf "push_message e msg c"] inv
    by (simp add: async_send_message_eq push_message_stream)
      (simp add: send_live_def push_message_def Buffer_append_data send_backlog_def)
  have bl: "send_backlog ?c = Message_net_str e msg"
    using async_send_message_stream(2) [OF inv, of e msg] assms(2,3) by simp
  have "sent_bytes ?c = sent_bytes c" by (simp add: sent_bytes_def async_send_message_frame)
  then show ?thesis
    using srv_send.drained(2) [OF live, of n] bl assms(5) by simp
qed

lemma reply_frames:
  assumes "length (RpcResponseMessage_net_str e msg) < 2 ^ 32"
    and "ok (m_header (Message_of (RpcResponseMessage_net_str e msg)))"
  shows "frames e' ok (Message_net_str e (Message_of (RpcResponseMessage_net_str e msg))) =
    ([RpcResponseMessage_net_str e msg], [], True)"
  using frames_encode_all [of "[RpcResponseMessage_net_str e msg]" ok e' e] assms by simp

section \<open>What a response means to the asynchronous client\<close>

text \<open>
  The call of the application's callback for a response: its ids and body for a reply, the server's
  status for a refusal.  \<open>server_response\<close> holds of the messages the server makes.
\<close>

fun response_call :: "'u rpc_handler \<Rightarrow> RpcResponseMessage \<Rightarrow> 'u \<Rightarrow> 'u" where
  "response_call cb m u =
     (if rs_status (rsm_header m) = RpcResponseStatus.OK
      then cb RpcClientStatus.OK (rs_service_id (rsm_header m)) (rs_opcode (rsm_header m)) (rsm_payload m) u
      else cb (client_status (rs_status (rsm_header m))) (- 1) (- 1) [] u)"

definition server_response :: "RpcResponseMessage \<Rightarrow> bool" where
  "server_response m \<longleftrightarrow> (\<exists>sid op body. m = RpcResponseMessage_of sid op body) \<or>
     (\<exists>st. named_status st \<and> m = RpcResponseMessage_status st)"

lemma async_recv_wrapper_response:
  "server_response m \<Longrightarrow> async_recv_wrapper e True cb (RpcResponseMessage_net_str e' m) u = response_call cb m u"
  by (auto simp: server_response_def async_recv_wrapper_def RpcResponseMessageParse_wire)

lemma fold_async_recv_wrapper:
  "\<forall>m \<in> set ms. server_response m \<Longrightarrow>
    fold (async_recv_wrapper e True cb) (map (RpcResponseMessage_net_str e') ms) u = fold (response_call cb) ms u"
  by (induction ms arbitrary: u) (simp_all add: async_recv_wrapper_response del: response_call.simps)

end
