(* ===== verification/RpcClient.thy ===== *)
theory RpcClient
  imports RpcClientImpl
begin

text \<open>
  \<^verbatim>\<open>source/Client/include/RpcClient.h\<close> and \<^verbatim>\<open>source/Client/RpcClient.cpp\<close>: the class applications use.
  The three \<^verbatim>\<open>init\<close> methods overload one name; here each has its own.  Reading a configuration file is
  libconfig's work: its outcome is an argument, \<open>None\<close> for an exception.  A libconfig setting is its
  lookup functions, strings and unsigned integers.
\<close>

record RpcClient =
  rc_initialized :: bool
  rc_setting :: RpcClientSetting
  rc_impl :: "RpcClientImpl option"

record client_cfg =
  ccfg_string :: "string \<Rightarrow> string option"
  ccfg_uint :: "string \<Rightarrow> u32 option"

definition RpcClient_new :: RpcClient where
  "RpcClient_new = \<lparr>rc_initialized = False, rc_setting = RpcClientSetting_new, rc_impl = None\<rparr>"

definition client_init_addr :: "bool \<Rightarrow> string \<Rightarrow> u32 \<Rightarrow> RpcClient \<Rightarrow> bool \<times> RpcClient" where
  "client_init_addr io_ok addr port rc =
     (if rc_initialized rc then (True, rc)
      else
        let rc1 = rc\<lparr>rc_setting := (rc_setting rc)\<lparr>serv_addr := addr, serv_port := port\<rparr>\<rparr>;
            (ok, impl) = RpcClientImpl_init io_ok (RpcClientImpl_new (rc_setting rc1));
            rc2 = rc1\<lparr>rc_impl := Some impl\<rparr>
        in if \<not> ok then (False, rc2) else (True, rc2\<lparr>rc_initialized := True\<rparr>))"

text \<open>
  The port goes through the \<^verbatim>\<open>uint16_t\<close> parameter of the first \<^verbatim>\<open>init\<close>.  The comparisons of the two
  unsigned size limits with 0 are never true and have no branch here.
\<close>

definition client_init_setting :: "bool \<Rightarrow> client_cfg \<Rightarrow> RpcClient \<Rightarrow> bool \<times> RpcClient" where
  "client_init_setting io_ok cfg rc =
     (let s0 = rc_setting rc;
          s1 = s0\<lparr>serv_addr := lookupValue (ccfg_string cfg) ''serv_addr'' (serv_addr s0)\<rparr>
      in if ccfg_string cfg ''serv_addr'' = None then (False, rc\<lparr>rc_setting := s1\<rparr>)
         else
           let s2 = s1\<lparr>serv_port := lookupValue (ccfg_uint cfg) ''serv_port'' (serv_port s1)\<rparr>
           in if ccfg_uint cfg ''serv_port'' = None \<or> serv_addr s2 = [] \<or> serv_port s2 \<le> 0
              then (False, rc\<lparr>rc_setting := s2\<rparr>)
              else
                let s3 = s2\<lparr>cs_send_max_msg_size :=
                           lookupValue (ccfg_uint cfg) ''send_max_msg_size'' (cs_send_max_msg_size s2)\<rparr>;
                    s4 = s3\<lparr>cs_recv_max_msg_size :=
                           lookupValue (ccfg_uint cfg) ''recv_max_msg_size'' (cs_recv_max_msg_size s3)\<rparr>;
                    s5 = s4\<lparr>cs_log_level := lookupValue (ccfg_uint cfg) ''log_level'' (cs_log_level s4)\<rparr>
                in if ccfg_uint cfg ''log_level'' \<noteq> None \<and> cs_log_level s5 > 7
                   then (False, rc\<lparr>rc_setting := s5\<rparr>)
                   else client_init_addr io_ok (serv_addr s5) (serv_port s5 AND 0xFFFF) (rc\<lparr>rc_setting := s5\<rparr>))"

definition client_init_file :: "bool \<Rightarrow> client_cfg option \<Rightarrow> RpcClient \<Rightarrow> bool \<times> RpcClient" where
  "client_init_file io_ok cfg rc =
     (case cfg of None \<Rightarrow> (False, rc) | Some c \<Rightarrow> client_init_setting io_ok c rc)"

text \<open>The constructors throw when \<^verbatim>\<open>init\<close> fails: \<open>None\<close>.\<close>

definition constructed :: "bool \<times> RpcClient \<Rightarrow> RpcClient option" where
  "constructed res = (if fst res then Some (snd res) else None)"

definition RpcClient_of_addr :: "bool \<Rightarrow> string \<Rightarrow> u16 \<Rightarrow> bool \<Rightarrow> RpcClient option" where
  "RpcClient_of_addr io_ok addr port handler =
     constructed (client_init_addr io_ok addr (ucast port)
       (RpcClient_new\<lparr>rc_setting := (rc_setting RpcClient_new)\<lparr>has_handler := handler\<rparr>\<rparr>))"

definition RpcClient_of_file :: "bool \<Rightarrow> client_cfg option \<Rightarrow> bool \<Rightarrow> RpcClient option" where
  "RpcClient_of_file io_ok cfg handler =
     constructed (client_init_file io_ok cfg
       (RpcClient_new\<lparr>rc_setting := (rc_setting RpcClient_new)\<lparr>has_handler := handler\<rparr>\<rparr>))"

definition RpcClient_of_config :: "bool \<Rightarrow> client_cfg \<Rightarrow> bool \<Rightarrow> RpcClient option" where
  "RpcClient_of_config io_ok cfg handler =
     constructed (client_init_setting io_ok cfg
       (RpcClient_new\<lparr>rc_setting := (rc_setting RpcClient_new)\<lparr>has_handler := handler\<rparr>\<rparr>))"

definition RpcClient_of_setting :: "bool \<Rightarrow> RpcClientSetting \<Rightarrow> RpcClient option" where
  "RpcClient_of_setting io_ok cs =
     constructed (client_init_addr io_ok (serv_addr cs) (serv_port cs AND 0xFFFF)
       (RpcClient_new\<lparr>rc_setting := cs\<rparr>))"

definition client_call_RPC_sync ::
  "endian \<Rightarrow> error_code option \<Rightarrow> bool \<Rightarrow> u16 \<Rightarrow> u16 \<Rightarrow> bytes \<Rightarrow> bytes \<Rightarrow> u32 \<Rightarrow> write_script \<Rightarrow> read_script \<Rightarrow>
    RpcClient \<Rightarrow> (RpcClientStatus \<times> bytes \<times> write_script \<times> read_script \<times> RpcClient) option" where
  "client_call_RPC_sync e connect_ec ok sid op payload respload timeout_sec ws rs rc =
     (case rc_impl rc of
        Some impl \<Rightarrow>
          if \<not> rc_initialized rc then Some (NETWORK_BEFORE_ERROR, respload, ws, rs, rc)
          else map_option (\<lambda>(st, resp, ws', rs', impl'). (st, resp, ws', rs', rc\<lparr>rc_impl := Some impl'\<rparr>))
                 (call_RPC_sync e connect_ec ok sid op payload respload timeout_sec ws rs impl)
      | None \<Rightarrow> Some (NETWORK_BEFORE_ERROR, respload, ws, rs, rc))"

definition client_call_RPC_async ::
  "endian \<Rightarrow> 'u rpc_handler \<Rightarrow> error_code option \<Rightarrow> bool \<Rightarrow> u16 \<Rightarrow> u16 \<Rightarrow> bytes \<Rightarrow> u32 \<Rightarrow> RpcClient \<Rightarrow> 'u \<Rightarrow>
    RpcClientStatus \<times> RpcClient \<times> 'u" where
  "client_call_RPC_async e cb connect_ec ok sid op payload timeout_sec rc u =
     (case rc_impl rc of
        Some impl \<Rightarrow>
          if \<not> rc_initialized rc then (NETWORK_BEFORE_ERROR, rc, u)
          else if \<not> has_handler (rc_setting rc) then (NETWORK_BEFORE_ERROR, rc, u)
          else
            let (st, impl', u') = call_RPC_async e cb connect_ec ok sid op payload timeout_sec impl u
            in (st, rc\<lparr>rc_impl := Some impl'\<rparr>, u')
      | None \<Rightarrow> (NETWORK_BEFORE_ERROR, rc, u))"

section \<open>A constructed client is usable\<close>

definition client_usable :: "RpcClient \<Rightarrow> bool" where
  "client_usable rc \<longleftrightarrow> rc_initialized rc \<and>
     (\<exists>impl. rc_impl rc = Some impl \<and> has_io_service (client_setting impl) \<and>
       impl_handler impl = has_handler (rc_setting rc) \<and> conn_sync impl = None \<and> conn_async impl = None)"

lemma client_init_addr_usable:
  assumes "client_init_addr io_ok addr port rc = (True, rc')" "\<not> rc_initialized rc"
  shows "client_usable rc'" and "serv_addr (rc_setting rc') = addr" and "serv_port (rc_setting rc') = port"
    and "cs_recv_max_msg_size (rc_setting rc') = cs_recv_max_msg_size (rc_setting rc)"
    and "cs_log_level (rc_setting rc') = cs_log_level (rc_setting rc)"
  using assms by (auto simp: client_init_addr_def RpcClientImpl_init_def RpcClientImpl_new_def client_usable_def Let_def
    split: if_splits)

lemma constructed_SomeD: "constructed res = Some rc \<Longrightarrow> res = (True, rc)"
  by (cases res) (simp add: constructed_def split: if_splits)

lemma client_init_setting_TrueD:
  assumes "client_init_setting io_ok cfg rc = (True, rc')" "cs_log_level (rc_setting rc) \<le> 7"
  shows "\<exists>s. serv_addr s \<noteq> [] \<and> cs_log_level s \<le> 7 \<and>
    client_init_addr io_ok (serv_addr s) (serv_port s AND 0xFFFF) (rc\<lparr>rc_setting := s\<rparr>) = (True, rc')"
proof -
  define s where "s = (rc_setting rc)\<lparr>
    serv_addr := lookupValue (ccfg_string cfg) ''serv_addr'' (serv_addr (rc_setting rc)),
    serv_port := lookupValue (ccfg_uint cfg) ''serv_port'' (serv_port (rc_setting rc)),
    cs_send_max_msg_size := lookupValue (ccfg_uint cfg) ''send_max_msg_size'' (cs_send_max_msg_size (rc_setting rc)),
    cs_recv_max_msg_size := lookupValue (ccfg_uint cfg) ''recv_max_msg_size'' (cs_recv_max_msg_size (rc_setting rc)),
    cs_log_level := lookupValue (ccfg_uint cfg) ''log_level'' (cs_log_level (rc_setting rc))\<rparr>"
  have "serv_addr s \<noteq> []" "\<not> (ccfg_uint cfg ''log_level'' \<noteq> None \<and> cs_log_level s > 7)"
    "client_init_addr io_ok (serv_addr s) (serv_port s AND 0xFFFF) (rc\<lparr>rc_setting := s\<rparr>) = (True, rc')"
    using assms(1) by (simp_all add: client_init_setting_def Let_def s_def split: if_splits)
  moreover have "cs_log_level s \<le> 7" if "ccfg_uint cfg ''log_level'' = None"
    using that assms(2) by (simp add: s_def)
  ultimately show ?thesis by (metis not_less)
qed

lemma constructed_usable:
  assumes "RpcClient_of_config io_ok cfg handler = Some rc"
  shows "client_usable rc" and "serv_addr (rc_setting rc) \<noteq> []" and "cs_log_level (rc_setting rc) \<le> 7"
proof -
  let ?rc0 = "RpcClient_new\<lparr>rc_setting := (rc_setting RpcClient_new)\<lparr>has_handler := handler\<rparr>\<rparr>"
  have "client_init_setting io_ok cfg ?rc0 = (True, rc)"
    using assms constructed_SomeD by (simp add: RpcClient_of_config_def)
  moreover have "cs_log_level (rc_setting ?rc0) \<le> 7" by (simp add: RpcClient_new_def RpcClientSetting_new_def)
  ultimately obtain s where s: "serv_addr s \<noteq> []" "cs_log_level s \<le> 7"
      "client_init_addr io_ok (serv_addr s) (serv_port s AND 0xFFFF) (?rc0\<lparr>rc_setting := s\<rparr>) = (True, rc)"
    using client_init_setting_TrueD by blast
  have "\<not> rc_initialized (?rc0\<lparr>rc_setting := s\<rparr>)" by (simp add: RpcClient_new_def)
  from client_init_addr_usable [OF s(3) this] s(1,2)
  show "client_usable rc" and "serv_addr (rc_setting rc) \<noteq> []" and "cs_log_level (rc_setting rc) \<le> 7"
    by simp_all
qed

end
