(* ===== verification/NetServer.thy ===== *)
theory NetServer
  imports TcpConnRead "HOL-Library.List_Lexorder" "HOL-Library.Char_ord"
begin

text \<open>
  \<^verbatim>\<open>NetServer\<close> of \<^verbatim>\<open>source/Network/NetServer.h\<close> and \<^verbatim>\<open>NetServer.cpp\<close>: start-up, the accept loop with its
  three admission checks, the io threads and the runtime update of the settings.  A connection is
  known by its number; \<open>conns\<close> holds the connections that still exist and \<open>current_concurrency\<close> is
  the static counter of \<^verbatim>\<open>TcpConnAsync\<close>, incremented by the constructor and decremented by the
  destructor.  The acceptor and the io service are library objects: \<open>accepts\<close> counts the pending
  \<^verbatim>\<open>async_accept\<close>s, and \<open>rejected\<close> the sockets shut and closed without a connection.
\<close>

section \<open>State\<close>

record NetServer =
  ns_instance_name :: string
  ns_endpoint :: "(string \<times> int) option"
  net_conf :: NetConf
  accepts :: nat
  io_threads :: "int option"
  io_started :: bool
  io_stopped :: bool
  io_joined :: bool
  ns_runtime_attached :: bool
  ns_status_attached :: bool
  conns :: "(nat \<times> TcpConn) list"
  next_conn :: nat
  current_concurrency :: int
  rejected :: nat

definition NetServer_new :: "string \<Rightarrow> NetServer" where
  "NetServer_new name = \<lparr>ns_instance_name = name, ns_endpoint = None, net_conf = NetConf_default,
     accepts = 0, io_threads = None, io_started = False, io_stopped = False, io_joined = False,
     ns_runtime_attached = False, ns_status_attached = False, conns = [], next_conn = 0,
     current_concurrency = 0, rejected = 0\<rparr>"

section \<open>Starting and stopping\<close>

text \<open>
  \<open>addr_ok\<close>: whether \<^verbatim>\<open>address::from_string\<close> accepts the configured address; it throws otherwise,
  \<open>None\<close> here.  \<open>init_threads\<close> is the thread pool's answer for a number of threads.
\<close>

definition start_feed_timer :: "NetConf \<Rightarrow> NetConf" where
  "start_feed_timer cf = cf\<lparr>timed_feed_token :=
     timer_async_wait (timer_expires_from_now (timer_reset_new (timed_feed_token cf)))\<rparr>"

definition net_init ::
  "(string \<Rightarrow> string list) \<Rightarrow> (string \<Rightarrow> string) \<Rightarrow> (string \<Rightarrow> bool) \<Rightarrow> (int \<Rightarrow> bool) \<Rightarrow> config \<Rightarrow> NetServer \<Rightarrow>
    (bool \<times> NetServer) option" where
  "net_init split trim addr_ok init_threads setting ns =
     (let (ok, cf) = load_conf split trim setting (net_conf ns); ns1 = ns\<lparr>net_conf := cf\<rparr>
      in if \<not> ok then Some (False, ns1)
         else if \<not> addr_ok (bind_addr cf) then None
         else
           let ns2 = ns1\<lparr>ns_endpoint := Some (bind_addr cf, bind_port cf mod 65536)\<rparr>;
               ns3 = (if service_speed cf \<noteq> 0 then ns2\<lparr>net_conf := start_feed_timer cf\<rparr> else ns2)
           in if \<not> init_threads (io_thread_number cf) then Some (False, ns3)
              else Some (True, ns3\<lparr>io_threads := Some (io_thread_number cf),
                                  ns_runtime_attached := True, ns_status_attached := True\<rparr>))"

definition do_accept :: "NetServer \<Rightarrow> NetServer" where
  "do_accept ns = ns\<lparr>accepts := Suc (accepts ns)\<rparr>"

text \<open>\<open>listen_ok\<close>: \<^verbatim>\<open>open\<close>, \<^verbatim>\<open>bind\<close> and \<^verbatim>\<open>listen\<close> succeed; each throws otherwise.\<close>

definition net_service :: "bool \<Rightarrow> NetServer \<Rightarrow> NetServer option" where
  "net_service listen_ok ns =
     (let ns1 = ns\<lparr>io_started := True\<rparr> in if listen_ok then Some (do_accept ns1) else None)"

definition io_service_stop_graceful :: "NetServer \<Rightarrow> int \<times> NetServer" where
  "io_service_stop_graceful ns = (0, ns\<lparr>io_stopped := True, io_started := False\<rparr>)"

definition io_service_join :: "NetServer \<Rightarrow> int \<times> NetServer" where
  "io_service_join ns = (0, ns\<lparr>io_joined := True\<rparr>)"

text \<open>
  The loop of an io thread over what it meets: the thread's status at the top of a turn, and whether
  \<^verbatim>\<open>io_service::run\<close> reports an error.  The result counts the runs; \<open>None\<close> as the status means it is
  still in the loop.
\<close>

fun io_service_run :: "(ThreadStatus \<times> bool) list \<Rightarrow> nat \<times> ThreadStatus option" where
  "io_service_run [] = (0, None)"
| "io_service_run ((st, err) # turns) =
     (if st = kTerminating then (0, Some kDead)
      else if st = kSuspend then io_service_run turns
      else if err then (1, Some kDead)
      else (let (n, fin) = io_service_run turns in (Suc n, fin)))"

section \<open>Accepting\<close>

text \<open>
  \<open>remote\<close> is the peer's address, \<open>None\<close> when \<^verbatim>\<open>remote_endpoint\<close> reports an error.  The dispatcher is
  threaded through because a new connection starts to read at once.
\<close>

definition TcpConn_create :: "bool \<Rightarrow> socket \<Rightarrow> NetServer \<Rightarrow> nat \<times> NetServer" where
  "TcpConn_create ok sock ns =
     (next_conn ns, ns\<lparr>conns := (next_conn ns, TcpConn_new ok sock) # conns ns,
        next_conn := Suc (next_conn ns), current_concurrency := current_concurrency ns + 1\<rparr>)"

definition conn_update :: "nat \<Rightarrow> TcpConn \<Rightarrow> NetServer \<Rightarrow> NetServer" where
  "conn_update i c ns = ns\<lparr>conns := map (\<lambda>(j, c'). if j = i then (j, c) else (j, c')) (conns ns)\<rparr>"

definition accept_handler ::
  "'q EQueue \<Rightarrow> endian \<Rightarrow> bool \<Rightarrow> error_code option \<Rightarrow> string option \<Rightarrow> socket \<Rightarrow> NetServer \<Rightarrow> 'q Dispatcher \<Rightarrow>
    NetServer \<times> 'q Dispatcher" where
  "accept_handler Q e ok ec remote sock ns d =
     (let (ns', d') =
        (if ec \<noteq> None then (ns, d)
         else case remote of
           None \<Rightarrow> (ns, d)
         | Some remote_ip \<Rightarrow>
             if \<not> check_safe_ip remote_ip (net_conf ns) then (ns\<lparr>rejected := Suc (rejected ns)\<rparr>, d)
             else
               let (got, cf) = get_service_token (net_conf ns); ns1 = ns\<lparr>net_conf := cf\<rparr>
               in if \<not> got then (ns1\<lparr>rejected := Suc (rejected ns1)\<rparr>, d)
                  else if service_concurrency cf \<noteq> 0 \<and> service_concurrency cf < current_concurrency ns1
                  then (ns1\<lparr>rejected := Suc (rejected ns1)\<rparr>, d)
                  else
                    let (i, ns2) = TcpConn_create ok sock ns1;
                        (c, d1) = TcpConn_start Q e cf i (TcpConn_new ok sock) d
                    in (conn_update i c ns2, d1))
      in (do_accept ns', d'))"

text \<open>The environment's part: a pending accept completes, and a connection is destroyed.\<close>

definition io_accept ::
  "'q EQueue \<Rightarrow> endian \<Rightarrow> bool \<Rightarrow> error_code option \<Rightarrow> string option \<Rightarrow> socket \<Rightarrow> NetServer \<Rightarrow> 'q Dispatcher \<Rightarrow>
    NetServer \<times> 'q Dispatcher" where
  "io_accept Q e ok ec remote sock ns d =
     (case accepts ns of
        0 \<Rightarrow> (ns, d)
      | Suc n \<Rightarrow> accept_handler Q e ok ec remote sock (ns\<lparr>accepts := n\<rparr>) d)"

definition TcpConn_delete :: "nat \<Rightarrow> NetServer \<Rightarrow> NetServer" where
  "TcpConn_delete i ns =
     (if i \<in> fst ` set (conns ns)
      then ns\<lparr>conns := filter (\<lambda>p. fst p \<noteq> i) (conns ns), current_concurrency := current_concurrency ns - 1\<rparr>
      else ns)"

section \<open>Updating the settings at run time\<close>

definition net_module_runtime ::
  "(string \<Rightarrow> string list) \<Rightarrow> (string \<Rightarrow> string) \<Rightarrow> config \<Rightarrow> NetServer \<Rightarrow> int \<times> NetServer" where
  "net_module_runtime split trim cfg ns =
     (let (ok, conf) = load_conf split trim cfg NetConf_default
      in if \<not> ok then (- 1, ns)
         else
           let cf0 = net_conf ns;
               cf1 = (if session_cancel_time_out cf0 \<noteq> session_cancel_time_out conf
                      then cf0\<lparr>session_cancel_time_out := session_cancel_time_out conf\<rparr> else cf0);
               cf2 = (if ops_cancel_time_out cf1 \<noteq> ops_cancel_time_out conf
                      then cf1\<lparr>ops_cancel_time_out := ops_cancel_time_out conf\<rparr> else cf1);
               cf3 = cf2\<lparr>safe_ip := safe_ip conf\<rparr>;
               cf4 = (if service_speed cf3 \<noteq> service_speed conf then
                        let cf = cf3\<lparr>service_speed := service_speed conf\<rparr>
                        in if service_speed cf \<noteq> 0 then start_feed_timer cf
                           else if ft_set (timed_feed_token cf)
                           then cf\<lparr>timed_feed_token := timer_reset_null (timer_cancel (timed_feed_token cf))\<rparr>
                           else cf
                      else cf3);
               cf5 = (if service_concurrency cf4 \<noteq> service_concurrency conf
                      then cf4\<lparr>service_concurrency := service_concurrency conf\<rparr> else cf4)
           in (0, ns\<lparr>net_conf := cf5\<rparr>))"

text \<open>The io threads run the feed timer's handler when it expires, or with \<^verbatim>\<open>operation_aborted\<close>.\<close>

definition io_feed_expired :: "NetConf \<Rightarrow> NetConf option" where
  "io_feed_expired cf =
     (case ft_waits (timed_feed_token cf) of
        0 \<Rightarrow> Some cf
      | Suc n \<Rightarrow> timed_feed_token_handler (cf\<lparr>timed_feed_token := (timed_feed_token cf)\<lparr>ft_waits := n\<rparr>\<rparr>))"

definition io_feed_aborted :: "NetConf \<Rightarrow> NetConf option" where
  "io_feed_aborted cf =
     (case ft_aborted (timed_feed_token cf) of
        0 \<Rightarrow> Some cf
      | Suc n \<Rightarrow> timed_feed_token_handler (cf\<lparr>timed_feed_token := (timed_feed_token cf)\<lparr>ft_aborted := n\<rparr>\<rparr>))"

definition net_module_status :: "NetServer \<Rightarrow> int \<times> string \<times> string \<times> string" where
  "net_module_status ns =
     (let tab = [CHR 0x09]; endl = [CHR 0x0A]; cf = net_conf ns;
          bool_str = (\<lambda>b. if b then ''true'' else ''false'')
      in (0, ''tzrpc'', ''NetServer'',
          tab @ ''instance_name: '' @ ns_instance_name ns @ endl @
          tab @ ''service_addr: '' @ bind_addr cf @ ''@'' @ show_int (bind_port cf) @ endl @
          tab @ ''backlog_size: '' @ show_int (backlog_size cf) @ endl @
          tab @ ''io_thread_pool_size: '' @ show_int (io_thread_number cf) @ endl @
          tab @ ''safe_ips: '' @ concat (map (\<lambda>ip. ip @ '', '') (sorted_list_of_set (safe_ip cf))) @ endl @
          tab @ endl @
          tab @ ''service_enabled: '' @ bool_str (service_enabled cf) @ endl @
          tab @ ''service_speed_limit(tps): '' @ show_int (service_speed cf) @ endl @
          tab @ ''service_concurrency: '' @ show_int (service_concurrency cf) @ endl @
          tab @ ''session_cancel_time_out: '' @ show_int (session_cancel_time_out cf) @ endl @
          tab @ ''ops_cancel_time_out: '' @ show_int (ops_cancel_time_out cf) @ endl))"

section \<open>The running server\<close>

text \<open>
  Between two updates of the settings the server moves by completed accepts, by what happens on a
  connection (reads, writes, its timer, replies of the workers), by connections being destroyed
  and by the feed timer.  A successful read brings at least one byte and no more than the
  block it was given holds.
\<close>

inductive conn_step :: "'q EQueue \<Rightarrow> endian \<Rightarrow> NetConf \<Rightarrow> nat \<Rightarrow> TcpConn \<times> 'q Dispatcher \<Rightarrow> TcpConn \<times> 'q Dispatcher \<Rightarrow> bool"
  for Q :: "'q EQueue" and e cf i where
  ReadOk: "chunk \<noteq> [] \<Longrightarrow> length chunk \<le> kFixedIoBufferSize \<Longrightarrow>
    conn_step Q e cf i (c, d) (io_read_ok Q e cf i chunk (c, d))"
| ReadErr: "conn_step Q e cf i (c, d) (io_read_error Q e cf i err n (c, d))"
| WriteOk: "conn_step Q e cf i (c, d) (io_write_ok cf c, d)"
| WriteErr: "conn_step Q e cf i (c, d) (io_write_error cf err n c, d)"
| Timer: "conn_step Q e cf i (c, d) (io_timer c, d)"
| LateTimer: "conn_step Q e cf i (c, d) (io_late_timer cf c, d)"
| Reply: "conn_step Q e cf i (c, d) (snd (async_send_message e cf msg c), d)"

inductive net_step :: "'q EQueue \<Rightarrow> endian \<Rightarrow> NetServer \<times> 'q Dispatcher \<Rightarrow> NetServer \<times> 'q Dispatcher \<Rightarrow> bool"
  for Q :: "'q EQueue" and e where
  Accept: "net_step Q e (ns, d) (io_accept Q e ok ec remote sock ns d)"
| Conn: "(i, c) \<in> set (conns ns) \<Longrightarrow> conn_step Q e (net_conf ns) i (c, d) (c', d') \<Longrightarrow>
    net_step Q e (ns, d) (conn_update i c' ns, d')"
| Delete: "net_step Q e (ns, d) (TcpConn_delete i ns, d)"
| FeedExpired: "io_feed_expired (net_conf ns) = Some cf \<Longrightarrow> net_step Q e (ns, d) (ns\<lparr>net_conf := cf\<rparr>, d)"
| FeedAborted: "io_feed_aborted (net_conf ns) = Some cf \<Longrightarrow> net_step Q e (ns, d) (ns\<lparr>net_conf := cf\<rparr>, d)"

inductive_cases conn_stepE: "conn_step Q e cf i (c, d) (c', d')"
inductive_cases net_stepE: "net_step Q e (ns, d) (ns', d')"

lemma conn_step_stat: "conn_step Q e cf i (c, d) (c', d') \<Longrightarrow> stat_step c c'"
  by (erule conn_stepE)
    (metis io_read_stat(1) fst_conv, metis io_read_stat(2) fst_conv,
     simp_all add: io_write_stat io_timer_stat async_send_message_stat)

definition conn_ids :: "NetServer \<Rightarrow> nat list" where
  "conn_ids ns = map fst (conns ns)"

definition stats_ok :: "NetServer \<Rightarrow> bool" where
  "stats_ok ns \<longleftrightarrow> (\<forall>(i, c) \<in> set (conns ns). conn_stat c = kWorking \<or> conn_stat c = kClosed)"

definition net_inv :: "NetServer \<Rightarrow> bool" where
  "net_inv ns \<longleftrightarrow>
     accepts ns = 1 \<and> current_concurrency ns = int (length (conn_ids ns)) \<and>
     distinct (conn_ids ns) \<and> (\<forall>i \<in> set (conn_ids ns). i < next_conn ns) \<and> stats_ok ns"

text \<open>The admission check compares with \<open><\<close>, so one connection more than the limit is let in.\<close>

definition concurrency_inv :: "int \<Rightarrow> NetServer \<Rightarrow> bool" where
  "concurrency_inv limit ns \<longleftrightarrow> service_concurrency (net_conf ns) = limit \<and>
     (limit \<noteq> 0 \<longrightarrow> current_concurrency ns \<le> limit + 1)"

lemma conn_update_frame [simp]:
  "conn_ids (conn_update i c ns) = conn_ids ns"
  "accepts (conn_update i c ns) = accepts ns"
  "current_concurrency (conn_update i c ns) = current_concurrency ns"
  "next_conn (conn_update i c ns) = next_conn ns"
  "net_conf (conn_update i c ns) = net_conf ns"
  by (simp_all add: conn_ids_def conn_update_def case_prod_beta if_distrib cong: if_cong)

lemma conn_update_stats:
  "stats_ok ns \<Longrightarrow> conn_stat c = kWorking \<or> conn_stat c = kClosed \<Longrightarrow> stats_ok (conn_update i c ns)"
  by (fastforce simp: stats_ok_def conn_update_def split: if_splits)

lemma conn_update_inv:
  assumes "net_inv ns" "conn_stat c = kWorking \<or> conn_stat c = kClosed"
  shows "net_inv (conn_update i c ns)"
  using assms conn_update_stats by (simp add: net_inv_def)

lemma length_filter_neq:
  assumes "distinct xs" "x \<in> set xs"
  shows "length (filter (\<lambda>y. y \<noteq> x) xs) = length xs - 1"
proof -
  have "length (filter (\<lambda>y. y \<noteq> x) xs) = card (set (filter (\<lambda>y. y \<noteq> x) xs))"
    using distinct_card [OF distinct_filter [OF assms(1)]] by metis
  also have "set (filter (\<lambda>y. y \<noteq> x) xs) = set xs - {x}" by auto
  finally show ?thesis using assms by (simp add: distinct_card)
qed

lemma do_accept_frame [simp]:
  "conn_ids (do_accept ns) = conn_ids ns" "stats_ok (do_accept ns) = stats_ok ns"
  "current_concurrency (do_accept ns) = current_concurrency ns" "next_conn (do_accept ns) = next_conn ns"
  "accepts (do_accept ns) = Suc (accepts ns)" "net_conf (do_accept ns) = net_conf ns"
  by (simp_all add: do_accept_def conn_ids_def stats_ok_def)

lemma settings_frame [simp]:
  "conn_ids (ns\<lparr>net_conf := cf\<rparr>) = conn_ids ns" "stats_ok (ns\<lparr>net_conf := cf\<rparr>) = stats_ok ns"
  "conn_ids (ns\<lparr>accepts := n\<rparr>) = conn_ids ns" "stats_ok (ns\<lparr>accepts := n\<rparr>) = stats_ok ns"
  "conn_ids (ns\<lparr>rejected := n\<rparr>) = conn_ids ns" "stats_ok (ns\<lparr>rejected := n\<rparr>) = stats_ok ns"
  by (simp_all add: conn_ids_def stats_ok_def)

lemma TcpConn_create_frame:
  "conn_ids (snd (TcpConn_create ok sock ns)) = next_conn ns # conn_ids ns"
  "accepts (snd (TcpConn_create ok sock ns)) = accepts ns"
  "current_concurrency (snd (TcpConn_create ok sock ns)) = current_concurrency ns + 1"
  "next_conn (snd (TcpConn_create ok sock ns)) = Suc (next_conn ns)"
  "net_conf (snd (TcpConn_create ok sock ns)) = net_conf ns"
  by (simp_all add: conn_ids_def TcpConn_create_def)

lemma TcpConn_delete_inv:
  assumes "net_inv ns"
  shows "net_inv (TcpConn_delete i ns)"
proof (cases "i \<in> fst ` set (conns ns)")
  case True
  have ids: "conn_ids (TcpConn_delete i ns) = filter (\<lambda>j. j \<noteq> i) (conn_ids ns)"
    using True by (simp add: TcpConn_delete_def conn_ids_def filter_map comp_def)
  have "distinct (conn_ids ns)" "i \<in> set (conn_ids ns)" using assms True by (simp_all add: net_inv_def conn_ids_def)
  then have len: "length (filter (\<lambda>j. j \<noteq> i) (conn_ids ns)) = length (conn_ids ns) - 1" "conn_ids ns \<noteq> []"
    using length_filter_neq [of "conn_ids ns" i] by auto
  then have "int (length (conn_ids (TcpConn_delete i ns))) = int (length (conn_ids ns)) - 1"
    unfolding ids by (cases "conn_ids ns") auto
  moreover have "stats_ok (TcpConn_delete i ns)" using assms by (auto simp: net_inv_def stats_ok_def TcpConn_delete_def)
  moreover have "distinct (conn_ids (TcpConn_delete i ns))" "\<forall>j \<in> set (conn_ids (TcpConn_delete i ns)). j < next_conn ns"
    using assms by (simp_all add: ids net_inv_def)
  ultimately show ?thesis using True assms by (simp add: net_inv_def TcpConn_delete_def)
next
  case False
  then show ?thesis using assms by (simp add: TcpConn_delete_def)
qed

lemma get_service_token_concurrency:
  "service_concurrency (snd (get_service_token cf)) = service_concurrency cf"
  by (simp add: get_service_token_def)

text \<open>The handler's branches: the socket is dropped, or a new connection works or is closed.\<close>

lemma accept_handler_cases:
  obtains cf' k where "accept_handler Q e ok ec remote sock ns d =
      (do_accept (ns\<lparr>net_conf := cf', rejected := k\<rparr>), d)"
      "service_concurrency cf' = service_concurrency (net_conf ns)"
  | cf' c d' where "accept_handler Q e ok ec remote sock ns d =
      (do_accept (conn_update (next_conn ns) c (snd (TcpConn_create ok sock (ns\<lparr>net_conf := cf'\<rparr>)))), d')"
      "service_concurrency cf' = service_concurrency (net_conf ns)"
      "\<not> (service_concurrency cf' \<noteq> 0 \<and> service_concurrency cf' < current_concurrency ns)"
      "conn_stat c = kWorking \<or> conn_stat c = kClosed"
proof (cases "ec \<noteq> None \<or> remote = None \<or> \<not> check_safe_ip (the remote) (net_conf ns)")
  case True
  then have "accept_handler Q e ok ec remote sock ns d = (do_accept (ns\<lparr>net_conf := net_conf ns,
      rejected := if ec \<noteq> None \<or> remote = None then rejected ns else Suc (rejected ns)\<rparr>), d)"
    by (auto simp: accept_handler_def split: option.split)
  then show thesis using that(1) by blast
next
  case False
  then obtain ip where ip: "ec = None" "remote = Some ip" "check_safe_ip ip (net_conf ns)" by auto
  let ?cf = "snd (get_service_token (net_conf ns))"
  have conc: "service_concurrency ?cf = service_concurrency (net_conf ns)" by (rule get_service_token_concurrency)
  show thesis
  proof (cases "fst (get_service_token (net_conf ns)) \<and>
      \<not> (service_concurrency ?cf \<noteq> 0 \<and> service_concurrency ?cf < current_concurrency ns)")
    case True
    define s where "s = TcpConn_start Q e ?cf (next_conn ns) (TcpConn_new ok sock) d"
    have "stat_step (set_conn_stat kWorking (TcpConn_new ok sock)) (fst s)"
      unfolding s_def TcpConn_start_def by (rule do_read_stat)
    then have "conn_stat (fst s) = kWorking \<or> conn_stat (fst s) = kClosed"
      by (simp add: stat_step_def set_conn_stat_def)
    moreover have "accept_handler Q e ok ec remote sock ns d =
        (do_accept (conn_update (next_conn ns) (fst s) (snd (TcpConn_create ok sock (ns\<lparr>net_conf := ?cf\<rparr>)))), snd s)"
      using ip True by (auto simp: accept_handler_def case_prod_beta Let_def TcpConn_create_def s_def)
    ultimately show thesis using that(2) conc True by blast
  next
    case False
    have "accept_handler Q e ok ec remote sock ns d =
        (do_accept (ns\<lparr>net_conf := ?cf, rejected := Suc (rejected ns)\<rparr>), d)"
      using ip False by (auto simp: accept_handler_def case_prod_beta Let_def)
    then show thesis using that(1) conc by blast
  qed
qed

lemma created_inv:
  assumes "net_inv (ns\<lparr>accepts := 1\<rparr>)" "accepts ns = 0" "conn_stat c = kWorking \<or> conn_stat c = kClosed"
  shows "net_inv (do_accept (conn_update (next_conn ns) c (snd (TcpConn_create ok sock (ns\<lparr>net_conf := cf\<rparr>)))))"
proof -
  let ?ns = "snd (TcpConn_create ok sock (ns\<lparr>net_conf := cf\<rparr>))"
  have "stats_ok (conn_update (next_conn ns) c ?ns)"
    using assms(1,3) by (auto simp: net_inv_def stats_ok_def TcpConn_create_def conn_update_def split: if_splits)
  then show ?thesis
    using assms(1,2) by (auto simp: net_inv_def TcpConn_create_frame less_Suc_eq)
qed

lemma feed_frame:
  "io_feed_expired cf = Some cf' \<Longrightarrow> service_concurrency cf' = service_concurrency cf"
  "io_feed_aborted cf = Some cf' \<Longrightarrow> service_concurrency cf' = service_concurrency cf"
  by (auto simp: io_feed_expired_def io_feed_aborted_def timed_feed_token_handler_def feed_service_token_def Let_def
    split: nat.splits if_splits)

lemma io_accept_inv:
  assumes "net_inv ns"
  shows "net_inv (fst (io_accept Q e ok ec remote sock ns d))"
    and "concurrency_inv limit ns \<Longrightarrow> concurrency_inv limit (fst (io_accept Q e ok ec remote sock ns d))"
proof -
  let ?ns = "ns\<lparr>accepts := 0\<rparr>"
  have acc: "io_accept Q e ok ec remote sock ns d = accept_handler Q e ok ec remote sock ?ns d"
    using assms by (simp add: io_accept_def net_inv_def)
  have "?ns\<lparr>accepts := 1\<rparr> = ns" using assms by (simp add: net_inv_def)
  then have inv0: "net_inv (?ns\<lparr>accepts := 1\<rparr>)" using assms by simp
  have "net_inv (fst (accept_handler Q e ok ec remote sock ?ns d)) \<and>
    (concurrency_inv limit ns \<longrightarrow> concurrency_inv limit (fst (accept_handler Q e ok ec remote sock ?ns d)))"
  proof (rule accept_handler_cases [of Q e ok ec remote sock ?ns d])
    fix cf' k
    assume "accept_handler Q e ok ec remote sock ?ns d = (do_accept (?ns\<lparr>net_conf := cf', rejected := k\<rparr>), d)"
      "service_concurrency cf' = service_concurrency (net_conf ?ns)"
    then show ?thesis using assms by (simp add: net_inv_def concurrency_inv_def)
  next
    fix cf' c d'
    assume eq: "accept_handler Q e ok ec remote sock ?ns d =
        (do_accept (conn_update (next_conn ?ns) c (snd (TcpConn_create ok sock (?ns\<lparr>net_conf := cf'\<rparr>)))), d')"
      and "service_concurrency cf' = service_concurrency (net_conf ?ns)"
        "\<not> (service_concurrency cf' \<noteq> 0 \<and> service_concurrency cf' < current_concurrency ?ns)"
      and st: "conn_stat c = kWorking \<or> conn_stat c = kClosed"
    then show ?thesis
      using created_inv [OF inv0 _ st, of ok sock cf'] by (auto simp: concurrency_inv_def TcpConn_create_frame)
  qed
  then show "net_inv (fst (io_accept Q e ok ec remote sock ns d))"
    and "concurrency_inv limit ns \<Longrightarrow> concurrency_inv limit (fst (io_accept Q e ok ec remote sock ns d))"
    by (simp_all add: acc)
qed

lemma net_step_inv:
  assumes "net_step Q e (ns, d) (ns', d')" "net_inv ns"
  shows "net_inv ns' \<and> (concurrency_inv limit ns \<longrightarrow> concurrency_inv limit ns')"
proof (rule net_stepE [OF assms(1)])
  fix ok ec remote sock
  assume "(ns', d') = io_accept Q e ok ec remote sock ns d"
  then show ?thesis using io_accept_inv [OF assms(2)] by (metis fst_conv)
next
  fix i c c'
  assume eq: "ns' = conn_update i c' ns" and c: "(i, c) \<in> set (conns ns)"
    and step: "conn_step Q e (net_conf ns) i (c, d) (c', d')"
  have "conn_stat c = kWorking \<or> conn_stat c = kClosed"
    using assms(2) c by (auto simp: net_inv_def stats_ok_def)
  then have "conn_stat c' = kWorking \<or> conn_stat c' = kClosed"
    using conn_step_stat [OF step] by (auto simp: stat_step_def)
  then show ?thesis using eq conn_update_inv [OF assms(2)] by (simp add: concurrency_inv_def)
next
  fix i
  assume "ns' = TcpConn_delete i ns"
  then show ?thesis
    using TcpConn_delete_inv [OF assms(2)] by (auto simp: concurrency_inv_def TcpConn_delete_def)
next
  fix cf
  assume "ns' = ns\<lparr>net_conf := cf\<rparr>" "io_feed_expired (net_conf ns) = Some cf"
  then show ?thesis using assms(2) feed_frame by (simp add: net_inv_def concurrency_inv_def)
next
  fix cf
  assume "ns' = ns\<lparr>net_conf := cf\<rparr>" "io_feed_aborted (net_conf ns) = Some cf"
  then show ?thesis using assms(2) feed_frame by (simp add: net_inv_def concurrency_inv_def)
qed

lemma net_steps_inv:
  assumes "(net_step Q e)\<^sup>*\<^sup>* s s'" "net_inv (fst s)" "concurrency_inv limit (fst s)"
  shows "net_inv (fst s') \<and> concurrency_inv limit (fst s')"
  using assms
proof (induction rule: rtranclp_induct)
  case base
  then show ?case by simp
next
  case (step s1 s2)
  then show ?case using net_step_inv [of Q e "fst s1" "snd s1" "fst s2" "snd s2" limit] by simp
qed

text \<open>A server that was initialised and put into service satisfies both.\<close>

lemma net_init_inv:
  assumes "net_init split trim addr_ok init_threads setting (NetServer_new name) = Some (True, ns)"
    and "net_service True ns = Some ns'"
  shows "net_inv ns'" and "concurrency_inv (service_concurrency (net_conf ns)) ns'"
    and "netconf_valid (net_conf ns')" and "io_started ns'" and "io_threads ns' = Some (io_thread_number (net_conf ns'))"
proof -
  let ?l = "load_conf split trim setting (net_conf (NetServer_new name))"
  have load: "fst ?l" and ns: "ns = NetServer_new name\<lparr>
      net_conf := (if service_speed (snd ?l) \<noteq> 0 then start_feed_timer (snd ?l) else snd ?l),
      ns_endpoint := Some (bind_addr (snd ?l), bind_port (snd ?l) mod 65536),
      io_threads := Some (io_thread_number (snd ?l)), ns_runtime_attached := True, ns_status_attached := True\<rparr>"
    using assms(1) by (auto simp: net_init_def case_prod_beta Let_def split: if_splits)
  have ns': "ns' = do_accept (ns\<lparr>io_started := True\<rparr>)" using assms(2) by (simp add: net_service_def)
  have valid: "netconf_valid (snd ?l)"
    using load_conf_valid [of split trim setting "net_conf (NetServer_new name)" "snd ?l"] load
    by (cases ?l) (simp add: NetServer_new_def NetConf_default_def)
  then have "0 \<le> service_concurrency (net_conf ns)" by (simp add: ns netconf_valid_def start_feed_timer_def)
  then show "net_inv ns'" and "concurrency_inv (service_concurrency (net_conf ns)) ns'"
    by (simp_all add: ns' ns NetServer_new_def net_inv_def concurrency_inv_def conn_ids_def stats_ok_def do_accept_def
      start_feed_timer_def)
  from valid show "netconf_valid (net_conf ns')"
    by (simp add: ns' ns netconf_valid_def start_feed_timer_def)
  show "io_started ns'" by (simp add: ns' do_accept_def)
  show "io_threads ns' = Some (io_thread_number (net_conf ns'))" by (simp add: ns' ns do_accept_def start_feed_timer_def)
qed

section \<open>The feed timer\<close>

text \<open>
  Normally exactly one wait is pending while a speed limit is set, and each expiry feeds the bucket
  once and arms the next wait.
\<close>

definition feeding :: "NetConf \<Rightarrow> bool" where
  "feeding cf \<longleftrightarrow> service_speed cf \<noteq> 0 \<and> ft_set (timed_feed_token cf) \<and>
     ft_waits (timed_feed_token cf) = 1 \<and> ft_aborted (timed_feed_token cf) = 0"

lemma io_feed_expired_feeding:
  assumes "feeding cf"
  shows "\<exists>cf'. io_feed_expired cf = Some cf' \<and> feeding cf' \<and> service_token cf' = service_speed cf' \<and>
    service_speed cf' = service_speed cf"
  using assms by (simp add: feeding_def io_feed_expired_def timed_feed_token_handler_def feed_service_token_def
    timer_defs Let_def)

text \<open>
  When the timer object is replaced while a wait is pending, the aborted wait's handler arms the new
  timer again, which aborts the wait armed before it, and so on.
\<close>

definition spinning :: "NetConf \<Rightarrow> bool" where
  "spinning cf \<longleftrightarrow> service_speed cf \<noteq> 0 \<and> ft_set (timed_feed_token cf) \<and>
     ft_waits (timed_feed_token cf) = 1 \<and> ft_aborted (timed_feed_token cf) = 1"

fun feed_spin :: "nat \<Rightarrow> NetConf \<Rightarrow> NetConf option" where
  "feed_spin 0 cf = Some cf"
| "feed_spin (Suc n) cf = (case io_feed_aborted cf of None \<Rightarrow> None | Some cf' \<Rightarrow> feed_spin n cf')"

lemma io_feed_aborted_spinning:
  assumes "spinning cf"
  shows "\<exists>cf'. io_feed_aborted cf = Some cf' \<and> spinning cf' \<and> service_token cf' = service_speed cf' \<and>
    service_speed cf' = service_speed cf"
  using assms by (simp add: spinning_def io_feed_aborted_def timed_feed_token_handler_def feed_service_token_def
    timer_defs Let_def)

lemma feed_spin_forever:
  "spinning cf \<Longrightarrow> \<exists>cf'. feed_spin (Suc n) cf = Some cf' \<and> spinning cf' \<and> service_token cf' = service_speed cf"
proof (induction n arbitrary: cf)
  case 0
  then show ?case using io_feed_aborted_spinning [of cf] by auto
next
  case (Suc n)
  from io_feed_aborted_spinning [OF Suc.prems] obtain cf1 where
    "io_feed_aborted cf = Some cf1" "spinning cf1" "service_speed cf1 = service_speed cf" by auto
  with Suc.IH [of cf1] show ?case by auto
qed

text \<open>What a runtime update does to the limits of a running server.\<close>

lemma net_module_runtime_eq:
  assumes "load_conf split trim cfg NetConf_default = (True, conf)"
  shows "fst (net_module_runtime split trim cfg ns) = 0"
    and "session_cancel_time_out (net_conf (snd (net_module_runtime split trim cfg ns))) = session_cancel_time_out conf"
    and "ops_cancel_time_out (net_conf (snd (net_module_runtime split trim cfg ns))) = ops_cancel_time_out conf"
    and "safe_ip (net_conf (snd (net_module_runtime split trim cfg ns))) = safe_ip conf"
    and "service_speed (net_conf (snd (net_module_runtime split trim cfg ns))) = service_speed conf"
    and "service_concurrency (net_conf (snd (net_module_runtime split trim cfg ns))) = service_concurrency conf"
    and "service_enabled (net_conf (snd (net_module_runtime split trim cfg ns))) = service_enabled (net_conf ns)"
    and "send_max_msg_size (net_conf (snd (net_module_runtime split trim cfg ns))) = send_max_msg_size (net_conf ns)"
    and "recv_max_msg_size (net_conf (snd (net_module_runtime split trim cfg ns))) = recv_max_msg_size (net_conf ns)"
  using assms by (simp_all add: net_module_runtime_def start_feed_timer_def Let_def)

lemma net_module_runtime_spins:
  assumes "load_conf split trim cfg NetConf_default = (True, conf)"
    and "feeding (net_conf ns)" "service_speed conf \<noteq> 0" "service_speed conf \<noteq> service_speed (net_conf ns)"
  shows "spinning (net_conf (snd (net_module_runtime split trim cfg ns)))"
  using assms by (simp add: net_module_runtime_def start_feed_timer_def feeding_def spinning_def timer_defs Let_def)

end
