(* ===== verification/Captain.thy ===== *)
theory Captain
  imports NetServer
begin

text \<open>
  \<^verbatim>\<open>source/Captain.h\<close> and \<^verbatim>\<open>.cpp\<close>: the start-up sequence of the server process.  Timer, setting and
  status are objects of the support library; a record \<open>'q world_answers\<close> holds what they and the operating
  system answer.  \<open>None\<close> as a result is an exception or a null dereference that escapes \<^verbatim>\<open>init\<close>.
\<close>

record Captain =
  cap_initialized :: bool
  timer_ptr :: bool
  setting_ptr :: bool
  status_ptr :: bool
  log_settings :: "(int \<times> string) option"
  net_server_ptr :: "NetServer option"
  cap_joined :: bool

definition Captain_new :: Captain where
  "Captain_new = \<lparr>cap_initialized = False, timer_ptr = False, setting_ptr = False, status_ptr = False,
     log_settings = None, net_server_ptr = None, cap_joined = False\<rparr>"

record 'q world_answers =
  timer_ok :: bool
  setting_ok :: bool
  wa_setting :: "config option"
  wa_services :: service_lookup
  wa_split :: "string \<Rightarrow> string list"
  wa_trim :: "string \<Rightarrow> string"
  wa_addr_ok :: "string \<Rightarrow> bool"
  wa_io_threads :: "int \<Rightarrow> bool"
  wa_junk :: ExecutorConf
  wa_queue0 :: 'q
  wa_exec_threads :: "int \<Rightarrow> bool"
  wa_add_timer :: bool
  wa_listen_ok :: bool

text \<open>\<^verbatim>\<open>ServiceID::XTRA_TASK_SERVICE\<close> of \<^verbatim>\<open>source/Protocol/Common.h\<close>\<close>

definition XTRA_TASK_SERVICE :: u16 where
  "XTRA_TASK_SERVICE = 1"

definition init_log :: "config \<Rightarrow> int \<times> string" where
  "init_log setting =
     (let log_level = lookupValue (cfg_int setting) ''log_level'' 0;
          log_level' = (if log_level \<le> 0 \<or> log_level > 7 then 7 else log_level);
          log_path = lookupValue (cfg_string setting) ''log_path'' '''';
          log_path' = (if log_path = '''' then ''./log'' else log_path)
      in (log_level', log_path'))"

definition Captain_init ::
  "'q world_answers \<Rightarrow> Captain \<Rightarrow> 'q Dispatcher \<Rightarrow> (bool \<times> Captain \<times> 'q Dispatcher) option" where
  "Captain_init w cap d =
     (if cap_initialized cap then Some (False, cap, d)
      else
        let cap1 = cap\<lparr>timer_ptr := True\<rparr>
        in if \<not> timer_ok w then Some (False, cap1, d)
           else
             let cap2 = cap1\<lparr>setting_ptr := True\<rparr>
             in if \<not> setting_ok w then Some (False, cap2, d)
                else case wa_setting w of
                  None \<Rightarrow> Some (False, cap2, d)
                | Some setting \<Rightarrow>
                    let cap3 = cap2\<lparr>log_settings := Some (init_log setting), status_ptr := True\<rparr>
                    in case net_init (wa_split w) (wa_trim w) (wa_addr_ok w) (wa_io_threads w) setting
                              (NetServer_new ''tzrpc_server'') of
                         None \<Rightarrow> None
                       | Some (net_ok, ns) \<Rightarrow>
                           let cap4 = cap3\<lparr>net_server_ptr := Some ns\<rparr>
                           in if \<not> net_ok then Some (False, cap4, d)
                              else
                                let (sv_ok, sv) = service_init (wa_junk w) (Some (wa_services w))
                                                    (XtraTaskService_new ''XtraTaskService'')
                                in if \<not> sv_ok then Some (False, cap4, d)
                                   else case register_service (wa_queue0 w) (wa_exec_threads w) (wa_add_timer w)
                                               XTRA_TASK_SERVICE sv d of
                                     None \<Rightarrow> None
                                   | Some d1 \<Rightarrow>
                                       let (d_ok, d2) = dispatcher_init d1
                                       in if \<not> d_ok then Some (False, cap4, d2)
                                          else case net_service (wa_listen_ok w) ns of
                                            None \<Rightarrow> None
                                          | Some ns' \<Rightarrow>
                                              Some (True, cap4\<lparr>net_server_ptr := Some ns', cap_initialized := True\<rparr>, d2))"

text \<open>Both operations dereference the server pointer.\<close>

definition service_graceful :: "Captain \<Rightarrow> (bool \<times> Captain) option" where
  "service_graceful cap =
     (case net_server_ptr cap of
        None \<Rightarrow> None
      | Some ns \<Rightarrow> Some (True, cap\<lparr>cap_joined := True, net_server_ptr := Some (snd (io_service_stop_graceful ns))\<rparr>))"

definition service_joinall :: "Captain \<Rightarrow> (bool \<times> Captain) option" where
  "service_joinall cap =
     (case net_server_ptr cap of
        None \<Rightarrow> None
      | Some ns \<Rightarrow> Some (True, cap\<lparr>cap_joined := True, net_server_ptr := Some (snd (io_service_join ns))\<rparr>))"

section \<open>A started process\<close>

lemma init_log_bounds: "1 \<le> fst (init_log setting) \<and> fst (init_log setting) \<le> 7 \<and> snd (init_log setting) \<noteq> ''''"
  by (simp add: init_log_def Let_def)

lemma Captain_init_TrueD:
  assumes "Captain_init w cap d = Some (True, cap', d')"
  obtains setting ns sv d1 ns' where
    "wa_setting w = Some setting"
    "net_init (wa_split w) (wa_trim w) (wa_addr_ok w) (wa_io_threads w) setting (NetServer_new ''tzrpc_server'') = Some (True, ns)"
    "service_init (wa_junk w) (Some (wa_services w)) (XtraTaskService_new ''XtraTaskService'') = (True, sv)"
    "register_service (wa_queue0 w) (wa_exec_threads w) (wa_add_timer w) XTRA_TASK_SERVICE sv d = Some d1"
    "d' = snd (dispatcher_init d1)" "net_service True ns = Some ns'" "net_server_ptr cap' = Some ns'"
    "cap_initialized cap'" "log_settings cap' = Some (init_log setting)"
proof -
  have "\<exists>setting ns sv d1 ns'. wa_setting w = Some setting \<and>
    net_init (wa_split w) (wa_trim w) (wa_addr_ok w) (wa_io_threads w) setting (NetServer_new ''tzrpc_server'') = Some (True, ns) \<and>
    service_init (wa_junk w) (Some (wa_services w)) (XtraTaskService_new ''XtraTaskService'') = (True, sv) \<and>
    register_service (wa_queue0 w) (wa_exec_threads w) (wa_add_timer w) XTRA_TASK_SERVICE sv d = Some d1 \<and>
    d' = snd (dispatcher_init d1) \<and> net_service (wa_listen_ok w) ns = Some ns' \<and> wa_listen_ok w \<and>
    net_server_ptr cap' = Some ns' \<and> cap_initialized cap' \<and> log_settings cap' = Some (init_log setting)"
    using assms unfolding Captain_init_def Let_def
    by (auto simp: dispatcher_init_def net_service_def Let_def split: if_splits option.splits prod.splits)
  then show thesis using that by fastforce
qed

end
