(* ===== verification/TcpConnRace.thy ===== *)
theory TcpConnRace
  imports TcpConnWrite
begin

text \<open>
  \<^verbatim>\<open>async_send_message\<close> at the granularity of its lock (\<^verbatim>\<open>source/Network/TcpConnAsync.cpp\<close>).  Worker
  threads call it outside the connection's strand.  It appends under \<^verbatim>\<open>bound_mutex_\<close>, releases the
  lock, and \<^verbatim>\<open>do_write\<close> then tests \<^verbatim>\<open>send_status_\<close> without the lock before it takes the lock again.  A
  thread is therefore a program counter with three atomic steps; run alone, they are the method.
\<close>

datatype send_pc = AtAppend Message | AtCheck | AtLocked | Finished

text \<open>The part of \<^verbatim>\<open>do_write\<close> under the lock.\<close>

definition do_write_locked :: "NetConf \<Rightarrow> TcpConn \<Rightarrow> bool \<times> TcpConn" where
  "do_write_locked cf c =
     (if get_length (io_buffer (send_bound c)) = 0 then (True, c\<lparr>send_status := kSendDone\<rparr>)
      else
        let to_write = min (get_length (io_buffer (send_bound c))) (u32_of_size kFixedIoBufferSize)
        in case consume_raw (Some (io_block (send_bound c))) to_write (io_buffer (send_bound c)) of
             Inl _ \<Rightarrow> (False, c\<lparr>sane := False\<rparr>)
           | Inr (_, blk, b) \<Rightarrow>
               let c1 = c\<lparr>send_bound := (send_bound c)\<lparr>io_block := the blk, io_buffer := b\<rparr>,
                          send_status := kSend\<rparr>;
                   c2 = set_ops_cancel_timeout cf c1
               in (True, c2\<lparr>socket := async_write (unat to_write) (socket c2)\<rparr>))"

fun send_thread_step :: "endian \<Rightarrow> NetConf \<Rightarrow> send_pc \<Rightarrow> TcpConn \<Rightarrow> send_pc \<times> TcpConn" where
  "send_thread_step e cf (AtAppend msg) c =
     (if send_max_msg_size cf \<noteq> 0 \<and> h_length (m_header msg) > word_of_int (send_max_msg_size cf)
      then (Finished, c)
      else (AtCheck, c\<lparr>send_bound := (send_bound c)\<lparr>
              io_buffer := snd (Buffer_append e msg (io_buffer (send_bound c)))\<rparr>\<rparr>))"
| "send_thread_step e cf AtCheck c =
     (if send_status c \<noteq> kSendDone then (Finished, c)
      else if get_conn_stat c \<noteq> kWorking then (Finished, c)
      else if was_ops_cancelled c then (Finished, c)
      else (AtLocked, c))"
| "send_thread_step e cf AtLocked c = (Finished, snd (do_write_locked cf c))"
| "send_thread_step e cf Finished c = (Finished, c)"

text \<open>A schedule names the thread that moves next.\<close>

fun run_schedule :: "endian \<Rightarrow> NetConf \<Rightarrow> nat list \<Rightarrow> send_pc list \<Rightarrow> TcpConn \<Rightarrow> send_pc list \<times> TcpConn" where
  "run_schedule e cf [] pcs c = (pcs, c)"
| "run_schedule e cf (t # ts) pcs c =
     (if t < length pcs then
        let (pc, c') = send_thread_step e cf (pcs ! t) c in run_schedule e cf ts (pcs[t := pc]) c'
      else run_schedule e cf ts pcs c)"

lemma do_write_locked_eq:
  assumes "send_status c = kSendDone" "conn_stat c = kWorking" "\<not> was_cancelled c"
  shows "do_write cf c = do_write_locked cf c"
  using assms by (simp add: do_write_def do_write_locked_def get_conn_stat_def was_ops_cancelled_def)

text \<open>Without interference the three steps are the method.\<close>

lemma run_alone:
  "run_schedule e cf [0, 0, 0] [AtAppend msg] c = ([Finished], snd (async_send_message e cf msg c))"
  by (auto simp: async_send_message_def do_write_def do_write_locked_def get_conn_stat_def was_ops_cancelled_def Let_def
    case_prod_beta)

text \<open>
  Two threads whose tests both see \<^verbatim>\<open>kDone\<close>: the first one's section takes both messages into the
  block, the second one finds the buffer empty and marks the connection idle while the write is
  outstanding.
\<close>

definition raced :: "NetConf \<Rightarrow> nat \<Rightarrow> TcpConn \<Rightarrow> TcpConn" where
  "raced cf n c = (start_block cf n c)\<lparr>send_status := kSendDone\<rparr>"

lemma two_senders_race:
  assumes "send_live cf c" "send_status c = kSendDone" "send_accepts cf m1" "send_accepts cf m2"
    and "length (Message_net_str e m1) + length (Message_net_str e m2) \<le> kFixedIoBufferSize"
  shows "run_schedule e cf [0, 1, 0, 1, 0, 1] [AtAppend m1, AtAppend m2] c =
    ([Finished, Finished], raced cf (length (Message_net_str e m1) + length (Message_net_str e m2))
       (push_message e m2 (push_message e m1 c)))"
proof -
  let ?c2 = "push_message e m2 (push_message e m1 c)"
  let ?n = "length (Message_net_str e m1) + length (Message_net_str e m2)"
  have c: "conn_stat c = kWorking" "\<not> was_cancelled c" "send_inv cf c" "buf_data (io_buffer (send_bound c)) = []"
    using assms(1,2) by (simp_all add: send_live_def)
  have data: "buf_data (io_buffer (send_bound ?c2)) = Message_net_str e m1 @ Message_net_str e m2"
    using c(4) by (simp add: push_message_def Buffer_append_data)
  then have len: "unat (get_length (io_buffer (send_bound ?c2))) = ?n"
    using assms(5) by (simp add: get_length_def kFixedIoBufferSize_def)
  have pos: "0 < ?n" by (simp add: sizeof_Header_def)
  have "do_write cf ?c2 = (True, start_block cf (min (unat (get_length (io_buffer (send_bound ?c2)))) kFixedIoBufferSize) ?c2)"
    using c assms(2) len pos by (intro do_write_starts) (auto simp: send_inv_def push_message_def simp flip: unat_gt_0)
  then have first: "do_write_locked cf ?c2 = (True, start_block cf ?n ?c2)"
    using c assms(2,5) len do_write_locked_eq [of ?c2 cf] by simp
  have "buf_data (io_buffer (send_bound (start_block cf ?n ?c2))) = []"
    using data by (simp add: start_block_data)
  then have second: "do_write_locked cf (start_block cf ?n ?c2) = (True, raced cf ?n ?c2)"
    by (simp add: do_write_locked_def get_length_def raced_def u32_of_size_def)
  have push: "c'\<lparr>send_bound := (send_bound c')\<lparr>io_buffer := snd (Buffer_append e m (io_buffer (send_bound c')))\<rparr>\<rparr> =
      push_message e m c'" for c' m
    by (simp add: push_message_def)
  have acc: "send_thread_step e cf (AtAppend m) c' = (AtCheck, push_message e m c')" if "send_accepts cf m" for c' m
    using that by (auto simp: send_accepts_def push)
  show ?thesis
    using c(1,2) assms(2) first second
    by (simp add: acc [OF assms(3)] acc [OF assms(4)] get_conn_stat_def was_ops_cancelled_def
      del: send_thread_step.simps(1))
qed

text \<open>The next message then overwrites the block of the outstanding write.\<close>

lemma raced_overwrites:
  assumes "send_live cf c" "send_status c = kSendDone" "send_accepts cf m3"
    and w: "buf_data (io_buffer (send_bound c2)) = w" "length w = n" "n \<le> kFixedIoBufferSize" "0 < n"
    and c2: "conn_stat c2 = kWorking" "\<not> was_cancelled c2" "send_inv cf c2" "send_status c2 = kSendDone"
    and m3: "length (Message_net_str e m3) \<le> n"
  shows "in_flight (snd (async_send_message e cf m3 (raced cf n c2))) =
    (Message_net_str e m3 @ drop (length (Message_net_str e m3)) w) @ Message_net_str e m3"
proof -
  let ?r = "push_message e m3 (raced cf n c2)" and ?w3 = "Message_net_str e m3"
  have blk: "length (io_block (send_bound c2)) = kFixedIoBufferSize" "sk_writes (socket c2) = []"
    using c2(3,4) by (simp_all add: send_inv_def)
  have data: "buf_data (io_buffer (send_bound ?r)) = ?w3"
    using w(1,2) by (simp add: push_message_def Buffer_append_data raced_def start_block_data)
  then have len: "unat (get_length (io_buffer (send_bound ?r))) = length ?w3"
    using m3 w(3) by (simp add: get_length_def kFixedIoBufferSize_def)
  have pos: "0 < length ?w3" by (simp add: sizeof_Header_def)
  have "length (io_block (send_bound (raced cf n c2))) = kFixedIoBufferSize"
    using blk(1) w by (simp add: raced_def start_block_def Let_def)
  then have start: "do_write cf ?r = (True, start_block cf (min (unat (get_length (io_buffer (send_bound ?r)))) kFixedIoBufferSize) ?r)"
    using c2 len pos
    by (intro do_write_starts) (auto simp: raced_def push_message_def simp flip: unat_gt_0)
  have block: "io_block (send_bound (start_block cf (length ?w3) ?r)) = blit ?w3 (blit w (io_block (send_bound c2)))"
    "sk_writes (socket (start_block cf (length ?w3) ?r)) = [n, length ?w3]"
    using data w(1,2) blk(2)
    by (simp_all add: start_block_def [of cf "length ?w3"] Let_def)
      (simp_all add: push_message_def raced_def start_block_def Let_def)
  have "take n (blit ?w3 (blit w (io_block (send_bound c2)))) = ?w3 @ drop (length ?w3) w"
    using m3 w(2) by (simp add: blit_def take_append)
  moreover have "take (length ?w3) (blit ?w3 (blit w (io_block (send_bound c2)))) = ?w3" by (rule take_blit)
  ultimately show ?thesis
    using start assms(3) len m3 w(3) block
    by (simp add: async_send_message_eq in_flight_def min_def del: take_blit length_Message_net_str)
qed

end
