(* ===== verification/Samples.thy ===== *)
theory Samples
  imports EndToEnd RpcClient Captain TcpConnRace
begin

text \<open>
  A small concrete system for the examples of the root theory: a queue kept as a list, a dispatcher
  with the demo service, fresh sockets and default settings.
\<close>

definition list_queue :: "RpcInstance list EQueue" where
  "list_queue = \<lparr>q_PUSH = (\<lambda>x q. q @ [x]),
     q_POP = (\<lambda>q. case q of [] \<Rightarrow> (None, []) | x # xs \<Rightarrow> (Some x, xs)), q_SIZE = length\<rparr>"

lemma list_queue_fifo: "fifo_queue list_queue (\<lambda>q. q)"
  by (simp add: fifo_queue_def list_queue_def)

definition demo_dispatcher :: "RpcInstance list Dispatcher" where
  "demo_dispatcher = Dispatcher_new\<lparr>services := [(1, Executor_new [] (XtraTaskService_new ''XtraTaskService''))]\<rparr>"

lemma demo_dispatcher_simps:
  "service_ids demo_dispatcher = {1}"
  "queue_of (\<lambda>q. q) demo_dispatcher 1 = []"
  "dispatcher_wf demo_dispatcher"
  by (simp_all add: service_ids_def queue_of_def demo_dispatcher_def Dispatcher_new_def map_find_def dom_def
    Executor_new_def dispatcher_wf_def map_wf_def)

text \<open>A callback that notes what it is called with.\<close>

definition demo_cb :: "(RpcClientStatus \<times> u16 \<times> u16 \<times> bytes) list rpc_handler" where
  "demo_cb st sid op body u = u @ [(st, sid, op, body)]"

lemma socket_connected_simps [simp]:
  "sk_reads socket_connected = []" "sk_writes socket_connected = []" "sk_sent socket_connected = []"
  by (simp_all add: socket_connected_def)

text \<open>With the default settings nothing is too large.\<close>

lemma default_accepts [simp]:
  "send_accepts NetConf_default msg" "client_accepts RpcClientSetting_new msg"
  by (simp_all add: send_accepts_def NetConf_default_def client_accepts_def RpcClientSetting_new_def)

lemma default_header_ok [simp]:
  "header_ok NetConf_default (m_header (Message_of p))"
  "client_header_ok RpcClientSetting_new (m_header (Message_of p))"
  by (simp_all add: header_ok_def NetConf_default_def client_header_ok_def RpcClientSetting_new_def)

lemma started_live: "send_live NetConf_default (set_conn_stat kWorking (TcpConn_new True socket_connected))"
  by (simp add: send_live_def send_inv_def TcpConn_new_def set_conn_stat_def set_tcp_nonblocking_def
    set_tcp_nodelay_def IOBound_new_def Buffer_new_def Let_def)

text \<open>A connection that was just started.\<close>

definition demo_conn :: TcpConn where
  "demo_conn = set_conn_stat kWorking (TcpConn_new True socket_connected)"

lemma demo_conn_live: "send_live NetConf_default demo_conn"
  unfolding demo_conn_def by (rule started_live)

lemma demo_conn_quiet: "sent_bytes demo_conn = []" "send_backlog demo_conn = []"
  by (simp_all add: demo_conn_def sent_bytes_def send_backlog_def in_flight_def TcpConn_new_def set_conn_stat_def
    set_tcp_nonblocking_def set_tcp_nodelay_def IOBound_new_def Buffer_new_def Let_def)

end
