(* ===== verification/Session.thy ===== *)
theory Session
  imports EndToEnd
begin

text \<open>
  A whole session: a client's blocking calls one after the other over one connection, each request read,
  queued, served and answered by the server while the client waits.  Between two calls the connection is
  \<open>quiet\<close>: nothing received is undelivered, nothing is queued, nothing is left to send.
\<close>

section \<open>Reading does not transmit\<close>

named_theorems sent_simps \<open>operations that hand nothing to the socket\<close>

lemma sent_ops [sent_simps]:
  "sent_bytes (set_ops_cancel_timeout cf c) = sent_bytes c"
  "sent_bytes (revoke_ops_cancel_timeout c) = sent_bytes c"
  "sent_bytes (sock_shutdown_and_close t c) = sent_bytes c"
  "sent_bytes (take_block n c) = sent_bytes c"
  "sent_bytes (snd (parse_header e cf c)) = sent_bytes c"
  "sent_bytes (snd (snd (parse_msg_body msg c))) = sent_bytes c"
  "sent_bytes (snd (async_send_message e cf msg c)) = sent_bytes c"
  by (simp_all add: sent_bytes_def set_ops_cancel_timeout_def revoke_ops_cancel_timeout_def sock_shutdown_and_close_def
    take_block_def parse_header_def parse_msg_body_def case_prod_beta Let_def async_send_message_frame)

lemma sent_async_read [sent_simps]:
  "sent_bytes (c\<lparr>socket := async_read op (socket c0)\<rparr>) = sent_bytes c0"
  "sent_bytes (c\<lparr>socket := (socket c0)\<lparr>sk_reads := ops\<rparr>, recv_bound := b\<rparr>) = sent_bytes c0"
  by (simp_all add: sent_bytes_def)

lemma sent_dispatcher [sent_simps]:
  "sent_bytes (the (snd (dispatcher_handle_RPC Q e cf r d (Some c)))) = sent_bytes c"
  using dispatcher_handle_RPC_sock [of Q e cf r d c] by (auto simp: sent_simps)

lemma do_read_sent [sent_simps]:
  fixes Q :: "'q EQueue"
  shows "sent_bytes (fst (snd (do_read Q e cf i c d))) = sent_bytes c"
    and "sent_bytes (fst (do_read_msg Q e cf i c d)) = sent_bytes c"
proof (induction Q e cf i c d and Q e cf i c d rule: do_read_do_read_msg.induct)
  case (1 Q e cf i c d)
  then show ?case by (subst do_read.simps) (auto simp: Let_def sent_simps)
next
  case (2 Q e cf i c d)
  then show ?case by (subst do_read_msg.simps) (auto simp: Let_def sent_simps)
qed

lemma io_read_ok_sent: "sent_bytes (fst (io_read_ok Q e cf i chunk s)) = sent_bytes (fst s)"
  by (auto simp: io_read_ok_def read_handler_def read_msg_handler_def case_prod_beta Let_def sent_simps
    split: list.split read_op.split)

lemma feed_all_sent: "sent_bytes (fst (feed_all (io_read_ok Q e cf i) chunks s)) = sent_bytes (fst s)"
  by (induction chunks arbitrary: s) (simp_all add: io_read_ok_sent)

section \<open>Sending does not disturb the reader\<close>

lemma srv_waiting_frame:
  assumes "srv_waiting cf (c, d)" "send_inv cf c'" "conn_stat c' = conn_stat c" "was_cancelled c' = was_cancelled c"
    and "recv_bound c' = recv_bound c" "sk_reads (socket c') = sk_reads (socket c)"
  shows "srv_waiting cf (c', d')" and "srv_residue e (c', d') = srv_residue e (c, d)"
proof -
  show "srv_waiting cf (c', d')" using assms by (simp add: srv_waiting_def recv_data_def Let_def)
  show "srv_residue e (c', d') = srv_residue e (c, d)"
    by (simp only: srv_residue_def fst_conv recv_data_def assms(5,6))
qed

lemma io_write_ok_recv:
  assumes "send_inv cf c"
  shows "recv_bound (io_write_ok cf c) = recv_bound c \<and> sk_reads (socket (io_write_ok cf c)) = sk_reads (socket c)"
proof (cases "send_status c = kSendDone")
  case True
  then show ?thesis using assms by (simp add: io_write_ok_idle)
next
  case False
  then show ?thesis
    using assms by (simp add: io_write_ok_busy SendStatus_neq_iff do_write_frame) (simp add: finish_block_def)
qed

lemma io_writes_waiting:
  assumes "srv_waiting cf (c, d)"
  shows "srv_waiting cf ((io_write_ok cf ^^ n) c, d) \<and> srv_residue e ((io_write_ok cf ^^ n) c, d) = srv_residue e (c, d)"
proof (induction n)
  case 0
  then show ?case using assms by simp
next
  case (Suc n)
  let ?c = "(io_write_ok cf ^^ n) c"
  have inv: "send_inv cf ?c" using Suc by (simp add: srv_waiting_def Let_def)
  show ?case
    using srv_waiting_frame(1) [where cf = cf and c = ?c and c' = "io_write_ok cf ?c" and d = d and d' = d]
      srv_waiting_frame(2) [where cf = cf and c = ?c and c' = "io_write_ok cf ?c" and d = d and d' = d and e = e] io_write_ok_recv [OF inv] io_write_ok_stream [OF inv] Suc
    by simp
qed

section \<open>One request and its answer\<close>

definition quiet :: "endian \<Rightarrow> NetConf \<Rightarrow> ('q \<Rightarrow> RpcInstance list) \<Rightarrow> u16 set \<Rightarrow> TcpConn \<times> 'q Dispatcher \<Rightarrow> bool" where
  "quiet e cf contents ids s \<longleftrightarrow> srv_waiting cf s \<and> srv_residue e s = [] \<and> send_backlog (fst s) = [] \<and>
     service_ids (snd s) = ids \<and> (\<forall>sid. queue_of contents (snd s) sid = [])"

text \<open>
  The server's side of one call: the chunks of the request are read, a worker of the service takes a turn,
  and the writes complete until nothing is left.
\<close>

definition server_turn ::
  "(bytes \<Rightarrow> XtraReadOps_Request option) \<Rightarrow> (XtraReadOps_Response \<Rightarrow> bytes) \<Rightarrow> 'q EQueue \<Rightarrow> endian \<Rightarrow> NetConf \<Rightarrow> nat \<Rightarrow>
    u16 \<Rightarrow> bytes list \<Rightarrow> TcpConn \<times> 'q Dispatcher \<Rightarrow> TcpConn \<times> 'q Dispatcher" where
  "server_turn unmarshal marshal Q e cf i sid ins s =
     (let (c, d) = serve_one unmarshal marshal Q e cf sid (feed_all (io_read_ok Q e cf i) ins s)
      in ((io_write_ok cf ^^ length (send_backlog c)) c, d))"

lemma serve_one_dispatcher:
  "service_ids (snd (serve_one unmarshal marshal Q e cf sid (c, d))) = service_ids d"
  "sid' \<noteq> sid \<Longrightarrow> queue_of contents (snd (serve_one unmarshal marshal Q e cf sid (c, d))) sid' = queue_of contents d sid'"
  by (auto simp: serve_one_def service_ids_def queue_of_def case_prod_beta Let_def smap.find_put
    split: option.split worker_turn.split if_splits)

text \<open>After its request was read: the queue holds it, and the connection has nothing to send.\<close>

lemma quiet_request_read:
  fixes Q :: "'q EQueue"
  assumes Q: "fifo_queue Q contents" and quiet: "quiet es cf contents ids s" and sid: "sid \<in> ids"
    and p: "payload \<noteq> []" "length (request_payload ec sid op payload) < 2 ^ 32"
      "header_ok cf (m_header (Message_of (request_payload ec sid op payload)))"
    and ins: "concat ins = Message_net_str ec (Message_of (request_payload ec sid op payload))"
      "reads_ok srv_need (srv_residue es) (io_read_ok Q es cf i) ins s"
    and s1: "s1 = feed_all (io_read_ok Q es cf i) ins s"
  shows "srv_waiting cf s1" and "srv_residue es s1 = []" and "send_live cf (fst s1)" and "send_backlog (fst s1) = []"
    and "sent_bytes (fst s1) = sent_bytes (fst s)" and "service_ids (snd s1) = ids"
    and "queue_of contents (snd s1) sid' =
      (if sid' = sid then [queued_instance es i (request_payload ec sid op payload)] else [])"
proof -
  let ?p = "request_payload ec sid op payload"
  have ids: "service_ids (snd s) = ids" and q: "queue_of contents (snd s) sid' = []"
    and w: "srv_waiting cf s" "srv_residue es s = []" "send_backlog (fst s) = []"
    using quiet by (simp_all add: quiet_def)
  have route: "route_of es ?p ids = Enqueue sid" using p(1) sid by (rule request_payload_route)
  have ps: "concat ins = concat (map (\<lambda>p. Message_net_str ec (Message_of p)) [?p])"
    "\<forall>q \<in> set [?p]. length q < 2 ^ 32 \<and> header_ok cf (m_header (Message_of q))"
    using ins(1) p(2,3) by simp_all
  note fed = srv_read.feed_all_messages [OF w(1,2) ins(2) ps, folded s1]
  show "srv_waiting cf s1" and "srv_residue es s1 = []" by (fact fed)+
  show sent: "sent_bytes (fst s1) = sent_bytes (fst s)" by (simp add: s1 feed_all_sent)
  have world: "srv_world s = (snd s, sent_bytes (fst s))" using w(3) by (simp add: srv_world_def)
  note proj = srv_world_proj [OF fed(1), unfolded world]
  show "queue_of contents (snd s1) sid' = (if sid' = sid then [queued_instance es i ?p] else [])"
    using proj srv_deliver_queue [OF p(2) Q, of es cf i "(snd s, sent_bytes (fst s))" sid'] ids q route by simp
  show "service_ids (snd s1) = ids"
    using proj srv_deliver_ids [OF p(2), of Q es cf i "(snd s, sent_bytes (fst s))"] ids by simp
  have "snd (fold (srv_deliver Q es cf i) [?p] (snd s, sent_bytes (fst s))) = sent_bytes (fst s)"
    using srv_deliver_all(2) [of "[?p]" Q contents es cf i "(snd s, sent_bytes (fst s))"] Q p(2) ids route
    by (simp add: refusal_bytes_def)
  then show bl: "send_backlog (fst s1) = []" using proj sent by simp
  show "send_live cf (fst s1)"
    using fed(2) bl by (simp add: send_live_def srv_waiting_def send_backlog_def Let_def)
qed

text \<open>The answer is transmitted in full, and the connection is quiet again.\<close>

lemma server_turn_answers:
  fixes Q :: "'q EQueue"
  assumes Q: "fifo_queue Q contents" and quiet: "quiet es cf contents ids s" and sid: "sid \<in> ids"
    and p: "payload \<noteq> []" "length (request_payload ec sid op payload) < 2 ^ 32"
      "header_ok cf (m_header (Message_of (request_payload ec sid op payload)))"
    and ins: "concat ins = Message_net_str ec (Message_of (request_payload ec sid op payload))"
      "reads_ok srv_need (srv_residue es) (io_read_ok Q es cf i) ins s"
    and answer: "msg = service_answer unmarshal marshal es (queued_instance es i (request_payload ec sid op payload))"
      "send_accepts cf msg" "sizeof_Header + length (m_payload msg) < 2 ^ 32"
  shows "quiet es cf contents ids (server_turn unmarshal marshal Q es cf i sid ins s)"
    and "sent_bytes (fst (server_turn unmarshal marshal Q es cf i sid ins s)) = sent_bytes (fst s) @ Message_net_str es msg"
proof -
  obtain c1 d1 where s1: "feed_all (io_read_ok Q es cf i) ins s = (c1, d1)" by fastforce
  note read = quiet_request_read [OF Q quiet sid p ins refl, unfolded s1 fst_conv snd_conv]
  obtain c2 d2 where s2: "serve_one unmarshal marshal Q es cf sid (c1, d1) = (c2, d2)" by fastforce
  have c2: "c2 = snd (async_send_message es cf msg c1)" and q2: "queue_of contents d2 sid = []"
    using serve_one_pops [OF Q, of d1 sid _ "[]" unmarshal marshal es cf c1] read(7) [of sid] answer(1) s2 by simp_all
  have d2: "service_ids d2 = ids" "queue_of contents d2 sid' = []" for sid'
    using serve_one_dispatcher [where c = c1 and d = d1 and sid = sid and unmarshal = unmarshal and marshal = marshal and Q = Q
        and e = es and cf = cf] s2 read(6,7) q2 by (cases "sid' = sid"; simp)+
  have inv1: "send_inv cf c1" using read(3) by (simp add: send_live_def)
  have inv2: "send_inv cf c2" unfolding c2 by (rule async_send_message_stream(1) [OF inv1])
  have wait2: "srv_waiting cf (c2, d2)" "srv_residue es (c2, d2) = []"
    using srv_waiting_frame(1) [OF read(1) inv2, where d' = d2] srv_waiting_frame(2) [OF read(1) inv2, where d' = d2] read(2)
    by (simp_all add: c2 async_send_message_frame)
  let ?n = "length (send_backlog c2)"
  have bl2: "send_backlog c2 = Message_net_str es msg"
    using async_send_message_stream(2) [OF inv1, of es msg] read(4) answer(2) by (simp add: c2)
  have live2: "send_live cf c2"
    using do_write_live [of cf "push_message es msg c1"] inv1 read(3,4) answer(2,3)
    by (simp add: c2 async_send_message_eq push_message_stream)
      (simp add: send_live_def push_message_def Buffer_append_data send_backlog_def)
  have sent2: "sent_bytes c2 = sent_bytes (fst s)" using read(5) by (simp add: c2 sent_simps)
  have turn: "server_turn unmarshal marshal Q es cf i sid ins s = ((io_write_ok cf ^^ ?n) c2, d2)"
    by (simp add: server_turn_def s1 s2)
  show "sent_bytes (fst (server_turn unmarshal marshal Q es cf i sid ins s)) = sent_bytes (fst s) @ Message_net_str es msg"
    using srv_send.drained(2) [OF live2 order_refl] by (simp add: turn sent2 bl2)
  show "quiet es cf contents ids (server_turn unmarshal marshal Q es cf i sid ins s)"
    using srv_send.drained(1) [OF live2 order_refl] io_writes_waiting [OF wait2(1), of ?n es] wait2(2) d2
    by (simp add: quiet_def turn)
qed

section \<open>The session\<close>

text \<open>
  One call of a session: service, opcode and body of the request, the chunks in which it reaches the server,
  and the chunks in which the answer reaches the client.
\<close>

type_synonym session_call = "u16 \<times> u16 \<times> bytes \<times> bytes list \<times> bytes list"

fun session ::
  "(bytes \<Rightarrow> XtraReadOps_Request option) \<Rightarrow> (XtraReadOps_Response \<Rightarrow> bytes) \<Rightarrow> 'q EQueue \<Rightarrow> endian \<Rightarrow> endian \<Rightarrow> NetConf \<Rightarrow>
    nat \<Rightarrow> nat \<Rightarrow> session_call list \<Rightarrow> TcpConn \<times> 'q Dispatcher \<Rightarrow> RpcClientImpl \<Rightarrow>
    ((RpcClientStatus \<times> bytes) list \<times> (TcpConn \<times> 'q Dispatcher) \<times> RpcClientImpl) option" where
  "session unmarshal marshal Q es ec cf i n [] s r = Some ([], s, r)"
| "session unmarshal marshal Q es ec cf i n ((sid, op, payload, ins, outs) # calls) s r =
     (let s' = server_turn unmarshal marshal Q es cf i sid ins s
      in case call_RPC_sync ec None True sid op payload [] 0 (replicate n (False, None)) (good_reads outs) r of
           None \<Rightarrow> None
         | Some (st, resp, _, _, r') \<Rightarrow>
             map_option (\<lambda>(results, fin). ((st, resp) # results, fin))
               (session unmarshal marshal Q es ec cf i n calls s' r'))"

text \<open>
  The network does its part: the chunks a side receives are what the other side transmitted, cut in
  pieces of at most 2048 bytes, each at least what the server's read asked for.
\<close>

fun session_cuts ::
  "(bytes \<Rightarrow> XtraReadOps_Request option) \<Rightarrow> (XtraReadOps_Response \<Rightarrow> bytes) \<Rightarrow> 'q EQueue \<Rightarrow> endian \<Rightarrow> endian \<Rightarrow> NetConf \<Rightarrow>
    nat \<Rightarrow> session_call list \<Rightarrow> TcpConn \<times> 'q Dispatcher \<Rightarrow> bool" where
  "session_cuts unmarshal marshal Q es ec cf i [] s = True"
| "session_cuts unmarshal marshal Q es ec cf i ((sid, op, payload, ins, outs) # calls) s =
     (let s' = server_turn unmarshal marshal Q es cf i sid ins s
      in concat ins = Message_net_str ec (request_frame ec sid op payload) \<and>
         reads_ok srv_need (srv_residue es) (io_read_ok Q es cf i) ins s \<and>
         concat outs = drop (length (sent_bytes (fst s))) (sent_bytes (fst s')) \<and>
         (\<forall>ch \<in> set outs. length ch \<le> kFixedIoBufferSize) \<and>
         session_cuts unmarshal marshal Q es ec cf i calls s')"

text \<open>A call both sides accept, to a known service, whose answer is a reply with the given body.\<close>

definition call_answered ::
  "(bytes \<Rightarrow> XtraReadOps_Request option) \<Rightarrow> (XtraReadOps_Response \<Rightarrow> bytes) \<Rightarrow> endian \<Rightarrow> endian \<Rightarrow> NetConf \<Rightarrow> RpcClientSetting \<Rightarrow>
    u16 set \<Rightarrow> nat \<Rightarrow> nat \<Rightarrow> session_call \<Rightarrow> bytes \<Rightarrow> bool" where
  "call_answered unmarshal marshal es ec cf cs ids i n call body =
     (case call of (sid, op, payload, _, _) \<Rightarrow>
        sid \<in> ids \<and> payload \<noteq> [] \<and> request_fits ec cs n (sid, op, payload) \<and>
        header_ok cf (m_header (request_frame ec sid op payload)) \<and>
        service_answer unmarshal marshal es (queued_instance es i (request_payload ec sid op payload)) = reply_frame es sid op body \<and>
        send_accepts cf (reply_frame es sid op body) \<and>
        sizeof_Header + sizeof_RpcResponseHeader + length body < 2 ^ 32 \<and>
        client_header_ok cs (m_header (reply_frame es sid op body)))"

definition session_bytes :: "endian \<Rightarrow> session_call \<Rightarrow> bytes" where
  "session_bytes ec call = (case call of (sid, op, payload, _, _) \<Rightarrow> Message_net_str ec (request_frame ec sid op payload))"

lemma session_bytes_simp [simp]:
  "session_bytes ec (sid, op, payload, ins, outs) = Message_net_str ec (request_frame ec sid op payload)"
  by (simp add: session_bytes_def)

text \<open>One call of a session: the server's turn, and the client's call that gets its bytes.\<close>

lemma session_call:
  fixes Q :: "'q EQueue"
  assumes Q: "fifo_queue Q contents" and quiet: "quiet es cf contents ids s" and ready: "call_ready r []"
    and ans: "call_answered unmarshal marshal es ec cf (client_setting r) ids i n (sid, op, payload, ins, outs) body"
    and ins: "concat ins = Message_net_str ec (request_frame ec sid op payload)"
      "reads_ok srv_need (srv_residue es) (io_read_ok Q es cf i) ins s"
    and s': "s' = server_turn unmarshal marshal Q es cf i sid ins s"
    and outs: "concat outs = drop (length (sent_bytes (fst s))) (sent_bytes (fst s'))"
      "\<forall>ch \<in> set outs. length ch \<le> kFixedIoBufferSize"
  shows "quiet es cf contents ids s'"
    and "\<exists>k left r'. call_RPC_sync ec None True sid op payload [] 0 (replicate n (False, None)) (good_reads outs) r =
        Some (RpcClientStatus.OK, body, replicate k (False, None), good_reads left, r') \<and>
      wire_sent r' = wire_sent r @ Message_net_str ec (request_frame ec sid op payload) \<and> call_ready r' [] \<and>
      client_setting r' = client_setting r"
proof -
  let ?q = "RpcResponseMessage_net_str es (RpcResponseMessage_of sid op body)"
  have frame: "request_frame ec sid op payload = Message_of (request_payload ec sid op payload)"
    by (simp add: request_frame_def request_payload_def)
  have a: "sid \<in> ids" "payload \<noteq> []" "header_ok cf (m_header (request_frame ec sid op payload))"
    "service_answer unmarshal marshal es (queued_instance es i (request_payload ec sid op payload)) = reply_frame es sid op body"
    "send_accepts cf (reply_frame es sid op body)" "sizeof_Header + sizeof_RpcResponseHeader + length body < 2 ^ 32"
    "client_header_ok (client_setting r) (m_header (reply_frame es sid op body))"
    and fits: "client_accepts (client_setting r) (request_frame ec sid op payload)"
    "sizeof_Header + sizeof_RpcRequestHeader + length payload < 2 ^ 32"
    "sizeof_Header + sizeof_RpcRequestHeader + length payload \<le> n * kFixedIoBufferSize"
    using ans by (simp_all add: call_answered_def request_fits_def)
  have plen: "length (request_payload ec sid op payload) < 2 ^ 32" using fits(2) by (simp add: request_payload_def)
  have small: "sizeof_Header + length (m_payload (reply_frame es sid op body)) < 2 ^ 32"
    using a(6) by (simp add: reply_frame_def)
  note turn = server_turn_answers [OF Q quiet a(1,2) plen a(3) [unfolded frame] ins(1) [unfolded frame] ins(2)
      a(4) [symmetric] a(5) small, folded s']
  show "quiet es cf contents ids s'" by (fact turn(1))
  have out: "concat outs = Message_net_str es (Message_of ?q)" using outs(1) turn(2) by (simp add: reply_frame_def)
  have "frames ec (client_header_ok (client_setting r)) ([] @ concat outs) = (?q # [], [], True)"
    unfolding out append_Nil by (rule reply_frames) (use a(6,7) in \<open>simp_all add: reply_frame_def\<close>)
  moreover have "length ([] :: bytes) + length (concat outs) < 2 ^ 32" using a(6) by (simp add: out)
  ultimately show "\<exists>k left r'. call_RPC_sync ec None True sid op payload [] 0 (replicate n (False, None)) (good_reads outs) r =
        Some (RpcClientStatus.OK, body, replicate k (False, None), good_reads left, r') \<and>
      wire_sent r' = wire_sent r @ Message_net_str ec (request_frame ec sid op payload) \<and> call_ready r' [] \<and>
      client_setting r' = client_setting r"
    using call_RPC_sync_answered [OF ready _ fits outs(2), of None ?q "[]" "[]" True True "[]" 0]
    by (auto simp: out check_response_reply)
qed

lemma session_answers:
  fixes Q :: "'q EQueue"
  assumes "fifo_queue Q contents" "quiet es cf contents ids s" "call_ready r []"
    and "session_cuts unmarshal marshal Q es ec cf i calls s"
    and "list_all2 (call_answered unmarshal marshal es ec cf (client_setting r) ids i n) calls bodies"
  shows "\<exists>s' r'. session unmarshal marshal Q es ec cf i n calls s r = Some (map (Pair RpcClientStatus.OK) bodies, s', r') \<and>
    quiet es cf contents ids s' \<and> call_ready r' [] \<and> wire_sent r' = wire_sent r @ concat (map (session_bytes ec) calls)"
  using assms(2-5)
proof (induction calls arbitrary: s r bodies)
  case Nil
  then show ?case by simp
next
  case (Cons call calls)
  obtain sid op payload ins outs where call: "call = (sid, op, payload, ins, outs)" by (cases call)
  obtain body bodies' where bodies: "bodies = body # bodies'" using Cons.prems(4) by (auto simp: list_all2_Cons1)
  let ?s' = "server_turn unmarshal marshal Q es cf i sid ins s"
  have this_call: "call_answered unmarshal marshal es ec cf (client_setting r) ids i n (sid, op, payload, ins, outs) body"
    and rest: "list_all2 (call_answered unmarshal marshal es ec cf (client_setting r) ids i n) calls bodies'"
    using Cons.prems(4) by (simp_all add: bodies call)
  have cuts: "concat ins = Message_net_str ec (request_frame ec sid op payload)"
    "reads_ok srv_need (srv_residue es) (io_read_ok Q es cf i) ins s"
    "concat outs = drop (length (sent_bytes (fst s))) (sent_bytes (fst ?s'))"
    "\<forall>ch \<in> set outs. length ch \<le> kFixedIoBufferSize" "session_cuts unmarshal marshal Q es ec cf i calls ?s'"
    using Cons.prems(3) by (simp_all add: call Let_def)
  note one = session_call [OF assms(1) Cons.prems(1,2) this_call cuts(1,2) refl cuts(3,4)]
  obtain k left r1 where r1:
      "call_RPC_sync ec None True sid op payload [] 0 (replicate n (False, None)) (good_reads outs) r =
        Some (RpcClientStatus.OK, body, replicate k (False, None), good_reads left, r1)"
      "wire_sent r1 = wire_sent r @ Message_net_str ec (request_frame ec sid op payload)" "call_ready r1 []"
      "client_setting r1 = client_setting r"
    using one(2) by blast
  obtain s2 r2 where "session unmarshal marshal Q es ec cf i n calls ?s' r1 = Some (map (Pair RpcClientStatus.OK) bodies', s2, r2)"
      "quiet es cf contents ids s2" "call_ready r2 []" "wire_sent r2 = wire_sent r1 @ concat (map (session_bytes ec) calls)"
    using Cons.IH [OF one(1) r1(3) cuts(5) rest [folded r1(4)]] by blast
  then show ?case using r1(1,2) by (simp add: call bodies)
qed

text \<open>A connection that was just accepted, in front of empty queues, is quiet.\<close>

lemma started_quiet:
  fixes Q :: "'q EQueue"
  assumes "sk_reads sock = []" "sk_writes sock = []" "\<forall>sid. queue_of contents d sid = []"
  shows "quiet e cf contents (service_ids d) (TcpConn_start Q e cf i (TcpConn_new ok sock) d)"
proof -
  let ?s = "TcpConn_start Q e cf i (TcpConn_new ok sock) d"
  note start = TcpConn_start_waiting [OF assms(1,2), where Q = Q and e = e and cf = cf and i = i and ok = ok and d = d, OF refl]
  have "sent_bytes (fst ?s) = sk_sent sock"
    by (simp add: TcpConn_start_def sent_simps) (simp add: sent_bytes_def TcpConn_new_def set_conn_stat_def
      set_tcp_nonblocking_def set_tcp_nodelay_def Let_def)
  with srv_world_proj [OF start(3)] assms(3) start(1,2) show ?thesis by (simp add: quiet_def)
qed

text \<open>A network that delivers every frame in one piece cuts well, if the frames fit the block.\<close>

definition whole_frames :: "endian \<Rightarrow> endian \<Rightarrow> u16 \<times> u16 \<times> bytes \<Rightarrow> bytes \<Rightarrow> session_call" where
  "whole_frames es ec call body =
     (case call of (sid, op, payload) \<Rightarrow>
        (sid, op, payload, [Message_net_str ec (request_frame ec sid op payload)], [Message_net_str es (reply_frame es sid op body)]))"

lemma session_cuts_whole_frames:
  fixes Q :: "'q EQueue"
  assumes "fifo_queue Q contents" "quiet es cf contents ids s"
    and "list_all2 (call_answered unmarshal marshal es ec cf cs ids i n) (map2 (whole_frames es ec) calls bodies) bodies"
    and "\<forall>(sid, op, payload) \<in> set calls. sizeof_Header + sizeof_RpcRequestHeader + length payload \<le> 2048"
    and "\<forall>body \<in> set bodies. sizeof_Header + sizeof_RpcResponseHeader + length body \<le> 2048" "length calls = length bodies"
  shows "session_cuts unmarshal marshal Q es ec cf i (map2 (whole_frames es ec) calls bodies) s"
  using assms(6,2-5)
proof (induction calls bodies arbitrary: s rule: list_induct2)
  case Nil
  then show ?case by simp
next
  case (Cons call calls body bodies)
  obtain sid op payload where call: "call = (sid, op, payload)" by (cases call)
  let ?ch = "Message_net_str ec (request_frame ec sid op payload)"
  let ?s' = "server_turn unmarshal marshal Q es cf i sid [?ch] s"
  have frame: "request_frame ec sid op payload = Message_of (request_payload ec sid op payload)"
    by (simp add: request_frame_def request_payload_def)
  have "call_answered unmarshal marshal es ec cf cs ids i n (whole_frames es ec call body) body"
    using Cons.prems(2) by simp
  then have ans: "sid \<in> ids" "payload \<noteq> []" "header_ok cf (m_header (request_frame ec sid op payload))"
    "service_answer unmarshal marshal es (queued_instance es i (request_payload ec sid op payload)) = reply_frame es sid op body"
    "send_accepts cf (reply_frame es sid op body)" "sizeof_Header + sizeof_RpcResponseHeader + length body < 2 ^ 32"
    by (simp_all add: call whole_frames_def call_answered_def)
  have len: "sizeof_Header + sizeof_RpcRequestHeader + length payload \<le> 2048" "sizeof_Header + sizeof_RpcResponseHeader + length body \<le> 2048"
    using Cons.prems(3,4) by (simp_all add: call)
  have waiting: "srv_waiting cf s" "srv_residue es s = []" using Cons.prems(1) by (simp_all add: quiet_def)
  have reads: "reads_ok srv_need (srv_residue es) (io_read_ok Q es cf i) [?ch] s"
    by (rule waiting_reads_single [OF waiting]) (use len(1) in \<open>simp_all add: request_frame_def\<close>)
  have small: "sizeof_Header + length (m_payload (reply_frame es sid op body)) < 2 ^ 32"
    "length (request_payload ec sid op payload) < 2 ^ 32"
    using ans(6) len(1) by (simp_all add: reply_frame_def request_payload_def)
  note turn = server_turn_answers [OF assms(1) Cons.prems(1) ans(1,2) small(2) ans(3) [unfolded frame] _ reads
      ans(4) [symmetric] ans(5) small(1)]
  have turn': "quiet es cf contents ids ?s'" "sent_bytes (fst ?s') = sent_bytes (fst s) @ Message_net_str es (reply_frame es sid op body)"
    using turn by (simp_all add: frame)
  have "length (Message_net_str es (reply_frame es sid op body)) \<le> kFixedIoBufferSize"
    using len(2) by (simp add: reply_frame_def kFixedIoBufferSize_def)
  then show ?case
    using Cons.IH [OF turn'(1)] Cons.prems(2-4) reads turn'(2)
    by (simp add: call whole_frames_def Let_def del: reads_ok.simps)
qed

end
