(* ===== verification/ConnSafety.thy ===== *)
theory ConnSafety
  imports NetServer
begin

text \<open>
  No fault on a server connection: over any interleaving of reads, writes, errors, timer expiries and
  replies, handled one after the other as the connection's strand does, no assertion fails, no raw copy
  leaves its block, and neither fixed block is ever used by two operations at once.
\<close>

definition io_frame :: "NetConf \<Rightarrow> TcpConn \<Rightarrow> bool" where
  "io_frame cf c \<longleftrightarrow>
     sane c \<and> length (io_block (send_bound c)) = kFixedIoBufferSize \<and>
     length (io_block (recv_bound c)) = kFixedIoBufferSize \<and>
     length (sk_writes (socket c)) \<le> 1 \<and> (\<forall>n \<in> set (sk_writes (socket c)). 0 < n \<and> n \<le> kFixedIoBufferSize) \<and>
     (send_status c = kSendDone \<longrightarrow> sk_writes (socket c) = []) \<and>
     (ops_cancel_time_out cf = 0 \<longrightarrow> ops_cancel_timer c = None)"

text \<open>Between two handlers a working connection is idle only when there is nothing to send.\<close>

definition send_done :: "TcpConn \<Rightarrow> bool" where
  "send_done c \<longleftrightarrow> (conn_stat c = kWorking \<and> \<not> was_cancelled c \<and> send_status c = kSendDone \<longrightarrow>
     get_length (io_buffer (send_bound c)) = 0)"

definition io_core :: "NetConf \<Rightarrow> TcpConn \<Rightarrow> bool" where
  "io_core cf c \<longleftrightarrow> io_frame cf c \<and> send_done c"

definition io_safe :: "NetConf \<Rightarrow> TcpConn \<Rightarrow> bool" where
  "io_safe cf c \<longleftrightarrow> io_core cf c \<and> length (sk_reads (socket c)) \<le> 1"

lemmas io_core_defs = io_core_def io_frame_def send_done_def

lemma io_core_start_block:
  assumes "io_frame cf c" "send_status c = kSendDone" "n \<le> length (buf_data (io_buffer (send_bound c)))"
    "0 < n" "n \<le> kFixedIoBufferSize"
  shows "io_core cf (start_block cf n c) \<and> sk_reads (socket (start_block cf n c)) = sk_reads (socket c)"
  using assms by (auto simp: io_core_defs start_block_def set_ops_cancel_timeout_def Let_def)

lemma io_core_do_write:
  assumes "io_frame cf c"
  shows "io_core cf (snd (do_write cf c)) \<and> sk_reads (socket (snd (do_write cf c))) = sk_reads (socket c)"
proof -
  let ?b = "io_buffer (send_bound c)"
  show ?thesis
  proof (cases "send_status c = kSendDone \<and> conn_stat c = kWorking \<and> \<not> was_cancelled c \<and> get_length ?b \<noteq> 0")
    case True
    then have "snd (do_write cf c) = start_block cf (min (unat (get_length ?b)) kFixedIoBufferSize) c"
      using assms by (subst do_write_starts) (auto simp: io_frame_def)
    moreover have "0 < min (unat (get_length ?b)) kFixedIoBufferSize"
      using True by (simp add: unat_gt_0 kFixedIoBufferSize_def)
    ultimately show ?thesis
      using True io_core_start_block [OF assms, of "min (unat (get_length ?b)) kFixedIoBufferSize"]
        get_length_unat [of ?b] by simp
  next
    case False
    then have "snd (do_write cf c) = c" "send_done c"
      by (auto simp: do_write_def get_conn_stat_def was_ops_cancelled_def send_done_def)
    then show ?thesis using assms by (simp add: io_core_defs)
  qed
qed

lemma io_core_send:
  assumes "io_core cf c"
  shows "io_core cf (snd (async_send_message e cf msg c)) \<and>
    sk_reads (socket (snd (async_send_message e cf msg c))) = sk_reads (socket c)"
proof -
  have "io_frame cf (push_message e msg c)" using assms by (simp add: io_core_def io_frame_def push_message_def)
  from io_core_do_write [OF this] show ?thesis
    using assms by (simp add: async_send_message_eq push_message_def)
qed

lemma io_core_dispatched:
  assumes "io_core cf c" "sk_reads (socket c) = []"
  shows "io_core cf (the (snd (dispatcher_handle_RPC Q e cf r d (Some c)))) \<and>
    sk_reads (socket (the (snd (dispatcher_handle_RPC Q e cf r d (Some c))))) = []"
  using dispatcher_handle_RPC_sock [of Q e cf r d c] io_core_send [OF assms(1)] assms by auto

lemma io_core_simps [simp]:
  "io_core cf c \<Longrightarrow> io_core cf (sock_shutdown_and_close t c)"
  "sk_reads (socket (sock_shutdown_and_close t c)) = sk_reads (socket c)"
  "sk_writes (socket (sock_shutdown_and_close t c)) = sk_writes (socket c)"
  "io_core cf (snd (parse_header e cf' c)) = io_core cf c"
  "io_core cf (snd (snd (parse_msg_body msg c))) = io_core cf c"
  "sk_reads (socket (snd (parse_header e cf' c))) = sk_reads (socket c)"
  "sk_reads (socket (snd (snd (parse_msg_body msg c)))) = sk_reads (socket c)"
  by (simp_all add: io_core_defs sock_shutdown_and_close_def parse_header_def parse_msg_body_def case_prod_beta Let_def)

lemma io_core_armed:
  assumes "io_core cf c" "sk_reads (socket c) = []"
  shows "io_safe cf ((set_ops_cancel_timeout cf c)\<lparr>socket := async_read op (socket (set_ops_cancel_timeout cf c))\<rparr>)"
  using assms by (auto simp: io_safe_def io_core_defs set_ops_cancel_timeout_def)

lemma io_safe_idle: "io_core cf c \<Longrightarrow> sk_reads (socket c) = [] \<Longrightarrow> io_safe cf c"
  by (simp add: io_safe_def)

lemma io_core_do_read:
  fixes Q :: "'q EQueue"
  shows "io_core cf c \<Longrightarrow> sk_reads (socket c) = [] \<Longrightarrow> io_safe cf (fst (snd (do_read Q e cf i c d)))"
    and "io_core cf c \<Longrightarrow> sk_reads (socket c) = [] \<Longrightarrow> io_safe cf (fst (do_read_msg Q e cf i c d))"
proof (induction Q e cf i c d and Q e cf i c d rule: do_read_do_read_msg.induct)
  case (1 Q e cf i c d)
  then show ?case
    using io_core_armed [of cf c]
    by (subst do_read.simps) (auto simp: Let_def io_safe_def)
next
  case (2 Q e cf i c d)
  let ?b = "parse_msg_body Message_default c"
  let ?h = "dispatcher_handle_RPC Q e cf (instance_of i (m_payload (fst (snd ?b)))) d (Some (snd (snd ?b)))"
  consider "get_conn_stat c \<noteq> kWorking \<or> was_ops_cancelled c"
    | "get_conn_stat c = kWorking" "\<not> was_ops_cancelled c"
      "get_length (io_buffer (recv_bound c)) < h_length (io_header (recv_bound c))"
    | "get_conn_stat c = kWorking" "\<not> was_ops_cancelled c"
      "\<not> get_length (io_buffer (recv_bound c)) < h_length (io_header (recv_bound c))"
    by blast
  then show ?case
  proof cases
    case 1
    then show ?thesis using 2(3,4) by (auto simp: do_read_msg.simps io_safe_def)
  next
    case 2
    then show ?thesis using io_core_armed [OF "2.prems"] by (simp add: do_read_msg.simps Let_def)
  next
    case 3
    have ret: "fst ?b = 0" using 3(3) parse_msg_body_eq [of c Message_default] by simp
    have "io_core cf (snd (snd ?b))" "sk_reads (socket (snd (snd ?b))) = []" using "2.prems" by simp_all
    then have h: "io_core cf (the (snd ?h))" "sk_reads (socket (the (snd ?h))) = []"
      using io_core_dispatched by blast+
    have "io_safe cf (fst (snd (do_read Q e cf i (the (snd ?h)) (fst ?h))))"
      by (rule "2.IH"(1) [OF _ _ 3(3) refl refl refl ret refl h]) (use 3 in simp_all)
    then show ?thesis using 3 ret by (simp add: do_read_msg.simps [of Q e cf i c d] Let_def)
  qed
qed

lemma io_core_handlers:
  assumes "io_core cf c" "sk_reads (socket c) = []" "ec = None \<Longrightarrow> 0 < n \<and> n \<le> kFixedIoBufferSize"
  shows "io_safe cf (fst (read_handler Q e cf i ec n c d))" and "io_safe cf (fst (read_msg_handler Q e cf i ec n c d))"
proof -
  let ?c0 = "revoke_ops_cancel_timeout c"
  let ?c1 = "take_block n ?c0"
  let ?b = "parse_msg_body Message_default ?c1"
  have c0: "io_core cf ?c0" "sk_reads (socket ?c0) = []"
    using assms(1,2) by (simp_all add: io_core_defs revoke_ops_cancel_timeout_def)
  then have err: "io_safe cf (snd (handle_socket_ec x ?c0))" for x
    by (simp add: handle_socket_ec_def io_safe_def ops_cancel_def sock_cancel_def set_conn_stat_def Let_def)
      (simp add: io_core_defs revoke_ops_cancel_timeout_def sock_shutdown_and_close_def)
  have c1: "io_core cf ?c1" "sk_reads (socket ?c1) = []" if "ec = None"
    using c0 assms(3) [OF that] by (simp_all add: io_core_defs take_block_def)
  show "io_safe cf (fst (read_handler Q e cf i ec n c d))"
    using err c1 by (cases ec) (simp_all add: read_handler_def case_prod_beta Let_def io_core_do_read io_safe_idle)
  have b: "io_core cf (snd (snd ?b))" "sk_reads (socket (snd (snd ?b))) = []" if "ec = None"
    using c1 [OF that] by simp_all
  show "io_safe cf (fst (read_msg_handler Q e cf i ec n c d))"
  proof (cases ec)
    case None
    note b = b [OF None]
    show ?thesis
      using None b by (simp add: read_msg_handler_def case_prod_beta Let_def io_core_do_read io_core_dispatched io_safe_idle)
  qed (use err in \<open>simp add: read_msg_handler_def Let_def\<close>)
qed


lemma io_safe_reads:
  assumes "io_safe cf c"
  shows "0 < length chunk \<Longrightarrow> length chunk \<le> kFixedIoBufferSize \<Longrightarrow>
      io_safe cf (fst (io_read_ok Q e cf i chunk (c, d)))"
    and "io_safe cf (fst (io_read_error Q e cf i err n (c, d)))"
proof -
  have pop: "ops = []" if "sk_reads (socket c) = op # ops" for op ops
    using assms that by (simp add: io_safe_def)
  show "io_safe cf (fst (io_read_ok Q e cf i chunk (c, d)))"
    if "0 < length chunk" "length chunk \<le> kFixedIoBufferSize"
  proof (cases "sk_reads (socket c)")
    case (Cons op ops)
    have "io_core cf (c\<lparr>socket := (socket c)\<lparr>sk_reads := []\<rparr>,
        recv_bound := (recv_bound c)\<lparr>io_block := blit chunk (io_block (recv_bound c))\<rparr>\<rparr>)"
      using assms that(2) by (simp add: io_safe_def io_core_defs)
    then show ?thesis
      using Cons pop [OF Cons] that by (cases op) (simp_all add: io_read_ok_def io_core_handlers)
  qed (use assms in \<open>simp add: io_read_ok_def\<close>)
  show "io_safe cf (fst (io_read_error Q e cf i err n (c, d)))"
  proof (cases "sk_reads (socket c)")
    case (Cons op ops)
    have "io_core cf (c\<lparr>socket := (socket c)\<lparr>sk_reads := []\<rparr>\<rparr>)"
      using assms by (simp add: io_safe_def io_core_defs)
    then show ?thesis
      using Cons pop [OF Cons] by (cases op) (auto simp: io_read_error_def intro!: io_core_handlers)
  qed (use assms in \<open>simp add: io_read_error_def\<close>)
qed

lemma io_safe_handle_ec: "io_safe cf c \<Longrightarrow> io_safe cf (snd (handle_socket_ec err c))"
  by (simp add: handle_socket_ec_def io_safe_def ops_cancel_def sock_cancel_def set_conn_stat_def Let_def)
    (simp add: io_core_defs revoke_ops_cancel_timeout_def sock_shutdown_and_close_def)

lemma io_safe_writes:
  assumes "io_safe cf c"
  shows "io_safe cf (io_write_ok cf c)" and "io_safe cf (io_write_error cf err k c)"
proof -
  have pop: "ns = [] \<and> 0 < n" if "sk_writes (socket c) = n # ns" for n ns
    using assms that by (simp add: io_safe_def io_core_defs)
  show "io_safe cf (io_write_ok cf c)"
  proof (cases "sk_writes (socket c)")
    case (Cons n ns)
    let ?c = "(revoke_ops_cancel_timeout (c\<lparr>socket := (socket c)\<lparr>sk_writes := [],
      sk_sent := sk_sent (socket c) @ take n (io_block (send_bound c))\<rparr>\<rparr>))\<lparr>send_status := kSendDone\<rparr>"
    have "io_frame cf ?c" "sk_reads (socket ?c) = sk_reads (socket c)"
      using assms by (simp_all add: io_safe_def io_core_defs revoke_ops_cancel_timeout_def)
    from io_core_do_write [OF this(1)] this(2) have "io_safe cf (snd (do_write cf ?c))"
      using assms by (simp add: io_safe_def)
    moreover have "io_write_ok cf c = snd (do_write cf ?c)"
      using Cons pop [OF Cons] assms
      by (simp add: io_write_ok_def write_handler_def revoke_ops_cancel_timeout_def io_safe_def io_core_defs Let_def)
    ultimately show ?thesis by simp
  qed (use assms in \<open>simp add: io_write_ok_def\<close>)
  show "io_safe cf (io_write_error cf err k c)"
  proof (cases "sk_writes (socket c)")
    case (Cons n ns)
    let ?c = "revoke_ops_cancel_timeout (c\<lparr>socket := (socket c)\<lparr>sk_writes := [],
      sk_sent := sk_sent (socket c) @ take (min k n) (io_block (send_bound c))\<rparr>\<rparr>)"
    have "io_safe cf ?c" using assms by (simp add: io_safe_def io_core_defs revoke_ops_cancel_timeout_def)
    then show ?thesis
      using Cons pop [OF Cons] io_safe_handle_ec by (simp add: io_write_error_def write_handler_def Let_def)
  qed (use assms in \<open>simp add: io_write_error_def\<close>)
qed

lemma io_safe_timer: "io_safe cf c \<Longrightarrow> io_safe cf (io_timer c)" "io_safe cf c \<Longrightarrow> io_safe cf (io_late_timer cf c)"
  by (auto simp: io_timer_def io_late_timer_def ops_cancel_timeout_call_def io_safe_def split: option.split nat.split)
    (auto simp: io_core_defs ops_cancel_def sock_cancel_def set_conn_stat_def sock_shutdown_and_close_def Let_def)

lemma io_safe_step:
  assumes "conn_step Q e cf i (c, d) (c', d')" "io_safe cf c"
  shows "io_safe cf c'"
  using assms(1)
proof (rule conn_stepE)
  fix msg
  assume "c' = snd (async_send_message e cf msg c)"
  then show ?thesis using io_core_send [of cf c e msg] assms(2) by (simp add: io_safe_def)
qed (use assms(2) io_safe_reads io_safe_writes io_safe_timer in \<open>metis fst_conv length_greater_0_conv\<close>)+

lemma io_safe_start:
  assumes "sk_reads sock = []" "sk_writes sock = []"
  shows "io_safe cf (fst (TcpConn_start Q e cf i (TcpConn_new ok sock) d))"
  unfolding TcpConn_start_def
  by (rule io_core_do_read)
    (use assms in \<open>simp_all add: io_core_defs TcpConn_new_def set_conn_stat_def set_tcp_nonblocking_def
      set_tcp_nodelay_def IOBound_new_def Buffer_new_def get_length_def u32_of_size_def Let_def\<close>)

text \<open>
  C17.  A connection never faults: from its start on, in every order of completed reads and writes, errors,
  timer expiries and replies, no assertion fails and no copy leaves its 2048-byte block, at most one read
  and at most one write are outstanding (so no two operations share a block), every outstanding write is
  within the block, and an idle send status means that no write is outstanding.
\<close>

theorem connection_never_faults:
  assumes "sk_reads sock = []" "sk_writes sock = []"
    and "(conn_step Q e cf i)\<^sup>*\<^sup>* (TcpConn_start Q e cf i (TcpConn_new ok sock) d0) (c, d)"
  shows "sane c \<and> length (sk_reads (socket c)) \<le> 1 \<and> length (sk_writes (socket c)) \<le> 1 \<and>
    (\<forall>n \<in> set (sk_writes (socket c)). 0 < n \<and> n \<le> length (io_block (send_bound c))) \<and>
    length (io_block (send_bound c)) = kFixedIoBufferSize \<and> length (io_block (recv_bound c)) = kFixedIoBufferSize \<and>
    (send_status c = kSendDone \<longrightarrow> sk_writes (socket c) = [])"
proof -
  have "io_safe cf c" if "(conn_step Q e cf i)\<^sup>*\<^sup>* s (c, d)" "io_safe cf (fst s)" for s
    using that
  proof (induction rule: converse_rtranclp_induct)
    case base
    then show ?case by simp
  next
    case (step s s')
    then show ?case using io_safe_step [of Q e cf i "fst s" "snd s" "fst s'" "snd s'"] by simp
  qed
  from this [OF assms(3) io_safe_start [OF assms(1,2)]] show ?thesis
    by (auto simp: io_safe_def io_core_defs)
qed


theorem connection_never_faults_witness:
  "sane (snd (async_send_message Big NetConf_default (Message_of [1])
      (fst (TcpConn_start (undefined :: nat EQueue) Big NetConf_default 0 (TcpConn_new True socket_connected) Dispatcher_new))))"
proof -
  let ?s = "TcpConn_start (undefined :: nat EQueue) Big NetConf_default 0 (TcpConn_new True socket_connected) Dispatcher_new"
  have "conn_step (undefined :: nat EQueue) Big NetConf_default 0 (fst ?s, snd ?s)
      (snd (async_send_message Big NetConf_default (Message_of [1]) (fst ?s)), snd ?s)"
    by (rule conn_step.Reply)
  then have "(conn_step (undefined :: nat EQueue) Big NetConf_default 0)\<^sup>*\<^sup>* ?s
      (snd (async_send_message Big NetConf_default (Message_of [1]) (fst ?s)), snd ?s)"
    by (metis prod.collapse r_into_rtranclp)
  from connection_never_faults [OF _ _ this] show ?thesis by (simp add: socket_connected_def)
qed

end
