(* ===== verification/ServerProperties.thy ===== *)
theory ServerProperties
  imports Samples "HOL-Library.Sublist"
begin

text \<open>
  Properties of the server's settings, of its admission control, of its connections over time and of
  the process start-up, with small concrete configurations as examples.
\<close>

section \<open>Settings\<close>

text \<open>A configuration with an address, a port, a speed limit and a concurrency limit.\<close>

definition demo_config :: "int \<Rightarrow> int \<Rightarrow> config" where
  "demo_config speed limit =
     \<lparr>cfg_string = (\<lambda>k. if k = ''rpc.network.bind_addr'' then Some ''0.0.0.0'' else None),
      cfg_int = (\<lambda>k. if k = ''rpc.network.bind_port'' then Some 8434
                     else if k = ''rpc.network.service_speed'' then Some speed
                     else if k = ''rpc.network.service_concurrency'' then Some limit else None),
      cfg_bool = (\<lambda>k. None)\<rparr>"

definition demo_conf :: "int \<Rightarrow> int \<Rightarrow> NetConf" where
  "demo_conf speed limit = NetConf_default\<lparr>bind_addr := ''0.0.0.0'', bind_port := 8434,
     service_speed := speed, service_concurrency := limit\<rparr>"

lemma demo_load:
  assumes "0 \<le> speed" "0 \<le> limit"
  shows "load_conf split trim (demo_config speed limit) NetConf_default = (True, demo_conf speed limit)"
  using assms
  by (simp add: load_conf_def load_conf_steps_def demo_config_def demo_conf_def lookupValue_def NetConf_default_def)

text \<open>
  C22.  Settings that were loaded successfully are usable: address and port are there, every count, time
  and limit is in its range, no empty address is on the safe list; and loading, successful or not,
  changes neither the tokens in the bucket nor the feed timer.
\<close>

theorem settings_valid:
  assumes "'''' \<notin> safe_ip c"
  shows "(fst (load_conf split trim cfg c) \<longrightarrow> netconf_valid (snd (load_conf split trim cfg c))) \<and>
    service_token (snd (load_conf split trim cfg c)) = service_token c \<and>
    timed_feed_token (snd (load_conf split trim cfg c)) = timed_feed_token c"
  using load_conf_valid [of split trim cfg c "snd (load_conf split trim cfg c)"] assms
    load_conf_keeps_bucket [of split trim cfg c]
  by (cases "load_conf split trim cfg c") simp

theorem settings_valid_witness: "netconf_valid (demo_conf 10 3)"
  using settings_valid [of NetConf_default "\<lambda>s. [s]" "\<lambda>s. s" "demo_config 10 3"] demo_load [of 10 3 "\<lambda>s. [s]" "\<lambda>s. s"]
  by (simp add: NetConf_default_def)

section \<open>The rate limit\<close>

lemma token_run_bound:
  assumes "0 < service_speed c" "0 \<le> service_token c"
  shows "int (fst (token_run evs c)) \<le> service_token c + service_speed c * int (length (filter (\<lambda>ev. ev = Feed) evs))"
  using assms
proof (induction evs arbitrary: c)
  case Nil
  then show ?case by simp
next
  case (Cons ev evs)
  show ?case
  proof (cases ev)
    case Acquire
    show ?thesis
      using Cons.IH [of c] Cons.IH [of "c\<lparr>service_token := service_token c - 1\<rparr>"] Cons.prems Acquire
      by (auto simp: get_service_token_def case_prod_beta Let_def)
  next
    case Feed
    then show ?thesis
      using Cons.IH [of "feed_service_token c"] Cons.prems
      by (simp add: feed_service_token_def case_prod_beta Let_def algebra_simps)
  qed
qed

text \<open>
  C23.  The rate limit: with a speed limit set, whatever the order of accepts and feeds, at most as many
  connections get a token as the bucket held plus the speed for every feed; and without a feed in between,
  \<open>n\<close> requests get exactly what the bucket holds, as far as there are requests, or nothing when the service
  is disabled.
\<close>

theorem rate_limit:
  assumes "0 < service_speed c" "0 \<le> service_token c"
  shows "int (fst (token_run evs c)) \<le> service_token c + service_speed c * int (length (filter (\<lambda>ev. ev = Feed) evs)) \<and>
    int (fst (token_run (replicate n Acquire) c)) = (if service_enabled c then min (int n) (service_token c) else 0)"
  using token_run_bound [OF assms] token_run_acquires [of c n] assms by simp

theorem rate_limit_witness:
  "fst (token_run (replicate 5 Acquire) ((demo_conf 3 0)\<lparr>service_token := 3\<rparr>)) = 3"
  using rate_limit [of "(demo_conf 3 0)\<lparr>service_token := 3\<rparr>" "[]" 5]
  by (simp add: demo_conf_def NetConf_default_def)

text \<open>
  C24.  Changing the speed limit of a running server to another non-zero value breaks the feed timer: the
  handler of the replaced timer's wait, which does not look at its error code, aborts the wait that was just
  armed, and so on; for every number of rounds the next aborted wait is already due, and every round fills
  the bucket, with no second in between.
\<close>

theorem speed_change_spins:
  assumes "load_conf split trim cfg NetConf_default = (True, conf)"
    and "feeding (net_conf ns)" "service_speed conf \<noteq> 0" "service_speed conf \<noteq> service_speed (net_conf ns)"
  shows "\<exists>cf'. feed_spin (Suc n) (net_conf (snd (net_module_runtime split trim cfg ns))) = Some cf' \<and>
    ft_aborted (timed_feed_token cf') = 1 \<and> service_token cf' = service_speed conf"
proof -
  have "service_speed (net_conf (snd (net_module_runtime split trim cfg ns))) = service_speed conf"
    by (rule net_module_runtime_eq(5) [OF assms(1)])
  then show ?thesis
    using feed_spin_forever [OF net_module_runtime_spins [OF assms], of n] by (auto simp: spinning_def)
qed

theorem speed_change_spins_witness:
  "\<exists>cf'. feed_spin 1000 (net_conf (snd (net_module_runtime (\<lambda>s. [s]) (\<lambda>s. s) (demo_config 20 0)
      ((NetServer_new ''s'')\<lparr>net_conf := start_feed_timer (demo_conf 10 0)\<rparr>)))) = Some cf' \<and>
    service_token cf' = 20"
proof -
  let ?ns = "(NetServer_new ''s'')\<lparr>net_conf := start_feed_timer (demo_conf 10 0)\<rparr>"
  have "load_conf (\<lambda>s. [s]) (\<lambda>s. s) (demo_config 20 0) NetConf_default = (True, demo_conf 20 0)"
    by (rule demo_load) simp_all
  moreover have "feeding (net_conf ?ns)"
    by (simp add: feeding_def start_feed_timer_def demo_conf_def NetConf_default_def timer_defs feed_timer_null_def)
  moreover have "service_speed (demo_conf 20 0) = 20" "service_speed (net_conf ?ns) = 10"
    by (simp_all add: demo_conf_def start_feed_timer_def)
  ultimately show ?thesis
    using speed_change_spins [of "\<lambda>s. [s]" "\<lambda>s. s" "demo_config 20 0" "demo_conf 20 0" ?ns 999]
    by (auto simp: eval_nat_numeral simp del: feed_spin.simps)
qed


section \<open>A closed connection\<close>

text \<open>The reads and writes outstanding on a connection's socket, oldest first.\<close>

definition outstanding :: "TcpConn \<Rightarrow> read_op list \<times> nat list" where
  "outstanding c = (sk_reads (socket c), sk_writes (socket c))"

lemma do_write_closed: "conn_stat c = kClosed \<Longrightarrow> snd (do_write cf c) = c"
  by (simp add: do_write_def get_conn_stat_def)

lemma async_send_message_closed:
  "conn_stat c = kClosed \<Longrightarrow> socket (snd (async_send_message e cf msg c)) = socket c"
  by (simp add: async_send_message_def do_write_closed Let_def)

lemma do_read_closed:
  "conn_stat c = kClosed \<Longrightarrow> do_read Q e cf i c d = (False, c, d)"
  "conn_stat c = kClosed \<Longrightarrow> do_read_msg Q e cf i c d = (c, d)"
  by (simp_all add: do_read.simps do_read_msg.simps get_conn_stat_def)

lemma parse_socket [simp]:
  "socket (snd (parse_header e cf c)) = socket c"
  "socket (snd (snd (parse_msg_body msg c))) = socket c"
  by (simp_all add: parse_header_def parse_msg_body_def case_prod_beta Let_def)

lemma shut_socket [simp]:
  "outstanding (sock_shutdown_and_close t c) = outstanding c"
  "outstanding (snd (ops_cancel c)) = outstanding c"
  "outstanding (snd (handle_socket_ec err c)) = outstanding c"
  by (simp_all add: outstanding_def sock_shutdown_and_close_def ops_cancel_def sock_cancel_def set_conn_stat_def
    handle_socket_ec_def revoke_ops_cancel_timeout_def Let_def)

lemma dispatched_closed:
  assumes "conn_stat c = kClosed"
  shows "socket (the (snd (dispatcher_handle_RPC Q e cf r d (Some c)))) = socket c"
  using dispatcher_handle_RPC_sock [of Q e cf r d c] async_send_message_closed [OF assms] by auto

lemma read_handler_closed:
  assumes "conn_stat c = kClosed"
  shows "outstanding (fst (read_handler Q e cf i ec n c d)) = outstanding c"
    and "outstanding (fst (read_msg_handler Q e cf i ec n c d)) = outstanding c"
proof -
  let ?c1 = "take_block n (revoke_ops_cancel_timeout c)"
  let ?b = "parse_msg_body Message_default ?c1"
  have c1: "conn_stat ?c1 = kClosed" "outstanding ?c1 = outstanding c" "outstanding (revoke_ops_cancel_timeout c) = outstanding c"
    using assms by (simp_all add: outstanding_def take_block_def revoke_ops_cancel_timeout_def)
  have h: "conn_stat (snd (parse_header e cf ?c1)) = kClosed"
    "outstanding (snd (parse_header e cf ?c1)) = outstanding c"
    using c1 parse_frame_stat(1) [of e cf ?c1] by (simp_all add: outstanding_def)
  then show "outstanding (fst (read_handler Q e cf i ec n c d)) = outstanding c"
    using c1 by (cases ec) (simp_all add: read_handler_def case_prod_beta Let_def do_read_closed)
  have m: "conn_stat (snd (snd ?b)) = kClosed" "outstanding (snd (snd ?b)) = outstanding c"
    using c1 parse_frame_stat(2) [of Message_default ?c1] by (simp_all add: outstanding_def)
  have "conn_stat (the (snd (dispatcher_handle_RPC Q e cf r d (Some (snd (snd ?b)))))) = kClosed"
    "outstanding (the (snd (dispatcher_handle_RPC Q e cf r d (Some (snd (snd ?b)))))) = outstanding c" for r
    using m dispatched_closed [OF m(1), of Q e cf r d] dispatcher_handle_RPC_stat [of Q e cf r d "snd (snd ?b)"]
    by (simp_all add: outstanding_def)
  with m c1 show "outstanding (fst (read_msg_handler Q e cf i ec n c d)) = outstanding c"
    by (cases ec) (simp_all add: read_msg_handler_def case_prod_beta Let_def do_read_closed)
qed

lemma io_read_closed:
  assumes "conn_stat c = kClosed"
  shows "outstanding (fst (io_read_ok Q e cf i chunk (c, d))) = (tl (sk_reads (socket c)), sk_writes (socket c))"
    and "outstanding (fst (io_read_error Q e cf i err n (c, d))) = (tl (sk_reads (socket c)), sk_writes (socket c))"
proof -
  show "outstanding (fst (io_read_ok Q e cf i chunk (c, d))) = (tl (sk_reads (socket c)), sk_writes (socket c))"
  proof (cases "sk_reads (socket c)")
    case (Cons op ops)
    let ?c1 = "c\<lparr>socket := (socket c)\<lparr>sk_reads := ops\<rparr>,
      recv_bound := (recv_bound c)\<lparr>io_block := blit chunk (io_block (recv_bound c))\<rparr>\<rparr>"
    have "conn_stat ?c1 = kClosed" using assms by simp
    then have "outstanding (fst (io_read_ok Q e cf i chunk (c, d))) = outstanding ?c1"
      using Cons by (cases op) (simp_all add: io_read_ok_def read_handler_closed)
    then show ?thesis using Cons by (simp add: outstanding_def)
  qed (simp add: io_read_ok_def outstanding_def)
  show "outstanding (fst (io_read_error Q e cf i err n (c, d))) = (tl (sk_reads (socket c)), sk_writes (socket c))"
  proof (cases "sk_reads (socket c)")
    case (Cons op ops)
    let ?c1 = "c\<lparr>socket := (socket c)\<lparr>sk_reads := ops\<rparr>\<rparr>"
    have "conn_stat ?c1 = kClosed" using assms by simp
    then have "outstanding (fst (io_read_error Q e cf i err n (c, d))) = outstanding ?c1"
      using Cons by (cases op) (simp_all add: io_read_error_def read_handler_closed)
    then show ?thesis using Cons by (simp add: outstanding_def)
  qed (simp add: io_read_error_def outstanding_def)
qed

lemma write_handler_closed:
  assumes "conn_stat c = kClosed"
  shows "outstanding (write_handler cf ec n c) = outstanding c"
proof (cases ec)
  case None
  then show ?thesis
    using assms by (simp add: write_handler_def do_write_closed outstanding_def revoke_ops_cancel_timeout_def Let_def)
next
  case (Some err)
  have "outstanding (revoke_ops_cancel_timeout c) = outstanding c"
    by (simp add: outstanding_def revoke_ops_cancel_timeout_def)
  then show ?thesis using Some by (simp add: write_handler_def Let_def)
qed

lemma io_write_closed:
  assumes "conn_stat c = kClosed"
  shows "outstanding (io_write_ok cf c) = (sk_reads (socket c), tl (sk_writes (socket c)))"
    and "outstanding (io_write_error cf err n c) = (sk_reads (socket c), tl (sk_writes (socket c)))"
  using assms
  by (simp_all add: io_write_ok_def io_write_error_def write_handler_closed split: list.split)
    (simp_all add: outstanding_def)

lemma io_timer_closed: "outstanding (io_timer c) = outstanding c" "outstanding (io_late_timer cf c) = outstanding c"
  by (auto simp: io_timer_def io_late_timer_def ops_cancel_timeout_call_def split: option.split nat.split)
    (simp_all add: outstanding_def)

text \<open>
  The only way an outstanding operation of a closed connection goes away is that it, the oldest one, completes;
  none is ever added.
\<close>

lemma conn_step_closed:
  assumes "conn_step Q e cf i (c, d) (c', d')" "conn_stat c = kClosed"
  shows "conn_stat c' = kClosed \<and> suffix (sk_reads (socket c')) (sk_reads (socket c)) \<and>
    suffix (sk_writes (socket c')) (sk_writes (socket c))"
proof -
  have "outstanding c' \<in> {outstanding c, (tl (sk_reads (socket c)), sk_writes (socket c)),
      (sk_reads (socket c), tl (sk_writes (socket c)))}"
    using assms(1)
  proof (rule conn_stepE)
    fix chunk
    assume "(c', d') = io_read_ok Q e cf i chunk (c, d)"
    then show ?thesis using io_read_closed(1) [OF assms(2), of Q e cf i chunk d] by (metis fst_conv insertCI)
  next
    fix err n
    assume "(c', d') = io_read_error Q e cf i err n (c, d)"
    then show ?thesis using io_read_closed(2) [OF assms(2), of Q e cf i err n d] by (metis fst_conv insertCI)
  next
    fix msg
    assume "c' = snd (async_send_message e cf msg c)"
    then show ?thesis using async_send_message_closed [OF assms(2), of e cf msg] by (simp add: outstanding_def)
  qed (simp_all add: io_write_closed [OF assms(2)] io_timer_closed)
  then have "suffix (sk_reads (socket c')) (sk_reads (socket c)) \<and> suffix (sk_writes (socket c')) (sk_writes (socket c))"
    by (auto simp: outstanding_def suffix_tl)
  then show ?thesis using conn_step_stat [OF assms(1)] assms(2) by (auto simp: stat_step_def)
qed


lemma conn_steps_closed:
  assumes "(conn_step Q e cf i)\<^sup>*\<^sup>* (c, d) (c', d')" "conn_stat c = kClosed"
  shows "conn_stat c' = kClosed" and "suffix (sk_reads (socket c')) (sk_reads (socket c))"
    and "suffix (sk_writes (socket c')) (sk_writes (socket c))"
proof -
  have "conn_stat c' = kClosed \<and> suffix (sk_reads (socket c')) (sk_reads (socket c)) \<and>
      suffix (sk_writes (socket c')) (sk_writes (socket c))"
    using assms(1)
  proof (induction rule: rtranclp_induct2)
    case refl
    then show ?case using assms(2) by simp
  next
    case (step c1 d1 c2 d2)
    have one: "conn_stat c2 = kClosed \<and> suffix (sk_reads (socket c2)) (sk_reads (socket c1)) \<and>
        suffix (sk_writes (socket c2)) (sk_writes (socket c1))"
      by (rule conn_step_closed [OF step.hyps(2)]) (use step.IH in simp)
    show ?case
      using one step.IH
        suffix_order.trans [of "sk_reads (socket c2)" "sk_reads (socket c1)" "sk_reads (socket c)"]
        suffix_order.trans [of "sk_writes (socket c2)" "sk_writes (socket c1)" "sk_writes (socket c)"]
      by simp
  qed
  then show "conn_stat c' = kClosed" "suffix (sk_reads (socket c')) (sk_reads (socket c))"
    "suffix (sk_writes (socket c')) (sk_writes (socket c))" by simp_all
qed

text \<open>
  C19.  A closed connection stays closed and starts no further read or write: whatever happens to it, it
  keeps the state, and its outstanding reads and writes are what is left of those it had when it was closed.
  At every later moment a read that completes or fails is taken off the list and no read is armed in its
  place, a write that completes or fails is not followed by another, and the timer, a late expiry and the
  replies of workers start neither, so that the connection is released when the outstanding ones are done.
\<close>

theorem closed_for_good:
  assumes "(conn_step Q e cf i)\<^sup>*\<^sup>* (c, d) (c', d')" "conn_stat c = kClosed"
  shows "conn_stat c' = kClosed \<and> suffix (sk_reads (socket c')) (sk_reads (socket c)) \<and>
    suffix (sk_writes (socket c')) (sk_writes (socket c)) \<and>
    outstanding (fst (io_read_ok Q e cf i chunk (c', d'))) = (tl (sk_reads (socket c')), sk_writes (socket c')) \<and>
    outstanding (fst (io_read_error Q e cf i err n (c', d'))) = (tl (sk_reads (socket c')), sk_writes (socket c')) \<and>
    outstanding (io_write_ok cf c') = (sk_reads (socket c'), tl (sk_writes (socket c'))) \<and>
    outstanding (io_write_error cf err n c') = (sk_reads (socket c'), tl (sk_writes (socket c'))) \<and>
    outstanding (io_timer c') = outstanding c' \<and> outstanding (io_late_timer cf c') = outstanding c' \<and>
    socket (snd (async_send_message e cf msg c')) = socket c'"
proof -
  note run = conn_steps_closed [OF assms]
  show ?thesis
    by (intro conjI run io_read_closed [OF run(1)] io_write_closed [OF run(1)] async_send_message_closed [OF run(1)]
      io_timer_closed)
qed

text \<open>A connection that was closed while a read was outstanding.\<close>

definition demo_closed :: TcpConn where
  "demo_closed = sock_shutdown_and_close kShutBoth (TcpConn_new True (async_read (ReadHead 4) socket_connected))"

theorem closed_for_good_witness:
  "sk_reads (socket demo_closed) = [ReadHead 4] \<and> suffix (sk_reads (socket (io_timer demo_closed))) [ReadHead 4] \<and>
    fst (outstanding (fst (io_read_ok (undefined :: nat EQueue) Big NetConf_default 0 [0] (io_timer demo_closed, Dispatcher_new)))) =
      tl (sk_reads (socket (io_timer demo_closed)))"
proof -
  have "(conn_step (undefined :: nat EQueue) Big NetConf_default 0)\<^sup>*\<^sup>*
      (demo_closed, Dispatcher_new) (io_timer demo_closed, Dispatcher_new)"
    by (rule r_into_rtranclp) (rule conn_step.Timer)
  moreover have "conn_stat demo_closed = kClosed" by (simp add: demo_closed_def)
  moreover have "sk_reads (socket demo_closed) = [ReadHead 4]"
    by (simp add: demo_closed_def sock_shutdown_and_close_def TcpConn_new_def set_conn_stat_def set_tcp_nonblocking_def
      set_tcp_nodelay_def async_read_def socket_connected_def Let_def)
  ultimately show ?thesis
    using closed_for_good [of "undefined :: nat EQueue" Big NetConf_default 0 demo_closed Dispatcher_new] by simp
qed

section \<open>Admission\<close>

text \<open>
  C18.  A server that was initialised and put into service, whatever clients, connections and timers do
  next (between updates of its settings): exactly one accept is pending, the connection counter equals the
  number of connections, which carry different numbers and are each working or closed, and with a
  concurrency limit set there are at most one more connections than the limit.
\<close>

theorem server_safe:
  assumes "net_init split trim addr_ok init_threads setting (NetServer_new name) = Some (True, ns0)"
    and "net_service True ns0 = Some ns1" and "(net_step Q e)\<^sup>*\<^sup>* (ns1, d1) (ns, d)"
  shows "accepts ns = 1 \<and> current_concurrency ns = int (length (conns ns)) \<and> distinct (map fst (conns ns)) \<and>
    (\<forall>(i, c) \<in> set (conns ns). conn_stat c = kWorking \<or> conn_stat c = kClosed) \<and>
    (service_concurrency (net_conf ns0) \<noteq> 0 \<longrightarrow> int (length (conns ns)) \<le> service_concurrency (net_conf ns0) + 1)"
proof -
  note init = net_init_inv [OF assms(1,2)]
  have inv: "net_inv ns" "concurrency_inv (service_concurrency (net_conf ns0)) ns"
    using net_steps_inv [OF assms(3)] init(1,2) by auto
  then have len: "current_concurrency ns = int (length (conns ns))" by (simp add: net_inv_def conn_ids_def)
  have "service_concurrency (net_conf ns0) \<noteq> 0 \<longrightarrow> int (length (conns ns)) \<le> service_concurrency (net_conf ns0) + 1"
    using inv(2) by (simp add: concurrency_inv_def flip: len)
  then show ?thesis using inv(1) by (simp add: net_inv_def conn_ids_def stats_ok_def)
qed

text \<open>The demo server after start-up.\<close>

definition demo_server :: "int \<Rightarrow> int \<Rightarrow> NetServer" where
  "demo_server speed limit = (NetServer_new ''s'')\<lparr>
     net_conf := (if speed = 0 then demo_conf speed limit else start_feed_timer (demo_conf speed limit)),
     ns_endpoint := Some (''0.0.0.0'', 8434), io_threads := Some 1, ns_runtime_attached := True, ns_status_attached := True\<rparr>"

lemma demo_init:
  assumes "0 \<le> speed" "0 \<le> limit"
  shows "net_init split trim (\<lambda>a. True) (\<lambda>n. True) (demo_config speed limit) (NetServer_new ''s'') =
    Some (True, demo_server speed limit)"
proof -
  have "load_conf split trim (demo_config speed limit) (net_conf (NetServer_new ''s'')) = (True, demo_conf speed limit)"
    using demo_load [OF assms] by (simp add: NetServer_new_def)
  then show ?thesis
    by (simp add: net_init_def Let_def demo_server_def) (simp add: demo_conf_def NetConf_default_def)
qed

lemma demo_server_frame [simp]:
  "conns (demo_server speed limit) = []" "next_conn (demo_server speed limit) = 0"
  "current_concurrency (demo_server speed limit) = 0" "accepts (demo_server speed limit) = 0"
  "service_concurrency (net_conf (demo_server speed limit)) = limit"
  "safe_ip (net_conf (demo_server speed limit)) = {}" "service_enabled (net_conf (demo_server speed limit))"
  "service_speed (net_conf (demo_server speed limit)) = speed" "service_token (net_conf (demo_server speed limit)) = 0"
  by (simp_all add: demo_server_def NetServer_new_def demo_conf_def NetConf_default_def start_feed_timer_def)

theorem server_safe_witness:
  "accepts (fst (io_accept list_queue Big True None (Some ''10.0.0.1'') socket_connected (do_accept ((demo_server 0 3)\<lparr>io_started := True\<rparr>)) demo_dispatcher)) = 1"
proof -
  have service: "net_service True (demo_server 0 3) = Some (do_accept ((demo_server 0 3)\<lparr>io_started := True\<rparr>))"
    by (simp add: net_service_def)
  let ?s = "io_accept list_queue Big True None (Some ''10.0.0.1'') socket_connected (do_accept ((demo_server 0 3)\<lparr>io_started := True\<rparr>)) demo_dispatcher"
  have "(net_step list_queue Big)\<^sup>*\<^sup>* (do_accept ((demo_server 0 3)\<lparr>io_started := True\<rparr>), demo_dispatcher) (fst ?s, snd ?s)"
    using net_step.Accept [of list_queue Big "do_accept ((demo_server 0 3)\<lparr>io_started := True\<rparr>)" demo_dispatcher True None "Some ''10.0.0.1''" socket_connected]
    by auto
  from server_safe [OF demo_init [of 0 3 "\<lambda>s. [s]" "\<lambda>s. s"] service this] show ?thesis by simp
qed

text \<open>
  The concurrency limit is overrun by one: at the limit, the next peer that passes the other two
  checks is admitted, because the check refuses only above the limit.
\<close>

theorem limit_overrun:
  assumes "accepts ns = 1" "current_concurrency ns = int (length (conns ns))"
    and "service_concurrency (net_conf ns) = current_concurrency ns"
    and "check_safe_ip ip (net_conf ns)" "fst (get_service_token (net_conf ns))"
  shows "int (length (conns (fst (io_accept Q e ok None (Some ip) sock ns d)))) = service_concurrency (net_conf ns) + 1"
proof -
  have "service_concurrency (snd (get_service_token (net_conf ns))) = int (length (conns ns))"
    using assms(2,3) by (simp add: get_service_token_concurrency)
  then show ?thesis
    using assms by (simp add: io_accept_def accept_handler_def case_prod_beta Let_def TcpConn_create_def
      conn_update_def do_accept_def)
qed

theorem limit_overrun_witness:
  "length (conns (fst (io_accept list_queue Big True None (Some ''10.0.0.2'') socket_connected
      ((demo_server 0 1)\<lparr>accepts := 1, conns := [(0, TcpConn_new True socket_connected)], current_concurrency := 1\<rparr>) demo_dispatcher))) = 2"
  using limit_overrun [of "(demo_server 0 1)\<lparr>accepts := 1, conns := [(0, TcpConn_new True socket_connected)],
      current_concurrency := 1\<rparr>" "''10.0.0.2''" list_queue Big True socket_connected demo_dispatcher]
  by (simp add: check_safe_ip_def get_service_token_def)


section \<open>Errors and time limits\<close>

text \<open>
  Any error of a read or write other than \<open>operation_aborted\<close> closes the connection and dispatches
  nothing; an aborted operation on a connection that was not cancelled changes neither its state nor its
  socket.
\<close>

theorem errors_close:
  "(err \<noteq> operation_aborted \<longrightarrow>
      conn_stat (fst (read_handler Q e cf i (Some err) n c d)) = kClosed \<and>
      conn_stat (fst (read_msg_handler Q e cf i (Some err) n c d)) = kClosed \<and>
      conn_stat (write_handler cf (Some err) n c) = kClosed) \<and>
    (\<not> was_cancelled c \<longrightarrow>
      conn_stat (fst (read_handler Q e cf i (Some operation_aborted) n c d)) = conn_stat c \<and>
      socket (fst (read_handler Q e cf i (Some operation_aborted) n c d)) = socket c \<and>
      conn_stat (write_handler cf (Some operation_aborted) n c) = conn_stat c \<and>
      socket (write_handler cf (Some operation_aborted) n c) = socket c) \<and>
    snd (read_handler Q e cf i (Some err) n c d) = d \<and> snd (read_msg_handler Q e cf i (Some err) n c d) = d"
proof -
  have "err \<noteq> operation_aborted \<Longrightarrow> ec_closes err" by (cases err) simp_all
  then show ?thesis
    by (auto simp: read_handler_def read_msg_handler_def write_handler_def handle_socket_ec_def was_ops_cancelled_def
      revoke_ops_cancel_timeout_def Let_def)
qed

theorem errors_close_witness:
  "conn_stat (write_handler NetConf_default (Some eof) 0 (TcpConn_new True socket_connected)) = kClosed"
  using errors_close [of eof "undefined :: nat EQueue" Big NetConf_default 0 0 "TcpConn_new True socket_connected" Dispatcher_new]
  by simp

text \<open>
  With an operation time limit, a connection is guarded by its timer from its start: one wait is
  pending while it waits for the first header, and its expiry closes the connection for good.
\<close>

theorem idle_timeout:
  assumes "ops_cancel_time_out cf \<noteq> 0" "sk_reads sock = []" "sk_writes sock = []"
    and "c = fst (TcpConn_start Q e cf i (TcpConn_new ok sock) d)"
  shows "ops_cancel_timer c = Some 1 \<and> conn_stat c = kWorking \<and>
    conn_stat (io_timer c) = kClosed \<and> was_cancelled (io_timer c)"
proof -
  let ?c0 = "set_conn_stat kWorking (TcpConn_new ok sock)"
  have rdy: "read_ready cf ?c0" "length (recv_data ?c0) < sizeof_Header"
    using started_ready(1) [OF assms(2,3), of cf ok] started_ready(2) [OF assms(2,3), of ok]
    by (simp_all add: sizeof_Header_def)
  have timer: "ops_cancel_timer c = Some 1"
    using do_read_arms_timer [OF rdy assms(1), where Q = Q and e = e and i = i and d = d] by (simp add: assms(4) TcpConn_start_def)
  moreover have "conn_stat c = kWorking"
    using srv_stat(1) [OF TcpConn_start_waiting(1) [OF assms(2,3), where Q = Q and e = e and cf = cf and i = i
      and ok = ok and d = d, OF refl]] by (simp add: assms(4))
  ultimately show ?thesis using io_timer_closes [of c 0] by simp
qed

theorem idle_timeout_witness:
  "conn_stat (io_timer (fst (TcpConn_start (undefined :: nat EQueue) Big (NetConf_default\<lparr>ops_cancel_time_out := 5\<rparr>) 0
      (TcpConn_new True socket_connected) Dispatcher_new))) = kClosed"
  using idle_timeout [of "NetConf_default\<lparr>ops_cancel_time_out := 5\<rparr>" socket_connected, OF _ _ _ refl,
      where Q = "undefined :: nat EQueue"] by simp

text \<open>
  C25.  The read and the write of a connection share one timer, and the write's completion revokes it: when
  the last block of a reply has been sent, a connection that is waiting for the next request waits without
  a time limit, whatever limit is configured (only an expiry that was already queued, \<open>io_late_timer\<close>, can still
  end it).
\<close>

theorem reply_disarms_timeout:
  assumes "send_inv cf c" "send_status c = kSend" "buf_data (io_buffer (send_bound c)) = []"
  shows "ops_cancel_timer (io_write_ok cf c) = None \<and> io_timer (io_write_ok cf c) = io_write_ok cf c \<and>
    sk_reads (socket (io_write_ok cf c)) = sk_reads (socket c) \<and> conn_stat (io_write_ok cf c) = conn_stat c"
proof -
  have "get_length (io_buffer (send_bound (finish_block c))) = 0"
    using assms(3) by (simp add: finish_block_def get_length_def u32_of_size_def)
  moreover have "send_status (finish_block c) = kSendDone" by (simp add: finish_block_def)
  ultimately have "io_write_ok cf c = finish_block c"
    by (simp add: io_write_ok_busy [OF assms(1,2)] do_write_idle)
  then show ?thesis by (simp add: finish_block_def io_timer_def)
qed

definition replying_conn :: TcpConn where
  "replying_conn = (TcpConn_new True socket_connected)\<lparr>conn_stat := kWorking,
     socket := socket_connected\<lparr>sk_reads := [ReadHead 16], sk_writes := [20]\<rparr>, send_status := kSend,
     ops_cancel_timer := Some 1\<rparr>"

theorem reply_disarms_timeout_witness:
  "sk_reads (socket (io_write_ok (NetConf_default\<lparr>ops_cancel_time_out := 5\<rparr>) replying_conn)) = [ReadHead 16] \<and>
    ops_cancel_timer (io_write_ok (NetConf_default\<lparr>ops_cancel_time_out := 5\<rparr>) replying_conn) = None"
proof -
  have "send_inv (NetConf_default\<lparr>ops_cancel_time_out := 5\<rparr>) replying_conn" "send_status replying_conn = kSend"
    "buf_data (io_buffer (send_bound replying_conn)) = []"
    by (simp_all add: replying_conn_def send_inv_def TcpConn_new_def set_tcp_nonblocking_def set_tcp_nodelay_def
      IOBound_new_def Buffer_new_def kFixedIoBufferSize_def Let_def)
  from reply_disarms_timeout [OF this] show ?thesis by (simp add: replying_conn_def)
qed

lemma started_conn:
  assumes "ops_cancel_time_out cf \<noteq> 0"
  shows "fst (TcpConn_start Q e cf i (TcpConn_new ok sock) d) =
    (let c0 = set_conn_stat kWorking (TcpConn_new ok sock)
     in c0\<lparr>ops_cancel_timer := Some 1, socket := async_read (ReadHead sizeof_Header) (socket c0)\<rparr>)"
  using assms
  by (simp add: TcpConn_start_def do_read.simps set_ops_cancel_timeout_def get_conn_stat_def was_ops_cancelled_def
    TcpConn_new_def set_conn_stat_def set_tcp_nonblocking_def set_tcp_nodelay_def IOBound_new_def Buffer_new_def
    get_length_def u32_of_size_def sizeof_Header_def Let_def)

text \<open>
  C26.  Switching the operation time limit off at run time breaks the connections that are waiting: their
  timer is still armed, and the next reply on such a connection, which without the update would be sent,
  fails the assertion that there is no timer when there is no limit.
\<close>

theorem timeout_update_breaks_assertion:
  assumes "load_conf split trim cfg NetConf_default = (True, conf)" "ops_cancel_time_out conf = 0"
    and "ops_cancel_time_out (net_conf ns) \<noteq> 0"
    and "c = fst (TcpConn_start Q e (net_conf ns) i (TcpConn_new ok sock) d)"
    and "send_accepts (net_conf ns) msg" "length (Message_net_str e msg) < 2 ^ 32"
  shows "sane (snd (async_send_message e (net_conf ns) msg c)) \<and>
    \<not> sane (snd (async_send_message e (net_conf (snd (net_module_runtime split trim cfg ns))) msg c))"
proof -
  let ?cf = "net_conf (snd (net_module_runtime split trim cfg ns))"
  let ?p = "push_message e msg c"
  let ?n = "min (unat (get_length (io_buffer (send_bound ?p)))) kFixedIoBufferSize"
  note c = assms(4) [unfolded started_conn [OF assms(3)] Let_def]
  have data: "buf_data (io_buffer (send_bound ?p)) = Message_net_str e msg"
    by (simp add: c push_message_def Buffer_append_data TcpConn_new_def set_conn_stat_def set_tcp_nonblocking_def
      set_tcp_nodelay_def IOBound_new_def Buffer_new_def Let_def)
  have "Message_net_str e msg \<noteq> []"
    unfolding length_greater_0_conv [symmetric] by (simp add: Message_net_str_wire sizeof_Header_def)
  then have len: "get_length (io_buffer (send_bound ?p)) \<noteq> 0"
    using get_length_eq_0 [of "io_buffer (send_bound ?p)"] data assms(6) by simp
  have eq: "do_write cf ?p = (True, start_block cf ?n ?p)" for cf
    by (rule do_write_starts [OF _ _ _ _ len])
      (simp_all add: c push_message_def TcpConn_new_def set_conn_stat_def set_tcp_nonblocking_def
        set_tcp_nodelay_def IOBound_new_def Let_def)
  have sane: "sane (start_block cf ?n ?p) \<longleftrightarrow> ops_cancel_time_out cf \<noteq> 0" for cf
    by (simp add: c start_block_def set_ops_cancel_timeout_def push_message_def TcpConn_new_def set_conn_stat_def
      set_tcp_nonblocking_def set_tcp_nodelay_def Let_def)
  have "ops_cancel_time_out ?cf = 0" using net_module_runtime_eq [OF assms(1), of ns] assms(2) by simp
  moreover have "send_accepts ?cf msg"
    using net_module_runtime_eq(8) [OF assms(1), of ns] assms(5) by (simp add: send_accepts_def)
  ultimately show ?thesis using assms(3,5) sane by (simp add: async_send_message_eq eq)
qed

theorem timeout_update_breaks_assertion_witness:
  "\<not> sane (snd (async_send_message Big (net_conf (snd (net_module_runtime (\<lambda>s. [s]) (\<lambda>s. s) (demo_config 0 3)
      ((demo_server 0 3)\<lparr>net_conf := (demo_conf 0 3)\<lparr>ops_cancel_time_out := 5\<rparr>\<rparr>)))) (Message_of [1])
      (fst (TcpConn_start list_queue Big ((demo_conf 0 3)\<lparr>ops_cancel_time_out := 5\<rparr>) 0
        (TcpConn_new True socket_connected) demo_dispatcher))))"
proof -
  let ?ns = "(demo_server 0 3)\<lparr>net_conf := (demo_conf 0 3)\<lparr>ops_cancel_time_out := 5\<rparr>\<rparr>"
  have "load_conf (\<lambda>s. [s]) (\<lambda>s. s) (demo_config 0 3) NetConf_default = (True, demo_conf 0 3)" by (rule demo_load) simp_all
  moreover have "ops_cancel_time_out (demo_conf 0 3) = 0" by (simp add: demo_conf_def NetConf_default_def)
  moreover have "send_accepts (net_conf ?ns) (Message_of [1])"
    by (simp add: send_accepts_def demo_conf_def NetConf_default_def)
  ultimately show ?thesis
    using timeout_update_breaks_assertion [of "\<lambda>s. [s]" "\<lambda>s. s" "demo_config 0 3" "demo_conf 0 3" ?ns, OF _ _ _ refl,
        where msg = "Message_of [1]" and e = Big and Q = list_queue and i = 0 and ok = True and sock = socket_connected
          and d = demo_dispatcher]
    by (simp add: sizeof_Header_def)
qed

end
