(* ===== verification/Pool.thy ===== *)
theory Pool
  imports Executor "HOL-Library.Multiset"
begin

text \<open>
  The worker threads of an executor together: \<^verbatim>\<open>executor_service_run\<close> (\<^verbatim>\<open>source/RPC/Executor.cpp\<close>) run by
  several threads of the pool on one queue.  A thread is at the top of its loop, serves the request it took,
  or has left the loop.  The statuses it sees are the thread pool's choice; the pool may add threads, the
  dispatcher may push requests, writes on the connections complete, and connections are released, all at
  any time between two steps.  A call of the service is one step here (theory TcpConnRace looks inside the
  sending part of two such calls).
\<close>

datatype worker = AtTop | Serving RpcInstance | Left

type_synonym 'q pool = "worker list \<times> 'q Executor \<times> (nat \<Rightarrow> TcpConn option)"

fun after_turn :: "worker_turn \<Rightarrow> worker" where
  "after_turn Stop = Left"
| "after_turn Sleep = AtTop"
| "after_turn Again = AtTop"
| "after_turn (Handle r) = Serving r"

text \<open>
  \<open>pool_run \<dots> s ps rs s'\<close>: from \<open>s\<close> the pool can get to \<open>s'\<close>; meanwhile the requests \<open>ps\<close> were pushed and
  the requests \<open>rs\<close> were served, in these orders.
\<close>

inductive pool_run ::
  "'q EQueue \<Rightarrow> (bytes \<Rightarrow> XtraReadOps_Request option) \<Rightarrow> (XtraReadOps_Response \<Rightarrow> bytes) \<Rightarrow> endian \<Rightarrow> NetConf \<Rightarrow>
    'q pool \<Rightarrow> RpcInstance list \<Rightarrow> RpcInstance list \<Rightarrow> 'q pool \<Rightarrow> bool"
  for Q :: "'q EQueue" and unmarshal marshal e cf s where
  Start: "pool_run Q unmarshal marshal e cf s [] [] s"
| Push: "pool_run Q unmarshal marshal e cf s ps rs (ws, ex, cs) \<Longrightarrow>
    pool_run Q unmarshal marshal e cf s (ps @ [r]) rs (ws, executor_handle_RPC Q r ex, cs)"
| Turn: "pool_run Q unmarshal marshal e cf s ps rs (ws, ex, cs) \<Longrightarrow> i < length ws \<Longrightarrow> ws ! i = AtTop \<Longrightarrow>
    executor_service_turn Q st ex = (t, ex') \<Longrightarrow>
    pool_run Q unmarshal marshal e cf s ps rs (ws[i := after_turn t], ex', cs)"
| Serve: "pool_run Q unmarshal marshal e cf s ps rs (ws, ex, cs) \<Longrightarrow> i < length ws \<Longrightarrow> ws ! i = Serving r \<Longrightarrow>
    pool_run Q unmarshal marshal e cf s ps (rs @ [r]) (ws[i := AtTop], ex,
      cs(full_socket r := snd (service_handle_RPC unmarshal marshal e cf r (cs (full_socket r)))))"
| Spawn: "pool_run Q unmarshal marshal e cf s ps rs (ws, ex, cs) \<Longrightarrow>
    pool_run Q unmarshal marshal e cf s ps rs (ws @ [AtTop], ex, cs)"
| Written: "pool_run Q unmarshal marshal e cf s ps rs (ws, ex, cs) \<Longrightarrow> cs k = Some c \<Longrightarrow>
    pool_run Q unmarshal marshal e cf s ps rs (ws, ex, cs(k \<mapsto> io_write_ok cf c))"
| Released: "pool_run Q unmarshal marshal e cf s ps rs (ws, ex, cs) \<Longrightarrow>
    pool_run Q unmarshal marshal e cf s ps rs (ws, ex, cs(k := None))"

section \<open>What is in the workers' hands\<close>

fun in_hand :: "worker \<Rightarrow> RpcInstance list" where
  "in_hand (Serving r) = [r]"
| "in_hand _ = []"

definition in_hands :: "worker list \<Rightarrow> RpcInstance list" where
  "in_hands ws = concat (map in_hand ws)"

lemma in_hands_append [simp]: "in_hands (ws @ ws') = in_hands ws @ in_hands ws'"
  by (simp add: in_hands_def)

lemma in_hands_single [simp]: "in_hands [] = []" "in_hands [w] = in_hand w"
  by (simp_all add: in_hands_def)

lemma in_hands_update:
  assumes "i < length ws"
  shows "mset (in_hands (ws[i := w])) + mset (in_hand (ws ! i)) = mset (in_hands ws) + mset (in_hand w)"
proof -
  have "in_hands ws = in_hands (take i ws @ [ws ! i] @ drop (Suc i) ws)"
    using assms by (simp add: Cons_nth_drop_Suc)
  moreover have "in_hands (ws[i := w]) = in_hands (take i ws @ [w] @ drop (Suc i) ws)"
    using assms by (simp add: upd_conv_take_nth_drop)
  ultimately show ?thesis by (simp del: append.simps)
qed

text \<open>One turn moves at most one request, from the front of the queue into the worker's hand.\<close>

lemma turn_moves:
  assumes "fifo_queue Q contents" "executor_service_turn Q st ex = (t, ex')"
  shows "in_hand (after_turn t) @ contents (rpc_queue ex') = contents (rpc_queue ex)"
  using executor_service_turn_cases [OF assms] by (cases t) simp_all

section \<open>Invariants of a run\<close>

lemma pool_run_taken:
  assumes "pool_run Q unmarshal marshal e cf (ws0, ex0, cs0) ps rs s'" "fifo_queue Q contents"
  shows "\<exists>taken. taken @ contents (rpc_queue (fst (snd s'))) = contents (rpc_queue ex0) @ ps \<and>
    mset taken + mset (in_hands ws0) = mset rs + mset (in_hands (fst s'))"
  using assms(1)
proof (induction rule: pool_run.induct)
  case Start
  show ?case by simp
next
  case (Push ps rs ws ex cs r)
  then show ?case by (auto simp: executor_handle_RPC_def fifo_queueD(1) [OF assms(2)])
next
  case (Turn ps rs ws ex cs i st t ex')
  then obtain taken where taken: "taken @ contents (rpc_queue ex) = contents (rpc_queue ex0) @ ps"
      "mset taken + mset (in_hands ws0) = mset rs + mset (in_hands ws)"
    by auto
  have "mset (in_hands (ws[i := after_turn t])) = mset (in_hands ws) + mset (in_hand (after_turn t))"
    using in_hands_update [OF Turn.hyps(2), of "after_turn t"] Turn.hyps(3) by simp
  then show ?case
    using taken turn_moves [OF assms(2) Turn.hyps(4)]
    by (intro exI [where x = "taken @ in_hand (after_turn t)"]) (simp add: ac_simps)
next
  case (Serve ps rs ws ex cs i r)
  have "mset (in_hands ws) = mset (in_hands (ws[i := AtTop])) + {#r#}"
    using in_hands_update [OF Serve.hyps(2), of AtTop] Serve.hyps(3) by simp
  then show ?case using Serve.IH by (auto simp: ac_simps)
qed auto

text \<open>With a single worker requests are served in the order of the queue.\<close>

lemma single_worker:
  assumes "length ws \<le> 1" "i < length ws"
  shows "ws = [ws ! i]" "ws[i := w] = [w]"
  using assms by (cases ws; simp)+

lemma pool_run_single:
  assumes "pool_run Q unmarshal marshal e cf (ws0, ex0, cs0) ps rs s'" "fifo_queue Q contents"
    and "length (fst s') \<le> 1" "in_hands ws0 = []"
  shows "rs @ in_hands (fst s') @ contents (rpc_queue (fst (snd s'))) = contents (rpc_queue ex0) @ ps"
  using assms(1,3)
proof (induction rule: pool_run.induct)
  case Start
  then show ?case by (simp add: assms(4))
next
  case (Push ps rs ws ex cs r)
  then have "rs @ in_hands ws @ contents (rpc_queue ex) = contents (rpc_queue ex0) @ ps" by simp
  then show ?case by (simp add: executor_handle_RPC_def fifo_queueD(1) [OF assms(2)] flip: append_assoc)
next
  case (Turn ps rs ws ex cs i st t ex')
  then have ih: "rs @ in_hands ws @ contents (rpc_queue ex) = contents (rpc_queue ex0) @ ps" and len: "length ws \<le> 1"
    by simp_all
  note one = single_worker [OF len Turn.hyps(2)]
  have "in_hands ws = []" using one(1) Turn.hyps(3) by (metis in_hand.simps(2) in_hands_single(2))
  then show ?case
    using ih turn_moves [OF assms(2) Turn.hyps(4)] by (simp add: one(2))
next
  case (Serve ps rs ws ex cs i r)
  then have ih: "rs @ in_hands ws @ contents (rpc_queue ex) = contents (rpc_queue ex0) @ ps" and len: "length ws \<le> 1"
    by simp_all
  note one = single_worker [OF len Serve.hyps(2)]
  have "in_hands ws = [r]" using one(1) Serve.hyps(3) by (metis in_hand.simps(1) in_hands_single(2))
  then show ?case using ih by (simp add: one(2))
qed auto

section \<open>Answers\<close>

text \<open>The bytes a request's answer puts on its connection.\<close>

definition answer_bytes ::
  "(bytes \<Rightarrow> XtraReadOps_Request option) \<Rightarrow> (XtraReadOps_Response \<Rightarrow> bytes) \<Rightarrow> endian \<Rightarrow> NetConf \<Rightarrow> RpcInstance \<Rightarrow> bytes" where
  "answer_bytes unmarshal marshal e cf r =
     (let m = service_answer unmarshal marshal e r
      in if send_accepts cf m then Message_net_str e m else [])"

definition wire_stream :: "TcpConn \<Rightarrow> bytes" where
  "wire_stream c = sent_bytes c @ send_backlog c"

lemma served_stream:
  assumes "send_inv cf c" "snd (service_handle_RPC unmarshal marshal e cf r (Some c)) = Some c'"
  shows "send_inv cf c'" and "wire_stream c' = wire_stream c @ answer_bytes unmarshal marshal e cf r"
proof -
  have c': "c' = snd (async_send_message e cf (service_answer unmarshal marshal e r) c)"
    using assms(2) by (simp add: service_handle_RPC_answer)
  show "send_inv cf c'" unfolding c' by (rule srv_send.inv_send [OF assms(1)])
  show "wire_stream c' = wire_stream c @ answer_bytes unmarshal marshal e cf r"
    using srv_send.stream_send [OF assms(1), of e "service_answer unmarshal marshal e r"]
    by (simp add: c' wire_stream_def answer_bytes_def Let_def)
qed

lemma pool_run_streams:
  assumes "pool_run Q unmarshal marshal e cf (ws0, ex0, cs0) ps rs s'"
    and "\<And>k c. cs0 k = Some c \<Longrightarrow> send_inv cf c"
  shows "snd (snd s') k = Some c \<Longrightarrow> send_inv cf c \<and> (\<exists>c0. cs0 k = Some c0 \<and>
    wire_stream c = wire_stream c0 @
      concat (map (answer_bytes unmarshal marshal e cf) (filter (\<lambda>r. full_socket r = k) rs)))"
  using assms(1)
proof (induction arbitrary: c rule: pool_run.induct)
  case Start
  then show ?case using assms(2) by simp
next
  case (Serve ps rs ws ex cs i r)
  show ?case
  proof (cases "full_socket r = k")
    case False
    then show ?thesis using Serve.IH [of c] Serve.prems by simp
  next
    case True
    obtain c1 where c1: "cs k = Some c1"
      using Serve.prems True by (auto simp: service_handle_RPC_answer)
    then have "snd (service_handle_RPC unmarshal marshal e cf r (Some c1)) = Some c"
      using Serve.prems True by simp
    then show ?thesis
      using Serve.IH [of c1] c1 served_stream [of cf c1 unmarshal marshal e r c] True by auto
  qed
next
  case (Written ps rs ws ex cs k' c')
  show ?case
  proof (cases "k' = k")
    case True
    then show ?thesis
      using Written srv_send.inv_wdone srv_send.stream_wdone by (fastforce simp: wire_stream_def)
  next
    case False
    then show ?thesis using Written.IH [of c] Written.prems by simp
  qed
next
  case (Released ps rs ws ex cs k')
  then show ?case by (cases "k' = k") simp_all
qed simp_all

text \<open>The two steps of a worker, with the new list of workers up to equality.\<close>

lemma pool_turn:
  assumes "pool_run Q unmarshal marshal e cf s ps rs (ws, ex, cs)" "i < length ws" "ws ! i = AtTop"
    and "executor_service_turn Q st ex = (t, ex')" "ws' = ws[i := after_turn t]"
  shows "pool_run Q unmarshal marshal e cf s ps rs (ws', ex', cs)"
  unfolding assms(5) by (rule pool_run.Turn [OF assms(1-4)])

lemma pool_serve:
  assumes "pool_run Q unmarshal marshal e cf s ps rs (ws, ex, cs)" "i < length ws" "ws ! i = Serving r"
    and "ws' = ws[i := AtTop]" "rs' = rs @ [r]"
    and "cs' = cs(full_socket r := snd (service_handle_RPC unmarshal marshal e cf r (cs (full_socket r))))"
  shows "pool_run Q unmarshal marshal e cf s ps rs' (ws', ex, cs')"
  unfolding assms(4-6) by (rule pool_run.Serve [OF assms(1-3)])

text \<open>Two workers can serve two requests in the opposite order.\<close>

lemma two_workers_swap:
  assumes "fifo_queue Q contents" "contents (rpc_queue ex) = r1 # r2 # rest"
  shows "\<exists>ex' cs'. pool_run Q unmarshal marshal e cf ([AtTop, AtTop], ex, cs) [] [r2, r1] ([AtTop, AtTop], ex', cs') \<and>
    contents (rpc_queue ex') = rest \<and> (\<forall>k. cs k \<noteq> None \<longrightarrow> cs' k \<noteq> None)"
proof -
  obtain ex1 where t1: "executor_service_turn Q kThreadRunning ex = (Handle r1, ex1)" "contents (rpc_queue ex1) = r2 # rest"
    using fifo_queueD(4,5) [OF assms] by (simp add: executor_service_turn_def case_prod_beta Let_def)
  obtain ex2 where t2: "executor_service_turn Q kThreadRunning ex1 = (Handle r2, ex2)" "contents (rpc_queue ex2) = rest"
    using fifo_queueD(4,5) [OF assms(1) t1(2)] by (simp add: executor_service_turn_def case_prod_beta Let_def)
  let ?run = "pool_run Q unmarshal marshal e cf ([AtTop, AtTop], ex, cs)"
  let ?serve = "\<lambda>r cs. cs(full_socket r := snd (service_handle_RPC unmarshal marshal e cf r (cs (full_socket r))))"
  have "?run [] [] ([Serving r1, AtTop], ex1, cs)"
    by (rule pool_turn [OF pool_run.Start _ _ t1(1), where i = 0]) simp_all
  then have "?run [] [] ([Serving r1, Serving r2], ex2, cs)"
    by (rule pool_turn [OF _ _ _ t2(1), where i = 1]) simp_all
  then have "?run [] [r2] ([Serving r1, AtTop], ex2, ?serve r2 cs)"
    by (rule pool_serve [where i = 1 and r = r2]) simp_all
  then have "?run [] [r2, r1] ([AtTop, AtTop], ex2, ?serve r1 (?serve r2 cs))"
    by (rule pool_serve [where i = 0 and r = r1]) simp_all
  moreover have "\<forall>k. cs k \<noteq> None \<longrightarrow> ?serve r1 (?serve r2 cs) k \<noteq> None"
    by (simp add: service_handle_RPC_answer)
  ultimately show ?thesis using t2(2) by blast
qed

end
