(* ===== verification/ConnHistory.thy ===== *)
theory ConnHistory
  imports Session ConnSafety ServerProperties Pool "HOL-Library.Sublist"
begin

text \<open>
  A server connection against its history: the bytes it received, the payloads it handed to the dispatcher
  and the bytes it owes its peer.  \<open>conn_ok\<close> relates the three to the state of the connection, and every
  operation of the connection keeps it, on a working connection, in the step that closes it and in what still
  happens to it afterwards.
\<close>

section \<open>The relation\<close>

text \<open>The shape of the receiving side while a read is outstanding.\<close>

definition read_shape :: "NetConf \<Rightarrow> TcpConn \<Rightarrow> bool" where
  "read_shape cf c \<longleftrightarrow>
     (let h = io_header (recv_bound c); n = length (recv_data c)
      in length (io_block (recv_bound c)) = kFixedIoBufferSize \<and> n < 2 ^ 32 \<and>
         (n < sizeof_Header \<and> sk_reads (socket c) = [ReadHead (sizeof_Header - n)] \<or>
          header_ok cf h \<and> n < unat (h_length h) \<and>
            sk_reads (socket c) = [ReadMsg (min (unat (h_length h) - n) kFixedIoBufferSize)]))"

text \<open>The bytes received and not yet handed over, and the least number the outstanding read asked for.\<close>

definition unread :: "endian \<Rightarrow> TcpConn \<Rightarrow> bytes" where
  "unread e c =
     (case sk_reads (socket c) of
        [ReadMsg _] \<Rightarrow> Header_wire e (io_header (recv_bound c)) @ recv_data c
      | _ \<Rightarrow> recv_data c)"

definition asked :: "TcpConn \<Rightarrow> nat" where
  "asked c = (case sk_reads (socket c) of [] \<Rightarrow> 0 | op # _ \<Rightarrow> read_min op)"

lemma reader_views:
  "srv_residue e (c, d) = unread e c" "srv_need (c, d) = asked c"
  "srv_waiting cf (c, d) \<longleftrightarrow> conn_stat c = kWorking \<and> \<not> was_cancelled c \<and> send_inv cf c \<and> read_shape cf c"
  by (simp_all only: srv_residue_def unread_def srv_need_def asked_def srv_waiting_def read_shape_def Let_def fst_conv)

definition conn_ok :: "endian \<Rightarrow> NetConf \<Rightarrow> bytes \<Rightarrow> bytes list \<Rightarrow> bytes \<Rightarrow> TcpConn \<Rightarrow> bool" where
  "conn_ok e cf rcv dls out c \<longleftrightarrow> io_safe cf c \<and>
     (conn_stat c = kWorking \<and> \<not> was_cancelled c \<and> send_inv cf c \<and> read_shape cf c \<and> wire_stream c = out \<and>
        frames e (header_ok cf) rcv = (dls, unread e c, True) \<or>
      conn_stat c = kClosed \<and> prefix (sent_bytes c @ in_flight c) out \<and>
        prefix dls (fst (frames e (header_ok cf) rcv)) \<and>
        (sk_reads (socket c) \<noteq> [] \<longrightarrow>
          read_shape cf c \<and> frames e (header_ok cf) rcv = (dls, unread e c, True)))"

lemma conn_okD:
  assumes "conn_ok e cf rcv dls out c"
  shows "io_safe cf c" and "conn_stat c = kWorking \<or> conn_stat c = kClosed"
    and "conn_stat c = kWorking \<Longrightarrow> srv_waiting cf (c, d)"
    and "conn_stat c = kWorking \<Longrightarrow> wire_stream c = out"
    and "sk_reads (socket c) \<noteq> [] \<Longrightarrow> read_shape cf c"
    and "sk_reads (socket c) \<noteq> [] \<Longrightarrow> frames e (header_ok cf) rcv = (dls, unread e c, True)"
    and "conn_stat c = kWorking \<Longrightarrow> sk_reads (socket c) \<noteq> []"
    and "prefix (sent_bytes c @ in_flight c) out"
    and "prefix dls (fst (frames e (header_ok cf) rcv))"
  using assms by (auto simp: conn_ok_def reader_views read_shape_def Let_def wire_stream_def send_backlog_def prefix_def)

lemma conn_ok_working:
  assumes "io_safe cf c" "srv_waiting cf (c, d)" "wire_stream c = out"
    "frames e (header_ok cf) rcv = (dls, srv_residue e (c, d), True)"
  shows "conn_ok e cf rcv dls out c"
  using assms by (simp add: conn_ok_def reader_views)

text \<open>A connection that was closed, with what it had outstanding.\<close>

lemma conn_ok_closed:
  assumes "io_safe cf c'" "conn_stat c' = kClosed" "prefix (sent_bytes c' @ in_flight c') out'"
    and "prefix dls (fst (frames e (header_ok cf) rcv))"
    and "sk_reads (socket c') = [] \<or> read_shape cf c' \<and> frames e (header_ok cf) rcv = (dls, unread e c', True)"
  shows "conn_ok e cf rcv dls out' c'"
  using assms by (auto simp: conn_ok_def)

text \<open>Of the settings, a connection's history depends on the two size limits, and on whether operations have a time limit.\<close>

definition same_limits :: "NetConf \<Rightarrow> NetConf \<Rightarrow> bool" where
  "same_limits cf cf' \<longleftrightarrow> recv_max_msg_size cf = recv_max_msg_size cf' \<and>
     send_max_msg_size cf = send_max_msg_size cf' \<and>
     (ops_cancel_time_out cf = 0 \<longleftrightarrow> ops_cancel_time_out cf' = 0)"

lemma same_limits_cong:
  assumes "same_limits cf cf'"
  shows "header_ok cf = header_ok cf'" and "send_accepts cf = send_accepts cf'"
    and "conn_ok e cf = conn_ok e cf'" and "refusal_bytes e cf = refusal_bytes e cf'"
    and "answer_bytes um ma e cf = answer_bytes um ma e cf'"
proof -
  show h: "header_ok cf = header_ok cf'" and a: "send_accepts cf = send_accepts cf'"
    using assms by (auto simp: same_limits_def header_ok_def send_accepts_def)
  have "io_safe cf = io_safe cf'" "send_inv cf = send_inv cf'" "read_shape cf = read_shape cf'"
    using assms h by (auto simp: same_limits_def io_safe_def io_core_defs send_inv_def read_shape_def)
  then show "conn_ok e cf = conn_ok e cf'" unfolding conn_ok_def h by simp
  show "refusal_bytes e cf = refusal_bytes e cf'" "answer_bytes um ma e cf = answer_bytes um ma e cf'"
    using a by (simp_all add: fun_eq_iff refusal_bytes_def answer_bytes_def Let_def split: route.split)
qed

section \<open>Writing, time and errors\<close>

lemma conn_ok_start:
  assumes "sk_reads sock = []" "sk_writes sock = []" "sk_sent sock = []"
  shows "conn_ok e cf [] [] [] (fst (TcpConn_start Q e cf i (TcpConn_new ok sock) d))"
    and "snd (TcpConn_start Q e cf i (TcpConn_new ok sock) d) = d"
proof -
  obtain c d' where s: "TcpConn_start Q e cf i (TcpConn_new ok sock) d = (c, d')" by (metis surj_pair)
  note start = TcpConn_start_waiting [OF assms(1,2) s [symmetric]]
  have safe: "io_safe cf c" using io_safe_start [OF assms(1,2), of cf Q e i ok d] s by simp
  show "snd (TcpConn_start Q e cf i (TcpConn_new ok sock) d) = d" using start(3) s by (simp add: srv_world_def)
  show "conn_ok e cf [] [] [] (fst (TcpConn_start Q e cf i (TcpConn_new ok sock) d))"
    using conn_ok_working [OF safe start(1)] start(2,3) assms(3) s
    by (simp add: srv_world_def wire_stream_def frames_short sizeof_Header_def)
qed

text \<open>
  What closing and everything after it keep: the outstanding read, the received bytes, and that nothing new is
  sent beyond what was on its way.
\<close>

definition winding_down :: "TcpConn \<Rightarrow> TcpConn \<Rightarrow> bool" where
  "winding_down c c' \<longleftrightarrow> sk_reads (socket c') = sk_reads (socket c) \<and> recv_bound c' = recv_bound c \<and>
     prefix (sent_bytes c' @ in_flight c') (sent_bytes c @ in_flight c)"

lemma reader_frame:
  assumes "sk_reads (socket c') = sk_reads (socket c)" "recv_bound c' = recv_bound c"
  shows "unread e c' = unread e c" and "read_shape cf c' = read_shape cf c"
proof -
  have "recv_data c' = recv_data c" using assms(2) by (simp add: recv_data_def)
  then show "unread e c' = unread e c" and "read_shape cf c' = read_shape cf c"
    using assms by (simp_all only: unread_def read_shape_def)
qed

lemma conn_ok_winding_down:
  assumes "conn_ok e cf rcv dls out c" "winding_down c c'" "io_safe cf c'" "conn_stat c' = kClosed" "prefix out out'"
  shows "conn_ok e cf rcv dls out' c'"
proof (rule conn_ok_closed [OF assms(3,4)])
  have io: "sk_reads (socket c') = sk_reads (socket c)" "recv_bound c' = recv_bound c"
    "prefix (sent_bytes c' @ in_flight c') (sent_bytes c @ in_flight c)"
    using assms(2) by (simp_all add: winding_down_def)
  show "prefix (sent_bytes c' @ in_flight c') out'"
    using conn_okD(8) [OF assms(1)] assms(5) io(3) prefix_order.trans by blast
  show "prefix dls (fst (frames e (header_ok cf) rcv))" by (rule conn_okD(9) [OF assms(1)])
  show "sk_reads (socket c') = [] \<or> read_shape cf c' \<and> frames e (header_ok cf) rcv = (dls, unread e c', True)"
    using conn_okD(5,6) [OF assms(1)] io(1) reader_frame [OF io(1,2)] by auto
qed

lemma winding_down_ec: "winding_down c (snd (handle_socket_ec err c))"
  by (auto simp: handle_socket_ec_def Let_def winding_down_def sock_shutdown_and_close_def ops_cancel_def sock_cancel_def
    set_conn_stat_def revoke_ops_cancel_timeout_def sent_bytes_def in_flight_def)

lemma conn_ok_timer:
  assumes "conn_ok e cf rcv dls out c"
  shows "conn_ok e cf rcv dls out (io_timer c)"
proof (cases "\<exists>n. ops_cancel_timer c = Some (Suc n)")
  case True
  then obtain n where n: "ops_cancel_timer c = Some (Suc n)" by blast
  then have "winding_down c (io_timer c)"
    by (simp add: io_timer_def ops_cancel_timeout_call_def winding_down_def sock_shutdown_and_close_def ops_cancel_def
      sock_cancel_def set_conn_stat_def sent_bytes_def in_flight_def Let_def)
  then show ?thesis
    using conn_ok_winding_down [OF assms] io_safe_timer(1) [OF conn_okD(1) [OF assms]] io_timer_closes [OF n] by simp
next
  case False
  then have "io_timer c = c" by (auto simp: io_timer_def split: option.split nat.split)
  then show ?thesis using assms by simp
qed

lemma conn_ok_late_timer:
  assumes "conn_ok e cf rcv dls out c"
  shows "conn_ok e cf rcv dls out (io_late_timer cf c)"
proof (cases "ops_cancel_time_out cf = 0")
  case False
  then have "winding_down c (io_late_timer cf c)" "conn_stat (io_late_timer cf c) = kClosed"
    by (simp_all add: io_late_timer_def ops_cancel_timeout_call_def winding_down_def sock_shutdown_and_close_def
      ops_cancel_def sock_cancel_def set_conn_stat_def sent_bytes_def in_flight_def Let_def)
  then show ?thesis
    using conn_ok_winding_down [OF assms] io_safe_timer(2) [OF conn_okD(1) [OF assms]] by simp
qed (use assms in \<open>simp add: io_late_timer_def\<close>)

lemma conn_ok_reply:
  assumes "conn_ok e cf rcv dls out c"
  shows "conn_ok e cf rcv dls (out @ (if send_accepts cf msg then Message_net_str e msg else []))
    (snd (async_send_message e cf msg c))"
proof -
  let ?c = "snd (async_send_message e cf msg c)"
  have safe: "io_safe cf ?c"
    using io_core_send [of cf c e msg] conn_okD(1) [OF assms] by (simp add: io_safe_def)
  show ?thesis
  proof (cases "conn_stat c = kWorking")
    case True
    note wait = conn_okD(3) [OF assms True, where d = "Dispatcher_new :: unit Dispatcher"]
    then have inv: "send_inv cf c" by (simp add: reader_views)
    note fr = srv_waiting_frame [OF wait async_send_message_stream(1) [OF inv, of e msg] async_send_message_frame(1-4)]
    have "wire_stream ?c = out @ (if send_accepts cf msg then Message_net_str e msg else [])"
      using conn_okD(4) [OF assms True] async_send_message_stream(2) [OF inv, of e msg]
      by (auto simp: wire_stream_def sent_bytes_def async_send_message_frame)
    then show ?thesis
      using conn_ok_working [OF safe fr(1)] conn_okD(6) [OF assms conn_okD(7) [OF assms True]] fr(2) [of e]
      by (simp add: reader_views)
  next
    case False
    then have st: "conn_stat c = kClosed" using conn_okD(2) [OF assms] by simp
    then have "conn_stat (push_message e msg c) = kClosed" by simp
    then have "winding_down c ?c"
      using do_write_closed [of "push_message e msg c" cf]
      by (simp add: async_send_message_eq winding_down_def sent_bytes_def in_flight_def) (simp add: push_message_def)
    then show ?thesis
      using conn_ok_winding_down [OF assms _ safe] st by (simp add: async_send_message_frame)
  qed
qed

text \<open>A worker's answer, to a connection that may be gone.\<close>

lemma conn_ok_served:
  assumes "conn_ok e cf rcv dls out c" "snd (service_handle_RPC um ma e cf r (Some c)) = Some c'"
  shows "conn_ok e cf rcv dls (out @ answer_bytes um ma e cf r) c'"
  using conn_ok_reply [OF assms(1), of "service_answer um ma e r"] assms(2)
  by (simp add: service_handle_RPC_answer answer_bytes_def Let_def)

lemma conn_ok_write_ok:
  assumes "conn_ok e cf rcv dls out c"
  shows "conn_ok e cf rcv dls out (io_write_ok cf c)"
proof (cases "conn_stat c = kWorking")
  case True
  note wait = conn_okD(3) [OF assms True, where d = "Dispatcher_new :: unit Dispatcher"]
  then have inv: "send_inv cf c" by (simp add: reader_views)
  note st = io_write_ok_stream [OF inv] and rv = io_write_ok_recv [OF inv]
  note fr = srv_waiting_frame [OF wait st(1) st(3,4) conjunct1 [OF rv] conjunct2 [OF rv]]
  have "wire_stream (io_write_ok cf c) = out" using st(2) conn_okD(4) [OF assms True] by (simp add: wire_stream_def)
  then show ?thesis
    using conn_ok_working [OF io_safe_writes(1) [OF conn_okD(1) [OF assms]] fr(1)]
      conn_okD(6) [OF assms conn_okD(7) [OF assms True]] fr(2) [of e]
    by (simp add: reader_views)
next
  case False
  then have st: "conn_stat c = kClosed" using conn_okD(2) [OF assms] by simp
  have len: "length (sk_writes (socket c)) \<le> 1" using conn_okD(1) [OF assms] by (simp add: io_safe_def io_core_defs)
  have "winding_down c (io_write_ok cf c) \<and> conn_stat (io_write_ok cf c) = kClosed"
    using st len
    by (cases "sk_writes (socket c)")
      (simp_all add: io_write_ok_def write_handler_def do_write_closed winding_down_def sent_bytes_def in_flight_def
        revoke_ops_cancel_timeout_def Let_def)
  then show ?thesis
    using conn_ok_winding_down [OF assms] io_safe_writes(1) [OF conn_okD(1) [OF assms]] by simp
qed

text \<open>
  The library reports \<open>operation_aborted\<close> only for operations that were cancelled, or whose socket was closed.
\<close>

definition error_possible :: "error_code \<Rightarrow> TcpConn \<Rightarrow> bool" where
  "error_possible err c \<longleftrightarrow> (err = operation_aborted \<longrightarrow> was_cancelled c \<or> conn_stat c = kClosed)"

lemma handle_socket_ec_possible:
  assumes "error_possible err c" "conn_stat c = kWorking \<longrightarrow> \<not> was_cancelled c" "conn_stat c = kWorking \<or> conn_stat c = kClosed"
  shows "conn_stat (snd (handle_socket_ec err c)) = kClosed"
  using assms
  by (cases err) (auto simp: error_possible_def handle_socket_ec_def was_ops_cancelled_def Let_def)

lemma conn_ok_write_error:
  assumes "conn_ok e cf rcv dls out c" "error_possible err c"
  shows "conn_ok e cf rcv dls out (io_write_error cf err k c)"
proof (cases "sk_writes (socket c)")
  case Nil
  then show ?thesis using assms(1) by (simp add: io_write_error_def)
next
  case (Cons n ns)
  have ns: "ns = []" using conn_okD(1) [OF assms(1)] Cons by (simp add: io_safe_def io_core_defs)
  let ?c = "revoke_ops_cancel_timeout (c\<lparr>socket := (socket c)\<lparr>sk_writes := [],
      sk_sent := sk_sent (socket c) @ take (min k n) (io_block (send_bound c))\<rparr>\<rparr>)"
  have eq: "io_write_error cf err k c = snd (handle_socket_ec err ?c)"
    using Cons ns by (simp add: io_write_error_def write_handler_def Let_def)
  have "prefix (take (min k n) (io_block (send_bound c))) (take n (io_block (send_bound c)))"
    by (metis min.cobounded2 take_is_prefix take_take min.absorb1)
  then have "winding_down c ?c"
    using Cons ns by (simp add: winding_down_def revoke_ops_cancel_timeout_def sent_bytes_def in_flight_def)
  then have "winding_down c (io_write_error cf err k c)"
    using winding_down_ec [of ?c err] unfolding eq by (auto simp: winding_down_def intro: prefix_order.trans)
  moreover have "conn_stat (io_write_error cf err k c) = kClosed"
    unfolding eq
    by (rule handle_socket_ec_possible)
      (use assms in \<open>auto simp: error_possible_def conn_ok_def revoke_ops_cancel_timeout_def\<close>)
  ultimately show ?thesis
    using conn_ok_winding_down [OF assms(1)] io_safe_writes(2) [OF conn_okD(1) [OF assms(1)]] by simp
qed

lemma conn_ok_read_error:
  assumes "conn_ok e cf rcv dls out c" "error_possible err c"
  shows "conn_ok e cf rcv dls out (fst (io_read_error Q e cf i err n (c, d)))"
    and "snd (io_read_error Q e cf i err n (c, d)) = d"
proof -
  have "conn_ok e cf rcv dls out (fst (io_read_error Q e cf i err n (c, d))) \<and>
    snd (io_read_error Q e cf i err n (c, d)) = d"
  proof (cases "sk_reads (socket c)")
    case Nil
    then show ?thesis using assms(1) by (simp add: io_read_error_def)
  next
    case (Cons op ops)
    have ops: "ops = []" using conn_okD(1) [OF assms(1)] Cons by (simp add: io_safe_def)
    let ?c = "revoke_ops_cancel_timeout (c\<lparr>socket := (socket c)\<lparr>sk_reads := []\<rparr>\<rparr>)"
    have eq: "io_read_error Q e cf i err n (c, d) = (snd (handle_socket_ec err ?c), d)"
      using Cons ops by (cases op) (simp_all add: io_read_error_def read_handler_def read_msg_handler_def Let_def)
    have "sk_reads (socket (snd (handle_socket_ec err ?c))) = []"
      using winding_down_ec [of ?c err] by (simp add: winding_down_def revoke_ops_cancel_timeout_def)
    moreover have "conn_stat (snd (handle_socket_ec err ?c)) = kClosed"
      by (rule handle_socket_ec_possible)
        (use assms in \<open>auto simp: error_possible_def conn_ok_def revoke_ops_cancel_timeout_def\<close>)
    moreover have "prefix (sent_bytes (snd (handle_socket_ec err ?c)) @ in_flight (snd (handle_socket_ec err ?c))) out"
      using winding_down_ec [of ?c err] conn_okD(8) [OF assms(1)]
      by (auto simp: winding_down_def revoke_ops_cancel_timeout_def sent_bytes_def in_flight_def intro: prefix_order.trans)
    ultimately show ?thesis
      using conn_ok_closed [OF _ _ _ conn_okD(9) [OF assms(1)]]
        io_safe_reads(2) [OF conn_okD(1) [OF assms(1)], where Q = Q and e = e and i = i and err = err and n = n and d = d]
      by (simp add: eq)
  qed
  then show "conn_ok e cf rcv dls out (fst (io_read_error Q e cf i err n (c, d)))"
    and "snd (io_read_error Q e cf i err n (c, d)) = d"
    by simp_all
qed

section \<open>Reading\<close>

text \<open>
  The payloads a completed read hands to the dispatcher.  A working connection hands over every complete
  frame.  The handler of a read that was already completed when the connection closed still runs: the body
  handler hands over the message it was waiting for, if the bytes complete it, and the header handler nothing.
\<close>

definition handed_over :: "endian \<Rightarrow> NetConf \<Rightarrow> TcpConn \<Rightarrow> bytes \<Rightarrow> bytes list" where
  "handed_over e cf c chunk =
     (let ps = fst (frames e (header_ok cf) (unread e c @ chunk))
      in if conn_stat c = kWorking then ps
         else case sk_reads (socket c) of ReadMsg _ # _ \<Rightarrow> take 1 ps | _ \<Rightarrow> [])"

text \<open>The contract of the library's reads.\<close>

definition read_possible :: "endian \<Rightarrow> TcpConn \<Rightarrow> bytes \<Rightarrow> bool" where
  "read_possible e c chunk \<longleftrightarrow> sk_reads (socket c) \<noteq> [] \<and> asked c \<le> length chunk \<and>
     length chunk \<le> kFixedIoBufferSize \<and> length (unread e c) + length chunk < 2 ^ 32"

definition refusals :: "endian \<Rightarrow> NetConf \<Rightarrow> u16 set \<Rightarrow> bytes list \<Rightarrow> bytes" where
  "refusals e cf ids ps = concat (map (\<lambda>p. refusal_bytes e cf (route_of e p ids)) ps)"

definition dispatch_all :: "'q EQueue \<Rightarrow> endian \<Rightarrow> NetConf \<Rightarrow> nat \<Rightarrow> bytes list \<Rightarrow> 'q Dispatcher \<Rightarrow> 'q Dispatcher" where
  "dispatch_all Q e cf i ps d = fold (\<lambda>p d. fst (dispatcher_handle_RPC Q e cf (instance_of i p) d None)) ps d"

lemma fold_deliver_fst: "fst (fold (srv_deliver Q e cf i) ps w) = dispatch_all Q e cf i ps (fst w)"
  by (induction ps arbitrary: w) (simp_all add: dispatch_all_def srv_deliver_def)

lemma dispatch_all_ids:
  assumes "\<forall>p \<in> set ps. length p < 2 ^ 32"
  shows "service_ids (dispatch_all Q e cf i ps d) = service_ids d"
  using assms
proof (induction ps arbitrary: d)
  case Nil
  then show ?case by (simp add: dispatch_all_def)
next
  case (Cons p ps)
  then show ?case
    using srv_deliver_ids [of p Q e cf i "(d, [])"] by (simp add: dispatch_all_def srv_deliver_def)
qed

lemma dispatch_all_queue:
  assumes "\<forall>p \<in> set ps. length p < 2 ^ 32" "fifo_queue Q contents"
  shows "queue_of contents (dispatch_all Q e cf i ps d) sid = queue_of contents d sid @
    map (queued_instance e i) (filter (\<lambda>p. route_of e p (service_ids d) = Enqueue sid) ps)"
  using srv_deliver_all(1) [OF assms, of e cf i "(d, [])" sid] by (simp add: fold_deliver_fst)

lemma fold_deliver_out:
  assumes "\<forall>p \<in> set ps. length p < 2 ^ 32"
  shows "snd (fold (srv_deliver Q e cf i) ps w) = snd w @ refusals e cf (service_ids (fst w)) ps"
  using assms
proof (induction ps arbitrary: w)
  case Nil
  then show ?case by (simp add: refusals_def)
next
  case (Cons p ps)
  then show ?case
    using Cons.IH [of "srv_deliver Q e cf i p w"]
    by (simp add: srv_deliver_ids refusals_def) (simp add: srv_deliver_def)
qed

lemma frames_payload_length:
  "frames e ok bs = (ps, r, g) \<Longrightarrow> p \<in> set ps \<Longrightarrow> length p < 2 ^ 32"
proof (induction ps arbitrary: bs)
  case Nil
  then show ?case by simp
next
  case (Cons q ps)
  note f = frames_ConsD [OF Cons.prems(1)]
  show ?case
  proof (cases "p = q")
    case True
    then show ?thesis using f(4) unat_u32_less by metis
  next
    case False
    then show ?thesis using Cons.IH [OF f(5)] Cons.prems(2) by simp
  qed
qed

lemma handed_over_length: "p \<in> set (handed_over e cf c chunk) \<Longrightarrow> length p < 2 ^ 32"
proof -
  assume "p \<in> set (handed_over e cf c chunk)"
  then have "p \<in> set (fst (frames e (header_ok cf) (unread e c @ chunk)))"
    by (auto simp: handed_over_def Let_def split: if_splits list.splits read_op.splits dest: in_set_takeD)
  then show ?thesis
    using frames_payload_length [of e "header_ok cf" "unread e c @ chunk"] by (metis prod.collapse)
qed

lemma conn_ok_read_working:
  fixes Q :: "'q EQueue"
  assumes "conn_ok e cf rcv dls out c" "conn_stat c = kWorking" "read_possible e c chunk"
    and "io_read_ok Q e cf i chunk (c, d) = (c', d')" "ps = handed_over e cf c chunk"
  shows "conn_ok e cf (rcv @ chunk) (dls @ ps) (out @ refusals e cf (service_ids d) ps) c' \<and>
    d' = dispatch_all Q e cf i ps d"
proof -
  let ?fr = "frames e (header_ok cf) (unread e c @ chunk)"
  note wait = conn_okD(3) [OF assms(1,2), of d]
  have small: "\<forall>p \<in> set ps. length p < 2 ^ 32" using handed_over_length assms(5) by blast
  have ps: "fst ?fr = ps" using assms(2,5) by (simp add: handed_over_def Let_def)
  have out: "srv_outcome Q e cf i ?fr (srv_world (c, d)) (c', d')"
    using io_read_ok_outcome [OF wait, where chunk = chunk and e = e and Q = Q and i = i] assms(3,4)
    by (simp add: reader_views read_possible_def kFixedIoBufferSize_def)
  then have w: "srv_world (c', d') = fold (srv_deliver Q e cf i) ps (srv_world (c, d))"
    by (simp add: srv_outcome_def ps)
  have d': "d' = dispatch_all Q e cf i ps d"
    using w by (metis fold_deliver_fst fst_conv srv_world_def snd_conv)
  have wire: "wire_stream c' = out @ refusals e cf (service_ids d) ps"
    using w conn_okD(4) [OF assms(1,2)] fold_deliver_out [OF small, of Q e cf i "srv_world (c, d)"]
    by (metis fst_conv snd_conv srv_world_def wire_stream_def)
  have safe: "io_safe cf c'"
  proof -
    have "0 < length chunk"
      using assms(3) conn_okD(5,7) [OF assms(1)] assms(2)
      by (auto simp: read_possible_def read_shape_def asked_def kFixedIoBufferSize_def Let_def)
    then show ?thesis
      using io_safe_reads(1) [OF conn_okD(1) [OF assms(1)], of chunk Q e i d] assms(3,4) by (simp add: read_possible_def)
  qed
  have fr: "frames e (header_ok cf) (rcv @ chunk) = (dls @ ps, snd ?fr)"
    using frames_append_good [OF conn_okD(6) [OF assms(1) conn_okD(7) [OF assms(1,2)]], of chunk] ps by simp
  show ?thesis
  proof (cases "snd (snd ?fr)")
    case True
    then have "srv_waiting cf (c', d')" "srv_residue e (c', d') = fst (snd ?fr)"
      using out by (simp_all add: srv_outcome_def)
    then show ?thesis
      using conn_ok_working [OF safe _ wire] fr True d' by (metis prod.collapse)
  next
    case False
    then have "srv_closed (c', d')" using out by (simp add: srv_outcome_def)
    moreover have "prefix (sent_bytes c' @ in_flight c') (out @ refusals e cf (service_ids d) ps)"
      using wire [symmetric] by (simp add: wire_stream_def send_backlog_def)
    ultimately show ?thesis
      using conn_ok_closed [OF safe, where rcv = "rcv @ chunk" and dls = "dls @ ps"] fr d'
      by (simp add: srv_closed_def)
  qed
qed

text \<open>The same on a closed connection whose read had completed before.\<close>

lemma with_chunk_closed:
  assumes "read_shape cf c" "length chunk \<le> kFixedIoBufferSize" "length (unread e c) + length chunk < 2 ^ 32"
    and "conn_stat c = kClosed"
  shows "recv_data (with_chunk chunk c) = recv_data c @ chunk"
    and "unat (get_length (io_buffer (recv_bound (with_chunk chunk c)))) = length (recv_data c @ chunk)"
    and "io_header (recv_bound (with_chunk chunk c)) = io_header (recv_bound c)"
    and "conn_stat (with_chunk chunk c) = kClosed" and "sk_reads (socket (with_chunk chunk c)) = []"
    and "sent_bytes (with_chunk chunk c) = sent_bytes c" and "in_flight (with_chunk chunk c) = in_flight c"
proof -
  have len: "length (recv_data c) \<le> length (unread e c)"
    by (simp add: unread_def split: list.split read_op.split)
  show data: "recv_data (with_chunk chunk c) = recv_data c @ chunk"
    using assms by (simp add: read_shape_def with_chunk_def take_block_def revoke_ops_cancel_timeout_def recv_data_def
      append_internal_data take_blit' Let_def)
  show "unat (get_length (io_buffer (recv_bound (with_chunk chunk c)))) = length (recv_data c @ chunk)"
    using data assms(3) len by (simp add: recv_data_def get_length_small)
  show "io_header (recv_bound (with_chunk chunk c)) = io_header (recv_bound c)"
    and "conn_stat (with_chunk chunk c) = kClosed" and "sk_reads (socket (with_chunk chunk c)) = []"
    and "sent_bytes (with_chunk chunk c) = sent_bytes c" and "in_flight (with_chunk chunk c) = in_flight c"
    using assms(4) by (simp_all add: with_chunk_def take_block_def revoke_ops_cancel_timeout_def sent_bytes_def in_flight_def)
qed

definition stopped :: "TcpConn \<Rightarrow> TcpConn \<Rightarrow> bool" where
  "stopped c c' \<longleftrightarrow> conn_stat c' = kClosed \<and> sk_reads (socket c') = [] \<and>
     sent_bytes c' = sent_bytes c \<and> in_flight c' = in_flight c"

lemma stopped_dispatched:
  assumes "conn_stat c = kClosed" "sk_reads (socket c) = []"
  shows "stopped c (the (snd (dispatcher_handle_RPC Q e cf r d (Some c))))"
proof -
  have "stopped c (snd (async_send_message e cf msg c))" for msg
    using assms do_write_closed [of "push_message e msg c" cf]
    by (simp add: stopped_def async_send_message_eq sent_bytes_def in_flight_def) (simp add: push_message_def)
  then show ?thesis
    using dispatcher_handle_RPC_sock [of Q e cf r d c] assms by (auto simp: stopped_def)
qed

text \<open>The header handler: nothing is handed over.\<close>

lemma io_read_head_stopped:
  fixes Q :: "'q EQueue"
  assumes "read_shape cf c" "conn_stat c = kClosed" "read_possible e c chunk" "sk_reads (socket c) = [ReadHead n]"
    and "io_read_ok Q e cf i chunk (c, d) = (c', d')"
  shows "stopped c c' \<and> d' = dispatch_all Q e cf i (handed_over e cf c chunk) d"
proof -
  let ?k = "with_chunk chunk c"
  note k = with_chunk_closed [OF assms(1) _ _ assms(2), of chunk e]
  have kk: "conn_stat ?k = kClosed" "stopped c ?k"
    using k(4-7) assms(3) by (simp_all add: read_possible_def stopped_def)
  have "(c', d') = (?k, d) \<or> (c', d') = (snd (parse_header e cf ?k), d)"
    using assms(4,5) kk(1) do_read_closed [of ?k Q e cf i d] do_read_closed [of "snd (parse_header e cf ?k)" Q e cf i d]
      parse_frame_stat(1) [of e cf ?k]
    by (auto simp: io_read_ok_def read_handler_def with_chunk_def case_prod_beta Let_def sock_shutdown_and_close_def
      split: if_splits)
  moreover have "in_flight (snd (parse_header e cf ?k)) = in_flight ?k"
    by (simp add: parse_header_def in_flight_def case_prod_beta Let_def)
  moreover have "handed_over e cf c chunk = []" using assms(2,4) by (simp add: handed_over_def)
  ultimately show ?thesis
    using kk parse_frame_stat(1) [of e cf ?k] by (auto simp: stopped_def dispatch_all_def sent_ops)
qed

text \<open>The body handler: the message it was waiting for is handed over, if it is complete.\<close>

lemma io_read_msg_stopped:
  fixes Q :: "'q EQueue"
  assumes "read_shape cf c" "conn_stat c = kClosed" "read_possible e c chunk" "sk_reads (socket c) = [ReadMsg n]"
    and "header_ok cf (io_header (recv_bound c))" "io_read_ok Q e cf i chunk (c, d) = (c', d')"
  shows "stopped c c' \<and> d' = dispatch_all Q e cf i (handed_over e cf c chunk) d"
proof -
  let ?k = "with_chunk chunk c" and ?h = "io_header (recv_bound c)"
  let ?b = "parse_msg_body Message_default ?k"
  note k' = with_chunk_closed [OF assms(1) _ _ assms(2), of chunk e]
  have k: "recv_data ?k = recv_data c @ chunk" "io_header (recv_bound ?k) = ?h" "conn_stat ?k = kClosed" "stopped c ?k"
    "unat (get_length (io_buffer (recv_bound ?k))) = length (recv_data c @ chunk)"
    using k' assms(3) by (simp_all add: read_possible_def stopped_def)
  have un: "unread e c @ chunk = Header_wire e ?h @ recv_data c @ chunk" by (simp add: unread_def assms(4))
  have io: "read_msg_handler Q e cf i None (length chunk) (c\<lparr>socket := (socket c)\<lparr>sk_reads := []\<rparr>,
      recv_bound := (recv_bound c)\<lparr>io_block := blit chunk (io_block (recv_bound c))\<rparr>\<rparr>) d = (c', d')"
    using assms(4,6) by (simp add: io_read_ok_def)
  show ?thesis
  proof (cases "length (recv_data c @ chunk) < unat (h_length ?h)")
    case True
    then have "?b = (1, Message_default, ?k)" using k(2,5) by (simp add: parse_msg_body_def word_less_nat_alt)
    then have "(c', d') = (?k, d)"
      using io do_read_closed(2) [OF k(3), of Q e cf i d] by (simp add: read_msg_handler_def with_chunk_def Let_def)
    moreover have "fst (frames e (header_ok cf) (unread e c @ chunk)) = []"
      using True assms(5) unfolding un by (simp add: frames_partial)
    ultimately show ?thesis
      using k(4) by (simp add: handed_over_def dispatch_all_def assms(2,4))
  next
    case False
    let ?p = "take (unat (h_length ?h)) (recv_data c @ chunk)"
    let ?H = "dispatcher_handle_RPC Q e cf (instance_of i ?p) d (Some (strip_body ?k))"
    have b: "?b = (0, \<lparr>m_header = ?h, m_payload = ?p\<rparr>, strip_body ?k)"
      using parse_msg_body_eq [of ?k Message_default] False k(1,2,5) by (simp add: word_le_nat_alt)
    have st: "stopped c (strip_body ?k)"
      using k(4) by (simp add: stopped_def strip_body_def sent_bytes_def in_flight_def)
    then have H: "stopped (strip_body ?k) (the (snd ?H))" by (intro stopped_dispatched) (simp_all add: stopped_def)
    then have res: "(c', d') = (the (snd ?H), fst ?H)"
      using io b do_read_closed(1) [of "the (snd ?H)" Q e cf i "fst ?H"]
      by (simp add: read_msg_handler_def with_chunk_def case_prod_beta Let_def stopped_def)
    have "fst (frames e (header_ok cf) (unread e c @ chunk)) =
        ?p # fst (frames e (header_ok cf) (drop (unat (h_length ?h)) (recv_data c @ chunk)))"
      using frames_whole [of e "Header_wire e ?h @ recv_data c @ chunk" "header_ok cf"] False assms(5) unfolding un by simp
    then have "handed_over e cf c chunk = [?p]" using assms(2,4) by (simp add: handed_over_def)
    then show ?thesis
      using res H st dispatcher_handle_RPC_fst [of Q e cf "instance_of i ?p" d "Some (strip_body ?k)"]
      by (simp add: stopped_def dispatch_all_def)
  qed
qed

lemma io_read_ok_stopped:
  fixes Q :: "'q EQueue"
  assumes "read_shape cf c" "conn_stat c = kClosed" "read_possible e c chunk" "io_read_ok Q e cf i chunk (c, d) = (c', d')"
  shows "stopped c c' \<and> d' = dispatch_all Q e cf i (handed_over e cf c chunk) d"
proof -
  from assms(1) consider n where "sk_reads (socket c) = [ReadHead n]"
    | n where "sk_reads (socket c) = [ReadMsg n]" "header_ok cf (io_header (recv_bound c))"
    by (auto simp: read_shape_def Let_def)
  then show ?thesis
    using io_read_head_stopped [OF assms(1-3) _ assms(4)] io_read_msg_stopped [OF assms(1-3) _ _ assms(4)] by cases blast+
qed

lemma handed_over_prefix: "prefix (handed_over e cf c chunk) (fst (frames e (header_ok cf) (unread e c @ chunk)))"
  by (auto simp: handed_over_def Let_def take_is_prefix split: list.split read_op.split)

lemma conn_ok_read:
  fixes Q :: "'q EQueue"
  assumes "conn_ok e cf rcv dls out c" "read_possible e c chunk"
    and "io_read_ok Q e cf i chunk (c, d) = (c', d')" "ps = handed_over e cf c chunk"
  shows "conn_ok e cf (rcv @ chunk) (dls @ ps) (out @ refusals e cf (service_ids d) ps) c' \<and>
    d' = dispatch_all Q e cf i ps d"
proof (cases "conn_stat c = kWorking")
  case True
  then show ?thesis using conn_ok_read_working [OF assms(1) _ assms(2,3,4)] by simp
next
  case False
  then have st: "conn_stat c = kClosed" using conn_okD(2) [OF assms(1)] by simp
  have rd: "sk_reads (socket c) \<noteq> []" using assms(2) by (simp add: read_possible_def)
  note shape = conn_okD(5) [OF assms(1) rd]
  have stop: "stopped c c'" "d' = dispatch_all Q e cf i ps d"
    using io_read_ok_stopped [OF shape st assms(2,3)] assms(4) by simp_all
  have "0 < length chunk"
    using assms(2) shape by (auto simp: read_possible_def read_shape_def asked_def kFixedIoBufferSize_def Let_def)
  then have safe: "io_safe cf c'"
    using io_safe_reads(1) [OF conn_okD(1) [OF assms(1)], of chunk Q e i d] assms(2,3) by (simp add: read_possible_def)
  have "prefix (sent_bytes c' @ in_flight c') (out @ refusals e cf (service_ids d) ps)"
    using conn_okD(8) [OF assms(1)] stop(1) by (simp add: stopped_def)
  moreover have "prefix (dls @ ps) (fst (frames e (header_ok cf) (rcv @ chunk)))"
    using frames_append_good [OF conn_okD(6) [OF assms(1) rd], of chunk] handed_over_prefix [of e cf c chunk] assms(4)
    by simp
  ultimately show ?thesis
    using conn_ok_closed [OF safe] stop by (simp add: stopped_def)
qed

end
