(* ===== verification/System.thy ===== *)
theory System
  imports ConnHistory
begin

text \<open>
  The whole server at work: the network server with its connections, the dispatcher with the executors'
  queues, and the worker threads of all services, interleaved in any order.  A run is recorded as a history
  of events; the lemmas relate the history to the state at every moment.
\<close>

section \<open>Histories\<close>

text \<open>
  \<open>Received i bs\<close>: a read on connection \<open>i\<close> completed with \<open>bs\<close>; \<open>Delivered i p\<close>: the connection handed the
  payload \<open>p\<close> to the dispatcher; \<open>Served sid r\<close>: a worker of service \<open>sid\<close> finished the request \<open>r\<close>.
\<close>

datatype event = Received nat bytes | Delivered nat bytes | Served u16 RpcInstance

fun ev_conn :: "event \<Rightarrow> nat" where
  "ev_conn (Received i bs) = i"
| "ev_conn (Delivered i p) = i"
| "ev_conn (Served sid r) = full_socket r"

definition received :: "nat \<Rightarrow> event list \<Rightarrow> bytes" where
  "received i h = concat (map (\<lambda>ev. case ev of Received j bs \<Rightarrow> if j = i then bs else [] | _ \<Rightarrow> []) h)"

definition delivered :: "nat \<Rightarrow> event list \<Rightarrow> bytes list" where
  "delivered i h = concat (map (\<lambda>ev. case ev of Delivered j p \<Rightarrow> if j = i then [p] else [] | _ \<Rightarrow> []) h)"

text \<open>The requests for a service among the payloads delivered, of all connections, in order.\<close>

definition requests :: "endian \<Rightarrow> u16 set \<Rightarrow> u16 \<Rightarrow> event list \<Rightarrow> RpcInstance list" where
  "requests e ids sid h = concat (map (\<lambda>ev. case ev of
     Delivered i p \<Rightarrow> if route_of e p ids = Enqueue sid then [queued_instance e i p] else [] | _ \<Rightarrow> []) h)"

definition served_by :: "u16 \<Rightarrow> event list \<Rightarrow> RpcInstance list" where
  "served_by sid h = concat (map (\<lambda>ev. case ev of Served k r \<Rightarrow> if k = sid then [r] else [] | _ \<Rightarrow> []) h)"

text \<open>What a connection's peer has to get: refusals and answers, in the order they were made.\<close>

definition owed ::
  "(bytes \<Rightarrow> XtraReadOps_Request option) \<Rightarrow> (XtraReadOps_Response \<Rightarrow> bytes) \<Rightarrow> endian \<Rightarrow> NetConf \<Rightarrow> u16 set \<Rightarrow>
    nat \<Rightarrow> event list \<Rightarrow> bytes" where
  "owed unmarshal marshal e cf ids i h = concat (map (\<lambda>ev. case ev of
     Received j bs \<Rightarrow> []
   | Delivered j p \<Rightarrow> if j = i then refusal_bytes e cf (route_of e p ids) else []
   | Served sid r \<Rightarrow> if full_socket r = i then answer_bytes unmarshal marshal e cf r else []) h)"

lemma history_append [simp]:
  "received i (h @ h') = received i h @ received i h'"
  "delivered i (h @ h') = delivered i h @ delivered i h'"
  "requests e ids sid (h @ h') = requests e ids sid h @ requests e ids sid h'"
  "served_by sid (h @ h') = served_by sid h @ served_by sid h'"
  "owed um ma e cf ids i (h @ h') = owed um ma e cf ids i h @ owed um ma e cf ids i h'"
  by (simp_all add: received_def delivered_def requests_def served_by_def owed_def)

lemma history_Nil [simp]:
  "received i [] = []" "delivered i [] = []" "requests e ids sid [] = []" "served_by sid [] = []"
  "owed um ma e cf ids i [] = []"
  by (simp_all add: received_def delivered_def requests_def served_by_def owed_def)

text \<open>The events of one completed read.\<close>

definition read_events :: "nat \<Rightarrow> bytes \<Rightarrow> bytes list \<Rightarrow> event list" where
  "read_events i chunk ps = Received i chunk # map (Delivered i) ps"

lemma read_events_history [simp]:
  "received i (read_events i chunk ps) = chunk"
  "delivered i (read_events i chunk ps) = ps"
  "requests e ids sid (read_events i chunk ps) =
    map (queued_instance e i) (filter (\<lambda>p. route_of e p ids = Enqueue sid) ps)"
  "served_by sid (read_events i chunk ps) = []"
  "owed um ma e cf ids i (read_events i chunk ps) = refusals e cf ids ps"
  by (induction ps) (simp_all add: read_events_def received_def delivered_def requests_def served_by_def owed_def refusals_def)

lemma served_history [simp]:
  "received i [Served sid r] = []" "delivered i [Served sid r] = []" "requests e ids k [Served sid r] = []"
  "served_by k [Served sid r] = (if k = sid then [r] else [])"
  "owed um ma e cf ids (full_socket r) [Served sid r] = answer_bytes um ma e cf r"
  by (simp_all add: received_def delivered_def requests_def served_by_def owed_def)

lemma history_others:
  assumes "\<forall>ev \<in> set h. ev_conn ev \<noteq> i"
  shows "received i h = []" and "delivered i h = []" and "owed um ma e cf ids i h = []"
  using assms by (auto simp: received_def delivered_def owed_def split: event.splits)

lemma read_events_conn: "ev \<in> set (read_events i chunk ps) \<Longrightarrow> ev_conn ev = i"
  by (auto simp: read_events_def)

section \<open>The server at work\<close>

type_synonym 'q sys = "NetServer \<times> 'q Dispatcher \<times> (u16 \<times> worker) list"

definition set_executor :: "u16 \<Rightarrow> 'q Executor \<Rightarrow> 'q Dispatcher \<Rightarrow> 'q Dispatcher" where
  "set_executor sid ex d = d\<lparr>services := map_put sid ex (services d)\<rparr>"

text \<open>A worker's answer goes to the connection the request came from, if it still exists.\<close>

definition answer_conn ::
  "(bytes \<Rightarrow> XtraReadOps_Request option) \<Rightarrow> (XtraReadOps_Response \<Rightarrow> bytes) \<Rightarrow> endian \<Rightarrow> RpcInstance \<Rightarrow> NetServer \<Rightarrow> NetServer" where
  "answer_conn unmarshal marshal e r ns =
     (case snd (service_handle_RPC unmarshal marshal e (net_conf ns) r (map_of (conns ns) (full_socket r))) of
        None \<Rightarrow> ns
      | Some c \<Rightarrow> conn_update (full_socket r) c ns)"

inductive sys_run ::
  "'q EQueue \<Rightarrow> (bytes \<Rightarrow> XtraReadOps_Request option) \<Rightarrow> (XtraReadOps_Response \<Rightarrow> bytes) \<Rightarrow> endian \<Rightarrow>
    'q sys \<Rightarrow> event list \<Rightarrow> 'q sys \<Rightarrow> bool"
  for Q :: "'q EQueue" and unmarshal marshal e s where
  Start: "sys_run Q unmarshal marshal e s [] s"
| Accept: "sys_run Q unmarshal marshal e s h (ns, d, ws) \<Longrightarrow>
    sk_reads sock = [] \<Longrightarrow> sk_writes sock = [] \<Longrightarrow> sk_sent sock = [] \<Longrightarrow>
    io_accept Q e ok ec remote sock ns d = (ns', d') \<Longrightarrow>
    sys_run Q unmarshal marshal e s h (ns', d', ws)"
| Read: "sys_run Q unmarshal marshal e s h (ns, d, ws) \<Longrightarrow> (i, c) \<in> set (conns ns) \<Longrightarrow>
    read_possible e c chunk \<Longrightarrow> io_read_ok Q e (net_conf ns) i chunk (c, d) = (c', d') \<Longrightarrow>
    sys_run Q unmarshal marshal e s (h @ read_events i chunk (handed_over e (net_conf ns) c chunk))
      (conn_update i c' ns, d', ws)"
| ReadErr: "sys_run Q unmarshal marshal e s h (ns, d, ws) \<Longrightarrow> (i, c) \<in> set (conns ns) \<Longrightarrow>
    error_possible err c \<Longrightarrow> io_read_error Q e (net_conf ns) i err n (c, d) = (c', d') \<Longrightarrow>
    sys_run Q unmarshal marshal e s h (conn_update i c' ns, d', ws)"
| WriteOk: "sys_run Q unmarshal marshal e s h (ns, d, ws) \<Longrightarrow> (i, c) \<in> set (conns ns) \<Longrightarrow>
    sys_run Q unmarshal marshal e s h (conn_update i (io_write_ok (net_conf ns) c) ns, d, ws)"
| WriteErr: "sys_run Q unmarshal marshal e s h (ns, d, ws) \<Longrightarrow> (i, c) \<in> set (conns ns) \<Longrightarrow>
    error_possible err c \<Longrightarrow>
    sys_run Q unmarshal marshal e s h (conn_update i (io_write_error (net_conf ns) err n c) ns, d, ws)"
| Timer: "sys_run Q unmarshal marshal e s h (ns, d, ws) \<Longrightarrow> (i, c) \<in> set (conns ns) \<Longrightarrow>
    sys_run Q unmarshal marshal e s h (conn_update i (io_timer c) ns, d, ws)"
| LateTimer: "sys_run Q unmarshal marshal e s h (ns, d, ws) \<Longrightarrow> (i, c) \<in> set (conns ns) \<Longrightarrow>
    sys_run Q unmarshal marshal e s h (conn_update i (io_late_timer (net_conf ns) c) ns, d, ws)"
| Delete: "sys_run Q unmarshal marshal e s h (ns, d, ws) \<Longrightarrow>
    sys_run Q unmarshal marshal e s h (TcpConn_delete i ns, d, ws)"
| Feed: "sys_run Q unmarshal marshal e s h (ns, d, ws) \<Longrightarrow>
    io_feed_expired (net_conf ns) = Some cf \<or> io_feed_aborted (net_conf ns) = Some cf \<Longrightarrow>
    sys_run Q unmarshal marshal e s h (ns\<lparr>net_conf := cf\<rparr>, d, ws)"
| Update: "sys_run Q unmarshal marshal e s h (ns, d, ws) \<Longrightarrow>
    net_module_runtime split trim cfg ns = (ret, ns') \<Longrightarrow>
    (ops_cancel_time_out (net_conf ns') = 0) = (ops_cancel_time_out (net_conf ns) = 0) \<Longrightarrow>
    sys_run Q unmarshal marshal e s h (ns', d, ws)"
| UpdateServices: "sys_run Q unmarshal marshal e s h (ns, d, ws) \<Longrightarrow>
    dispatcher_module_runtime junk conf d = Some (ret, d') \<Longrightarrow>
    sys_run Q unmarshal marshal e s h (ns, d', ws)"
| Spawn: "sys_run Q unmarshal marshal e s h (ns, d, ws) \<Longrightarrow>
    sys_run Q unmarshal marshal e s h (ns, d, ws @ [(sid, AtTop)])"
| Turn: "sys_run Q unmarshal marshal e s h (ns, d, ws) \<Longrightarrow> k < length ws \<Longrightarrow> ws ! k = (sid, AtTop) \<Longrightarrow>
    map_find (services d) sid = Some ex \<Longrightarrow> executor_service_turn Q st ex = (t, ex') \<Longrightarrow>
    sys_run Q unmarshal marshal e s h (ns, set_executor sid ex' d, ws[k := (sid, after_turn t)])"
| Adjust: "sys_run Q unmarshal marshal e s h (ns, d, ws) \<Longrightarrow>
    map_find (services d) sid = Some ex \<Longrightarrow> executor_threads_adjust Q ex = Some ex' \<Longrightarrow>
    sys_run Q unmarshal marshal e s h (ns, set_executor sid ex' d, ws)"
| Serve: "sys_run Q unmarshal marshal e s h (ns, d, ws) \<Longrightarrow> k < length ws \<Longrightarrow> ws ! k = (sid, Serving r) \<Longrightarrow>
    sys_run Q unmarshal marshal e s (h @ [Served sid r]) (answer_conn unmarshal marshal e r ns, d, ws[k := (sid, AtTop)])"

section \<open>Requests\<close>

definition hands :: "u16 \<Rightarrow> (u16 \<times> worker) list \<Rightarrow> RpcInstance list" where
  "hands sid ws = concat (map (\<lambda>(k, w). if k = sid then in_hand w else []) ws)"

lemma hands_simps [simp]:
  "hands sid [] = []" "hands sid (ws @ ws') = hands sid ws @ hands sid ws'"
  "hands sid [(k, w)] = (if k = sid then in_hand w else [])"
  by (simp_all add: hands_def)

lemma hands_update:
  assumes "i < length ws" "ws ! i = (k, w)"
  shows "mset (hands sid (ws[i := (k, w')])) + (if k = sid then mset (in_hand w) else {#}) =
    mset (hands sid ws) + (if k = sid then mset (in_hand w') else {#})"
proof -
  have "hands sid ws = hands sid (take i ws @ [(k, w)] @ drop (Suc i) ws)"
    using assms by (metis append_Cons append_Nil id_take_nth_drop)
  moreover have "hands sid (ws[i := (k, w')]) = hands sid (take i ws @ [(k, w')] @ drop (Suc i) ws)"
    using assms by (simp add: upd_conv_take_nth_drop)
  ultimately show ?thesis by (simp del: append.simps)
qed

text \<open>
  The books of a service: the requests delivered for it are those taken, in order, followed by those still
  queued; the ones taken are those served and those in the hands of a worker.
\<close>

definition accounts ::
  "('q \<Rightarrow> RpcInstance list) \<Rightarrow> endian \<Rightarrow> u16 set \<Rightarrow> event list \<Rightarrow> 'q Dispatcher \<Rightarrow> (u16 \<times> worker) list \<Rightarrow> bool" where
  "accounts contents e ids h d ws \<longleftrightarrow>
     (\<forall>sid. \<exists>taken. taken @ queue_of contents d sid = requests e ids sid h \<and>
        mset taken = mset (served_by sid h) + mset (hands sid ws))"

lemma queue_of_set_executor:
  "queue_of contents (set_executor sid ex d) k = (if k = sid then contents (rpc_queue ex) else queue_of contents d k)"
  by (simp add: queue_of_def set_executor_def smap.find_put)

lemma service_ids_set_executor:
  "map_find (services d) sid = Some ex0 \<Longrightarrow> service_ids (set_executor sid ex d) = service_ids d"
  by (auto simp: service_ids_def set_executor_def smap.find_put split: if_splits)

lemma accounts_read:
  assumes "accounts contents e ids h d ws" "fifo_queue Q contents" "service_ids d = ids"
    and "\<forall>p \<in> set ps. length p < 2 ^ 32"
  shows "accounts contents e ids (h @ read_events i chunk ps) (dispatch_all Q e cf i ps d) ws"
  unfolding accounts_def
proof
  fix sid
  obtain taken where "taken @ queue_of contents d sid = requests e ids sid h"
      "mset taken = mset (served_by sid h) + mset (hands sid ws)"
    using assms(1) by (auto simp: accounts_def)
  then show "\<exists>taken. taken @ queue_of contents (dispatch_all Q e cf i ps d) sid =
      requests e ids sid (h @ read_events i chunk ps) \<and>
      mset taken = mset (served_by sid (h @ read_events i chunk ps)) + mset (hands sid ws)"
    using assms(3) by (intro exI [where x = taken]) (simp add: dispatch_all_queue [OF assms(4,2)] flip: append_assoc)
qed

lemma accounts_turn:
  assumes "accounts contents e ids h d ws" "fifo_queue Q contents" "k < length ws" "ws ! k = (sid, AtTop)"
    and "map_find (services d) sid = Some ex" "executor_service_turn Q st ex = (t, ex')"
  shows "accounts contents e ids h (set_executor sid ex' d) (ws[k := (sid, after_turn t)])"
  unfolding accounts_def
proof
  fix j
  obtain taken where taken: "taken @ queue_of contents d j = requests e ids j h"
      "mset taken = mset (served_by j h) + mset (hands j ws)"
    using assms(1) by (auto simp: accounts_def)
  note upd = hands_update [OF assms(3,4), of j "after_turn t"]
  show "\<exists>taken. taken @ queue_of contents (set_executor sid ex' d) j = requests e ids j h \<and>
      mset taken = mset (served_by j h) + mset (hands j (ws[k := (sid, after_turn t)]))"
  proof (cases "j = sid")
    case True
    then have "queue_of contents d j = in_hand (after_turn t) @ contents (rpc_queue ex')"
      using turn_moves [OF assms(2,6)] assms(5) by (simp add: queue_of_def)
    then show ?thesis
      using taken upd True
      by (intro exI [where x = "taken @ in_hand (after_turn t)"]) (simp add: queue_of_set_executor ac_simps)
  next
    case False
    then show ?thesis using taken upd by (intro exI [where x = taken]) (simp add: queue_of_set_executor)
  qed
qed

lemma accounts_adjust:
  assumes "accounts contents e ids h d ws" "map_find (services d) sid = Some ex" "rpc_queue ex' = rpc_queue ex"
  shows "accounts contents e ids h (set_executor sid ex' d) ws"
proof -
  have "queue_of contents (set_executor sid ex' d) k = queue_of contents d k" for k
    unfolding queue_of_set_executor using assms(2,3) by (simp add: queue_of_def)
  then show ?thesis using assms(1) by (simp add: accounts_def)
qed

lemma accounts_serve:
  assumes "accounts contents e ids h d ws" "k < length ws" "ws ! k = (sid, Serving r)"
  shows "accounts contents e ids (h @ [Served sid r]) d (ws[k := (sid, AtTop)])"
  unfolding accounts_def
proof
  fix j
  obtain taken where taken: "taken @ queue_of contents d j = requests e ids j h"
      "mset taken = mset (served_by j h) + mset (hands j ws)"
    using assms(1) by (auto simp: accounts_def)
  have "mset (hands j ws) = mset (hands j (ws[k := (sid, AtTop)])) + (if sid = j then {#r#} else {#})"
    using hands_update [OF assms(2,3), of j AtTop] by (simp split: if_splits)
  then show "\<exists>taken. taken @ queue_of contents d j = requests e ids j (h @ [Served sid r]) \<and>
      mset taken = mset (served_by j (h @ [Served sid r])) + mset (hands j (ws[k := (sid, AtTop)]))"
    using taken by (intro exI [where x = taken]) (auto simp: ac_simps)
qed

text \<open>A request in a worker's hands was delivered by the connection it names.\<close>

lemma queued_instance_socket: "full_socket (queued_instance e i p) = i"
  by (simp add: queued_instance_def validate_request_def instance_of_def RpcInstance_new_def Let_def case_prod_beta)

lemma in_hands_delivered:
  assumes "accounts contents e ids h d ws" "r \<in> set (hands sid ws)"
  shows "\<exists>p. Delivered (full_socket r) p \<in> set h"
proof -
  have "r \<in> set (requests e ids sid h)"
    using assms by (metis Un_iff accounts_def in_multiset_in_set set_append set_mset_mset set_mset_union)
  then show ?thesis
    by (auto simp: requests_def queued_instance_socket split: event.splits if_splits)
qed

section \<open>Connections\<close>

definition conns_ok ::
  "(bytes \<Rightarrow> XtraReadOps_Request option) \<Rightarrow> (XtraReadOps_Response \<Rightarrow> bytes) \<Rightarrow> endian \<Rightarrow> NetConf \<Rightarrow> u16 set \<Rightarrow>
    event list \<Rightarrow> NetServer \<Rightarrow> bool" where
  "conns_ok um ma e cf ids h ns \<longleftrightarrow> (\<forall>(i, c) \<in> set (conns ns).
     conn_ok e cf (received i h) (delivered i h) (owed um ma e cf ids i h) c)"

lemma conns_okD:
  "conns_ok um ma e cf ids h ns \<Longrightarrow> (i, c) \<in> set (conns ns) \<Longrightarrow>
    conn_ok e cf (received i h) (delivered i h) (owed um ma e cf ids i h) c"
  by (auto simp: conns_ok_def)

lemma conns_ok_update:
  assumes "conns_ok um ma e cf ids h ns" "\<forall>ev \<in> set es. ev_conn ev = i"
    and "conn_ok e cf (received i (h @ es)) (delivered i (h @ es)) (owed um ma e cf ids i (h @ es)) c'"
  shows "conns_ok um ma e cf ids (h @ es) (conn_update i c' ns)"
proof -
  have "received j es = []" "delivered j es = []" "owed um ma e cf ids j es = []" if "j \<noteq> i" for j
    using history_others [of es j] assms(2) that by auto
  then show ?thesis using assms(1,3) by (fastforce simp: conns_ok_def conn_update_def split: if_splits)
qed

lemma conns_ok_update_same:
  assumes "conns_ok um ma e cf ids h ns"
    and "conn_ok e cf (received i h) (delivered i h) (owed um ma e cf ids i h) c'"
  shows "conns_ok um ma e cf ids h (conn_update i c' ns)"
  using conns_ok_update [OF assms(1), of "[]" i] assms(2) by simp

lemma conns_ok_absent:
  assumes "conns_ok um ma e cf ids h ns" "\<forall>ev \<in> set es. ev_conn ev = i" "i \<notin> set (conn_ids ns)"
  shows "conns_ok um ma e cf ids (h @ es) ns"
proof -
  have "received j es = []" "delivered j es = []" "owed um ma e cf ids j es = []" if "(j, c) \<in> set (conns ns)" for j c
    using history_others [of es j] assms(2,3) that by (force simp: conn_ids_def)+
  then show ?thesis using assms(1) by (fastforce simp: conns_ok_def)
qed

text \<open>What accepting does to the system: nothing, or one fresh connection.\<close>

lemma same_limits_refl [simp]: "same_limits cf cf"
  by (simp add: same_limits_def)

lemma same_limits_trans: "same_limits a b \<Longrightarrow> same_limits b c \<Longrightarrow> same_limits a c"
  by (simp add: same_limits_def)

lemma same_limits_tokens:
  "same_limits (snd (get_service_token cf)) cf"
  "io_feed_expired cf = Some cf' \<or> io_feed_aborted cf = Some cf' \<Longrightarrow> same_limits cf' cf"
  by (auto simp: same_limits_def get_service_token_def io_feed_expired_def io_feed_aborted_def
    timed_feed_token_handler_def feed_service_token_def Let_def split: nat.splits if_splits)

lemma accept_fresh:
  assumes "net_inv ns" "sk_reads sock = []" "sk_writes sock = []" "sk_sent sock = []"
    and "io_accept Q e ok ec remote sock ns d = (ns', d')"
  shows "d' = d \<and> same_limits (net_conf ns') (net_conf ns) \<and>
    (conns ns' = conns ns \<and> next_conn ns' = next_conn ns \<or>
     (\<exists>c. conns ns' = (next_conn ns, c) # conns ns \<and> next_conn ns' = Suc (next_conn ns) \<and>
        conn_ok e (net_conf ns') [] [] [] c))"
proof -
  let ?cf = "snd (get_service_token (net_conf ns))"
  let ?s = "TcpConn_start Q e ?cf (next_conn ns) (TcpConn_new ok sock) d"
  note start = conn_ok_start [OF assms(2-4), where Q = Q and e = e and cf = ?cf and i = "next_conn ns" and ok = ok and d = d]
  have fresh: "map (\<lambda>(j, c'). if j = next_conn ns then (j, c) else (j, c')) (conns ns) = conns ns" for c
  proof (rule map_idI)
    fix x
    assume "x \<in> set (conns ns)"
    then have "fst x < next_conn ns" using assms(1) by (auto simp: net_inv_def conn_ids_def)
    then show "(case x of (j, c') \<Rightarrow> if j = next_conn ns then (j, c) else (j, c')) = x" by (cases x) simp
  qed
  have "accepts ns = 1" using assms(1) by (simp add: net_inv_def)
  then have acc: "accept_handler Q e ok ec remote sock (ns\<lparr>accepts := 0\<rparr>) d = (ns', d')"
    using assms(5) by (simp add: io_accept_def)
  show ?thesis
    using acc start fresh same_limits_tokens(1) [of "net_conf ns"]
    by (auto simp: accept_handler_def TcpConn_create_def conn_update_def do_accept_def case_prod_beta Let_def
      split: if_splits option.splits)
qed

text \<open>What the updates of the settings leave alone.\<close>

lemma net_module_runtime_frame:
  assumes "net_module_runtime split trim cfg ns = (ret, ns')"
  shows "\<exists>cf'. ns' = ns\<lparr>net_conf := cf'\<rparr> \<and> recv_max_msg_size cf' = recv_max_msg_size (net_conf ns) \<and>
    send_max_msg_size cf' = send_max_msg_size (net_conf ns)"
proof (cases "fst (load_conf split trim cfg NetConf_default)")
  case False
  then have "ns' = ns\<lparr>net_conf := net_conf ns\<rparr>"
    using assms by (cases "load_conf split trim cfg NetConf_default") (simp add: net_module_runtime_def)
  then show ?thesis by blast
next
  case True
  then obtain conf where load: "load_conf split trim cfg NetConf_default = (True, conf)" by (metis prod.collapse)
  have "ns' = ns\<lparr>net_conf := net_conf ns'\<rparr>" using assms load by (auto simp: net_module_runtime_def Let_def)
  then show ?thesis using net_module_runtime_eq(8,9) [OF load, of ns] assms by (metis snd_conv)
qed

lemma runtime_services_queue:
  "runtime_services junk conf m = Some (ret, m') \<Longrightarrow>
    map_option rpc_queue (map_find m' sid) = map_option rpc_queue (map_find m sid)"
proof (induction m arbitrary: ret m')
  case (Cons x m)
  obtain k ex where x: "x = (k, ex)" by (cases x)
  from Cons.prems obtain r1 ex' r2 m2 where "executor_module_runtime junk conf ex = Some (r1, ex')"
    and "runtime_services junk conf m = Some (r2, m2)" "m' = (k, ex') # m2"
    by (auto simp: x split: option.splits)
  then show ?case using Cons.IH executor_runtime_queue [of junk conf ex r1 ex'] by (simp add: x map_find_def)
qed simp

section \<open>The invariant of a run\<close>

definition sys_inv ::
  "('q \<Rightarrow> RpcInstance list) \<Rightarrow> (bytes \<Rightarrow> XtraReadOps_Request option) \<Rightarrow> (XtraReadOps_Response \<Rightarrow> bytes) \<Rightarrow> endian \<Rightarrow>
    NetConf \<Rightarrow> u16 set \<Rightarrow> event list \<Rightarrow> 'q sys \<Rightarrow> bool" where
  "sys_inv contents um ma e cf ids h s \<longleftrightarrow>
     (case s of (ns, d, ws) \<Rightarrow> net_inv ns \<and> same_limits (net_conf ns) cf \<and>
        service_ids d = ids \<and> (\<forall>ev \<in> set h. ev_conn ev < next_conn ns) \<and>
        accounts contents e ids h d ws \<and> conns_ok um ma e cf ids h ns)"

text \<open>What happens on one connection, with the events it adds.\<close>

lemma sys_inv_conn:
  assumes "sys_inv contents um ma e cf ids h (ns, d, ws)" "(i, c) \<in> set (conns ns)"
    and "conn_step Q e (net_conf ns) i (c, d) (c', d')" "\<forall>ev \<in> set es. ev_conn ev = i"
    and "service_ids d' = ids" "accounts contents e ids (h @ es) d' ws'"
    and "conn_ok e (net_conf ns) (received i (h @ es)) (delivered i (h @ es)) (owed um ma e cf ids i (h @ es)) c'"
  shows "sys_inv contents um ma e cf ids (h @ es) (conn_update i c' ns, d', ws')"
proof -
  have inv: "net_inv ns" "same_limits (net_conf ns) cf" "conns_ok um ma e cf ids h ns"
    "\<forall>ev \<in> set h. ev_conn ev < next_conn ns"
    using assms(1) by (simp_all add: sys_inv_def)
  have "net_inv (conn_update i c' ns)"
    using net_step_inv [OF net_step.Conn [OF assms(2,3)] inv(1)] by blast
  moreover have "i < next_conn ns" using inv(1) assms(2) by (force simp: net_inv_def conn_ids_def)
  moreover have "conns_ok um ma e cf ids (h @ es) (conn_update i c' ns)"
    using conns_ok_update [OF inv(3) assms(4)] assms(7) same_limits_cong(3) [OF inv(2), of e] by simp
  ultimately show ?thesis using assms(4,5,6) inv(2,4) by (auto simp: sys_inv_def)
qed

lemma sys_inv_quiet:
  assumes "sys_inv contents um ma e cf ids h (ns, d, ws)" "(i, c) \<in> set (conns ns)"
    and "conn_step Q e (net_conf ns) i (c, d) (c', d)"
    and "\<And>rcv dls out. conn_ok e (net_conf ns) rcv dls out c \<Longrightarrow> conn_ok e (net_conf ns) rcv dls out c'"
  shows "sys_inv contents um ma e cf ids h (conn_update i c' ns, d, ws)"
proof -
  have inv: "same_limits (net_conf ns) cf" "conns_ok um ma e cf ids h ns"
    "service_ids d = ids" "accounts contents e ids h d ws"
    using assms(1) by (simp_all add: sys_inv_def)
  have "conn_ok e (net_conf ns) (received i h) (delivered i h) (owed um ma e cf ids i h) c'"
    using assms(4) conns_okD [OF inv(2) assms(2)] same_limits_cong(3) [OF inv(1), of e] by simp
  then show ?thesis using sys_inv_conn [OF assms(1-3), of "[]"] inv by simp
qed

lemma sys_inv_read:
  fixes Q :: "'q EQueue"
  assumes "sys_inv contents um ma e cf ids h (ns, d, ws)" "fifo_queue Q contents" "(i, c) \<in> set (conns ns)"
    and "read_possible e c chunk" "io_read_ok Q e (net_conf ns) i chunk (c, d) = (c', d')"
  shows "sys_inv contents um ma e cf ids (h @ read_events i chunk (handed_over e (net_conf ns) c chunk))
    (conn_update i c' ns, d', ws)"
proof -
  let ?cf = "net_conf ns" and ?ps = "handed_over e (net_conf ns) c chunk"
  have inv: "same_limits ?cf cf" "conns_ok um ma e cf ids h ns" "service_ids d = ids" "accounts contents e ids h d ws"
    using assms(1) by (simp_all add: sys_inv_def)
  note cong = same_limits_cong [OF inv(1)]
  have ok: "conn_ok e ?cf (received i h) (delivered i h) (owed um ma e cf ids i h) c"
    using conns_okD [OF inv(2) assms(3)] cong(3) [of e] by simp
  note rd = conn_ok_read [OF ok assms(4,5) refl]
  have small: "\<forall>p \<in> set ?ps. length p < 2 ^ 32" using handed_over_length by blast
  have chunk: "chunk \<noteq> []" "length chunk \<le> kFixedIoBufferSize"
    using assms(4) conn_okD(5) [OF ok]
    by (auto simp: read_possible_def read_shape_def asked_def kFixedIoBufferSize_def Let_def)
  have step: "conn_step Q e ?cf i (c, d) (c', d')"
    using conn_step.ReadOk [OF chunk, of Q e ?cf i c d] assms(5) by simp
  have "accounts contents e ids (h @ read_events i chunk ?ps) d' ws"
    using accounts_read [OF inv(4) assms(2) inv(3) small, of i chunk ?cf] rd by simp
  moreover have "service_ids d' = ids" using dispatch_all_ids [OF small, of Q e ?cf i d] rd inv(3) by simp
  moreover have "refusals e ?cf ids ?ps = refusals e cf ids ?ps" using cong(4) [of e] by (simp add: refusals_def)
  ultimately show ?thesis
    using sys_inv_conn [OF assms(1,3) step, of "read_events i chunk ?ps"] rd inv(3) read_events_conn by simp
qed

lemma sys_inv_accept:
  assumes "sys_inv contents um ma e cf ids h (ns, d, ws)" "sk_reads sock = []" "sk_writes sock = []" "sk_sent sock = []"
    and "io_accept Q e ok ec remote sock ns d = (ns', d')"
  shows "sys_inv contents um ma e cf ids h (ns', d', ws)"
proof -
  have inv: "net_inv ns" "same_limits (net_conf ns) cf" "conns_ok um ma e cf ids h ns"
    "\<forall>ev \<in> set h. ev_conn ev < next_conn ns"
    using assms(1) by (simp_all add: sys_inv_def)
  note acc = accept_fresh [OF inv(1) assms(2-5)]
  have "net_inv ns'"
    using io_accept_inv(1) [OF inv(1), of Q e ok ec remote sock d] assms(5) by simp
  moreover have lim: "same_limits (net_conf ns') cf" using acc inv(2) same_limits_trans by blast
  moreover have "conns_ok um ma e cf ids h ns'"
  proof -
    have "\<forall>ev \<in> set h. ev_conn ev \<noteq> next_conn ns" using inv(4) by auto
    note none = history_others [OF this]
    show ?thesis using acc inv(3) none same_limits_cong(3) [OF lim, of e] by (auto simp: conns_ok_def)
  qed
  moreover have "\<forall>ev \<in> set h. ev_conn ev < next_conn ns'" using acc inv(4) by auto
  ultimately show ?thesis using assms(1) acc by (simp add: sys_inv_def)
qed

lemma sys_inv_serve:
  assumes "sys_inv contents um ma e cf ids h (ns, d, ws)" "k < length ws" "ws ! k = (sid, Serving r)"
  shows "sys_inv contents um ma e cf ids (h @ [Served sid r]) (answer_conn um ma e r ns, d, ws[k := (sid, AtTop)])"
proof -
  let ?i = "full_socket r" and ?ws = "ws[k := (sid, AtTop)]"
  have inv: "net_inv ns" "same_limits (net_conf ns) cf" "conns_ok um ma e cf ids h ns"
    "\<forall>ev \<in> set h. ev_conn ev < next_conn ns" "accounts contents e ids h d ws" "service_ids d = ids"
    using assms(1) by (simp_all add: sys_inv_def)
  have acc: "accounts contents e ids (h @ [Served sid r]) d ?ws" by (rule accounts_serve [OF inv(5) assms(2,3)])
  have "r \<in> set (hands sid ws)"
    using assms(2,3) nth_mem [OF assms(2)] by (auto simp: hands_def intro: bexI [where x = "(sid, Serving r)"])
  then have lt: "?i < next_conn ns" using in_hands_delivered [OF inv(5)] inv(4) by fastforce
  show ?thesis
  proof (cases "map_of (conns ns) ?i")
    case None
    then have "?i \<notin> set (conn_ids ns)" by (simp add: conn_ids_def map_of_eq_None_iff)
    then show ?thesis
      using assms(1) acc lt conns_ok_absent [OF inv(3), of "[Served sid r]" ?i] None
      by (auto simp: sys_inv_def answer_conn_def service_handle_RPC_answer)
  next
    case (Some c)
    let ?c = "snd (async_send_message e (net_conf ns) (service_answer um ma e r) c)"
    have mem: "(?i, c) \<in> set (conns ns)" using Some by (rule map_of_SomeD)
    have "conn_ok e (net_conf ns) (received ?i h) (delivered ?i h) (owed um ma e cf ids ?i h) c"
      using conns_okD [OF inv(3) mem] same_limits_cong(3) [OF inv(2), of e] by simp
    then have "conn_ok e (net_conf ns) (received ?i h) (delivered ?i h)
        (owed um ma e cf ids ?i h @ answer_bytes um ma e (net_conf ns) r) ?c"
      by (rule conn_ok_served) (simp add: service_handle_RPC_answer)
    then show ?thesis
      using sys_inv_conn [OF assms(1) mem conn_step.Reply _ inv(6) acc, of "service_answer um ma e r"]
        same_limits_cong(5) [OF inv(2), of um ma e] Some
      by (simp add: answer_conn_def service_handle_RPC_answer)
  qed
qed

lemma sys_inv_turn:
  assumes "sys_inv contents um ma e cf ids h (ns, d, ws)" "fifo_queue Q contents" "k < length ws"
    and "ws ! k = (sid, AtTop)" "map_find (services d) sid = Some ex" "executor_service_turn Q st ex = (t, ex')"
  shows "sys_inv contents um ma e cf ids h (ns, set_executor sid ex' d, ws[k := (sid, after_turn t)])"
  using assms(1) accounts_turn [OF _ assms(2-6)] service_ids_set_executor [OF assms(5)] by (simp add: sys_inv_def)

lemma sys_inv_adjust:
  assumes "sys_inv contents um ma e cf ids h (ns, d, ws)"
    and "map_find (services d) sid = Some ex" "executor_threads_adjust Q ex = Some ex'"
  shows "sys_inv contents um ma e cf ids h (ns, set_executor sid ex' d, ws)"
proof -
  have "rpc_queue ex' = rpc_queue ex" using assms(3) by (auto simp: executor_threads_adjust_def Let_def)
  then show ?thesis
    using assms(1) accounts_adjust [OF _ assms(2)] service_ids_set_executor [OF assms(2)] by (simp add: sys_inv_def)
qed

lemma sys_inv_delete:
  assumes "sys_inv contents um ma e cf ids h (ns, d, ws)"
  shows "sys_inv contents um ma e cf ids h (TcpConn_delete i ns, d, ws)"
proof -
  have "net_inv (TcpConn_delete i ns)" using assms TcpConn_delete_inv by (simp add: sys_inv_def)
  then show ?thesis using assms by (auto simp: sys_inv_def TcpConn_delete_def conns_ok_def)
qed

lemma sys_inv_feed:
  assumes "sys_inv contents um ma e cf ids h (ns, d, ws)"
    and "io_feed_expired (net_conf ns) = Some cf' \<or> io_feed_aborted (net_conf ns) = Some cf'"
  shows "sys_inv contents um ma e cf ids h (ns\<lparr>net_conf := cf'\<rparr>, d, ws)"
  using assms same_limits_tokens(2) [OF assms(2)]
  by (auto simp: sys_inv_def net_inv_def conns_ok_def intro: same_limits_trans)

lemma sys_inv_update:
  assumes "sys_inv contents um ma e cf ids h (ns, d, ws)" "net_module_runtime split trim cfg ns = (ret, ns')"
    and "(ops_cancel_time_out (net_conf ns') = 0) = (ops_cancel_time_out (net_conf ns) = 0)"
  shows "sys_inv contents um ma e cf ids h (ns', d, ws)"
proof -
  obtain cf' where ns': "ns' = ns\<lparr>net_conf := cf'\<rparr>"
    and max: "recv_max_msg_size cf' = recv_max_msg_size (net_conf ns)" "send_max_msg_size cf' = send_max_msg_size (net_conf ns)"
    using net_module_runtime_frame [OF assms(2)] by blast
  then have "same_limits cf' (net_conf ns)" using assms(3) by (simp add: same_limits_def)
  then show ?thesis
    using assms(1) by (auto simp: sys_inv_def net_inv_def conns_ok_def ns' intro: same_limits_trans)
qed

lemma sys_inv_update_services:
  assumes "sys_inv contents um ma e cf ids h (ns, d, ws)" "dispatcher_module_runtime junk conf d = Some (ret, d')"
  shows "sys_inv contents um ma e cf ids h (ns, d', ws)"
proof -
  have eq: "map_option rpc_queue (map_find (services d') sid) = map_option rpc_queue (map_find (services d) sid)" for sid
    using runtime_services_queue [of junk conf "services d"] assms(2)
    by (auto simp: dispatcher_module_runtime_def)
  have "queue_of contents d' sid = queue_of contents d sid" for sid
    using eq [of sid] by (auto simp: queue_of_def split: option.splits)
  moreover have "service_ids d' = service_ids d"
    using eq by (auto simp: service_ids_def dom_def) (metis option.distinct(1) option.map_disc_iff option.exhaust)+
  ultimately show ?thesis using assms(1) by (simp add: sys_inv_def accounts_def)
qed

lemma sys_run_inv:
  fixes Q :: "'q EQueue"
  assumes "sys_run Q um ma e s h s'" "fifo_queue Q contents" "sys_inv contents um ma e cf ids [] s"
  shows "sys_inv contents um ma e cf ids h s'"
  using assms(1)
proof (induction rule: sys_run.induct)
  case Start
  then show ?case by (rule assms(3))
next
  case (Accept h ns d ws sock ok ec remote ns' d')
  then show ?case using sys_inv_accept by blast
next
  case (Read h ns d ws i c chunk c' d')
  then show ?case using sys_inv_read [OF _ assms(2)] by blast
next
  case (ReadErr h ns d ws i c err n c' d')
  have d': "d' = d" and c': "c' = fst (io_read_error Q e (net_conf ns) i err n (c, d))"
    using ReadErr.hyps(4) by (auto simp: io_read_error_def read_handler_def read_msg_handler_def Let_def
      split: list.splits read_op.splits)
  have "conn_step Q e (net_conf ns) i (c, d) (c', d)"
    using conn_step.ReadErr [of Q e "net_conf ns" i c d err n] ReadErr.hyps(4) d' by simp
  then show ?case
    using sys_inv_quiet [OF ReadErr.IH ReadErr.hyps(2)] conn_ok_read_error(1) [OF _ ReadErr.hyps(3)] c' d' by blast
next
  case (WriteOk h ns d ws i c)
  then show ?case using sys_inv_quiet [OF _ _ conn_step.WriteOk] conn_ok_write_ok by blast
next
  case (WriteErr h ns d ws i c err n)
  then show ?case
    using sys_inv_quiet [OF WriteErr.IH WriteErr.hyps(2) conn_step.WriteErr] conn_ok_write_error [OF _ WriteErr.hyps(3)]
    by blast
next
  case (Timer h ns d ws i c)
  then show ?case using sys_inv_quiet [OF _ _ conn_step.Timer] conn_ok_timer by blast
next
  case (LateTimer h ns d ws i c)
  then show ?case using sys_inv_quiet [OF _ _ conn_step.LateTimer] conn_ok_late_timer by blast
next
  case (Delete h ns d ws i)
  then show ?case using sys_inv_delete by blast
next
  case (Feed h ns d ws cf')
  then show ?case using sys_inv_feed by blast
next
  case (Update h ns d ws split trim cfg ret ns')
  then show ?case using sys_inv_update by blast
next
  case (UpdateServices h ns d ws junk conf ret d')
  then show ?case using sys_inv_update_services by blast
next
  case (Spawn h ns d ws sid)
  then show ?case by (simp add: sys_inv_def accounts_def)
next
  case (Turn h ns d ws k sid ex st t ex')
  then show ?case using sys_inv_turn [OF _ assms(2)] by blast
next
  case (Adjust h ns d ws sid ex ex')
  then show ?case using sys_inv_adjust by blast
next
  case (Serve h ns d ws k sid r)
  then show ?case using sys_inv_serve by blast
qed

text \<open>A server just put into service, with empty queues and no workers yet.\<close>

lemma sys_inv_start:
  assumes "net_init split trim addr_ok init_threads setting (NetServer_new name) = Some (True, ns0)"
    and "net_service True ns0 = Some ns" "\<forall>sid. queue_of contents d sid = []"
  shows "sys_inv contents um ma e (net_conf ns) (service_ids d) [] (ns, d, [])"
    and "conns ns = []"
proof -
  show none: "conns ns = []"
    using assms(1,2) by (auto simp: net_init_def net_service_def NetServer_new_def do_accept_def case_prod_beta Let_def
      split: if_splits)
  show "sys_inv contents um ma e (net_conf ns) (service_ids d) [] (ns, d, [])"
    using net_init_inv(1) [OF assms(1,2)] assms(3) none by (simp add: sys_inv_def accounts_def conns_ok_def)
qed

section \<open>Catching up\<close>

text \<open>
  As long as every service has a worker that has not left its loop, the workers can finish what was
  delivered: the workload, two for a queued request and one for a request in a worker's hands, decreases
  with every turn of a running worker that finds a request and with every request served.
\<close>

definition staffed :: "'q Dispatcher \<Rightarrow> (u16 \<times> worker) list \<Rightarrow> bool" where
  "staffed d ws \<longleftrightarrow> (\<forall>sid \<in> service_ids d. \<exists>w. (sid, w) \<in> set ws \<and> w \<noteq> Left)"

definition busy :: "(u16 \<times> worker) list \<Rightarrow> nat" where
  "busy ws = length (concat (map (\<lambda>(k, w). in_hand w) ws))"

definition workload :: "('q \<Rightarrow> RpcInstance list) \<Rightarrow> 'q Dispatcher \<Rightarrow> (u16 \<times> worker) list \<Rightarrow> nat" where
  "workload contents d ws = 2 * (\<Sum>sid \<in> service_ids d. length (queue_of contents d sid)) + busy ws"

definition conn_stats :: "NetServer \<Rightarrow> (nat \<times> ConnStat) list" where
  "conn_stats ns = map (\<lambda>(i, c). (i, conn_stat c)) (conns ns)"

lemma finite_service_ids: "finite (service_ids d)"
proof -
  have "map_find (services d) sid \<noteq> None \<Longrightarrow> sid \<in> fst ` set (services d)" for sid
    by (induction "services d") (auto simp: map_find_def map_of_eq_None_iff)
  then have "service_ids d \<subseteq> fst ` set (services d)" by (auto simp: service_ids_def)
  then show ?thesis by (rule finite_subset) simp
qed

lemma busy_update:
  assumes "i < length ws" "ws ! i = (k, w)"
  shows "busy (ws[i := (k, w')]) + length (in_hand w) = busy ws + length (in_hand w')"
proof -
  have "busy ws = busy (take i ws @ [(k, w)] @ drop (Suc i) ws)"
    using assms by (metis append_Cons append_Nil id_take_nth_drop)
  moreover have "busy (ws[i := (k, w')]) = busy (take i ws @ [(k, w')] @ drop (Suc i) ws)"
    using assms by (simp add: upd_conv_take_nth_drop)
  ultimately show ?thesis by (simp add: busy_def)
qed

lemma staffed_update:
  assumes "staffed d ws" "k < length ws" "ws ! k = (sid, w)" "w' \<noteq> Left"
  shows "staffed d (ws[k := (sid, w')])"
  unfolding staffed_def
proof
  fix j
  assume "j \<in> service_ids d"
  then obtain v where v: "(j, v) \<in> set ws" "v \<noteq> Left" using assms(1) by (auto simp: staffed_def)
  show "\<exists>v. (j, v) \<in> set (ws[k := (sid, w')]) \<and> v \<noteq> Left"
  proof (cases "j = sid")
    case True
    then show ?thesis using set_update_memI [OF assms(2), of "(sid, w')"] assms(4) by blast
  next
    case False
    obtain n where n: "n < length ws" "ws ! n = (j, v)" using v(1) by (auto simp: in_set_conv_nth)
    then have "n \<noteq> k" using assms(3) False by auto
    then have "ws[k := (sid, w')] ! n = (j, v)" "n < length (ws[k := (sid, w')])" using n by simp_all
    then show ?thesis using v(2) nth_mem by metis
  qed
qed

lemma conn_unique: "distinct (conn_ids ns) \<Longrightarrow> (i, c) \<in> set (conns ns) \<Longrightarrow> (i, c') \<in> set (conns ns) \<Longrightarrow> c' = c"
  unfolding conn_ids_def by (metis map_of_is_SomeI option.inject)

lemma conn_update_conn_stats:
  assumes "distinct (conn_ids ns)" "(i, c) \<in> set (conns ns)" "conn_stat c' = conn_stat c"
  shows "conn_stats (conn_update i c' ns) = conn_stats ns"
  using conn_unique [OF assms(1,2)] assms(3) by (auto simp: conn_update_def conn_stats_def)

lemma answer_conn_stats:
  assumes "distinct (conn_ids ns)"
  shows "conn_stats (answer_conn um ma e r ns) = conn_stats ns"
proof (cases "map_of (conns ns) (full_socket r)")
  case None
  then show ?thesis by (simp add: answer_conn_def service_handle_RPC_answer)
next
  case (Some c)
  then show ?thesis
    using conn_update_conn_stats [OF assms map_of_SomeD [OF Some]]
    by (simp add: answer_conn_def service_handle_RPC_answer async_send_message_frame)
qed

lemma workload_serve:
  assumes "k < length ws" "ws ! k = (sid, Serving r)"
  shows "workload contents d (ws[k := (sid, AtTop)]) < workload contents d ws"
  using busy_update [OF assms, of AtTop] by (simp add: workload_def)

lemma workload_turn:
  assumes "fifo_queue Q contents" "k < length ws" "ws ! k = (sid, AtTop)" "map_find (services d) sid = Some ex"
    and "contents (rpc_queue ex) = r # rs"
  shows "\<exists>ex'. executor_service_turn Q kThreadRunning ex = (Handle r, ex') \<and>
    workload contents (set_executor sid ex' d) (ws[k := (sid, Serving r)]) < workload contents d ws"
proof -
  obtain ex' where ex': "executor_service_turn Q kThreadRunning ex = (Handle r, ex')" "contents (rpc_queue ex') = rs"
    using fifo_queueD(4,5) [OF assms(1,5)] by (simp add: executor_service_turn_def case_prod_beta Let_def)
  have mem: "sid \<in> service_ids d" using assms(4) by (auto simp: service_ids_def)
  note ids = service_ids_set_executor [OF assms(4), of ex']
  have q: "queue_of contents d sid = r # rs" using assms(4,5) by (simp add: queue_of_def)
  have "(\<Sum>j \<in> service_ids d. length (queue_of contents (set_executor sid ex' d) j)) <
      (\<Sum>j \<in> service_ids d. length (queue_of contents d j))"
    by (rule sum_strict_mono_ex1 [OF finite_service_ids]) (use mem ex'(2) q in \<open>auto simp: queue_of_set_executor\<close>)
  moreover have "busy (ws[k := (sid, Serving r)]) = Suc (busy ws)"
    using busy_update [OF assms(2,3), of "Serving r"] by simp
  ultimately show ?thesis using ex'(1) ids by (auto simp: workload_def)
qed

lemma work_step:
  fixes Q :: "'q EQueue"
  assumes "sys_run Q um ma e s h (ns, d, ws)" "fifo_queue Q contents" "staffed d ws" "distinct (conn_ids ns)"
    and "0 < workload contents d ws"
  shows "\<exists>h' ns' d' ws'. sys_run Q um ma e s (h @ h') (ns', d', ws') \<and> staffed d' ws' \<and> distinct (conn_ids ns') \<and>
    workload contents d' ws' < workload contents d ws \<and> conn_stats ns' = conn_stats ns \<and>
    (\<forall>ev \<in> set h'. \<exists>sid r. ev = Served sid r)"
proof (cases "\<exists>k sid r. k < length ws \<and> ws ! k = (sid, Serving r)")
  case True
  then obtain k sid r where k: "k < length ws" "ws ! k = (sid, Serving r)" by blast
  have st: "conn_stats (answer_conn um ma e r ns) = conn_stats ns" by (rule answer_conn_stats [OF assms(4)])
  have "conn_ids (answer_conn um ma e r ns) = conn_ids ns" by (simp add: answer_conn_def split: option.split)
  then show ?thesis
    using sys_run.Serve [OF assms(1) k] staffed_update [OF assms(3) k] workload_serve [OF k, of contents d] st assms(4)
    by (intro exI [where x = "[Served sid r]"] exI [where x = "answer_conn um ma e r ns"] exI [where x = d]
      exI [where x = "ws[k := (sid, AtTop)]"]) simp
next
  case False
  then have idle: "in_hand w = []" if "(k, w) \<in> set ws" for k w
    using that by (cases w) (auto simp: in_set_conv_nth)
  then have free: "busy ws = 0" by (auto simp: busy_def)
  have "\<exists>sid \<in> service_ids d. queue_of contents d sid \<noteq> []"
  proof (rule ccontr)
    assume "\<not> ?thesis"
    then have "workload contents d ws = 0" using free by (simp add: workload_def)
    then show False using assms(5) by simp
  qed
  then obtain sid where "sid \<in> service_ids d" "queue_of contents d sid \<noteq> []" by blast
  then obtain ex r rs where ex: "map_find (services d) sid = Some ex" "contents (rpc_queue ex) = r # rs"
    by (auto simp: queue_of_def service_ids_def neq_Nil_conv)
  obtain w where w: "(sid, w) \<in> set ws" "w \<noteq> Left"
    using assms(3) \<open>sid \<in> service_ids d\<close> by (auto simp: staffed_def)
  then have "(sid, AtTop) \<in> set ws" using idle [OF w(1)] by (cases w) auto
  then obtain k where k: "k < length ws" "ws ! k = (sid, AtTop)" by (auto simp: in_set_conv_nth)
  obtain ex' where ex': "executor_service_turn Q kThreadRunning ex = (Handle r, ex')"
      "workload contents (set_executor sid ex' d) (ws[k := (sid, Serving r)]) < workload contents d ws"
    using workload_turn [OF assms(2) k ex] by blast
  have "staffed (set_executor sid ex' d) (ws[k := (sid, Serving r)])"
    using staffed_update [OF assms(3) k, of "Serving r"] service_ids_set_executor [OF ex(1)] by (simp add: staffed_def)
  then show ?thesis
    using sys_run.Turn [OF assms(1) k ex(1) ex'(1)] ex'(2) assms(4)
    by (intro exI [where x = "[]"] exI [where x = ns] exI [where x = "set_executor sid ex' d"]
      exI [where x = "ws[k := (sid, Serving r)]"]) simp
qed

lemma catch_up:
  fixes Q :: "'q EQueue"
  assumes "sys_run Q um ma e s h (ns, d, ws)" "fifo_queue Q contents" "staffed d ws" "distinct (conn_ids ns)"
  shows "\<exists>h' ns' d' ws'. sys_run Q um ma e s (h @ h') (ns', d', ws') \<and> workload contents d' ws' = 0 \<and>
    conn_stats ns' = conn_stats ns \<and> (\<forall>ev \<in> set h'. \<exists>sid r. ev = Served sid r)"
  using assms(1,3,4)
proof (induction "workload contents d ws" arbitrary: h ns d ws rule: less_induct)
  case less
  show ?case
  proof (cases "workload contents d ws = 0")
    case True
    then show ?thesis using less.prems(1) by (intro exI [where x = "[]"] exI conjI) auto
  next
    case False
    then obtain h1 ns1 d1 ws1 where step: "sys_run Q um ma e s (h @ h1) (ns1, d1, ws1)" "staffed d1 ws1"
        "distinct (conn_ids ns1)" "workload contents d1 ws1 < workload contents d ws" "conn_stats ns1 = conn_stats ns"
        "\<forall>ev \<in> set h1. \<exists>sid r. ev = Served sid r"
      using work_step [OF less.prems(1) assms(2) less.prems(2,3)] by blast
    obtain h2 ns2 d2 ws2 where rest: "sys_run Q um ma e s ((h @ h1) @ h2) (ns2, d2, ws2)" "workload contents d2 ws2 = 0"
        "conn_stats ns2 = conn_stats ns1" "\<forall>ev \<in> set h2. \<exists>sid r. ev = Served sid r"
      using less.hyps [OF step(4,1,2,3)] by blast
    show ?thesis
      using rest step(5,6)
      by (intro exI [where x = "h1 @ h2"] exI [where x = ns2] exI [where x = d2] exI [where x = ws2]) auto
  qed
qed

lemma workload_0:
  assumes "workload contents d ws = 0"
  shows "queue_of contents d sid = []" and "hands sid ws = []"
proof -
  have "\<forall>j \<in> service_ids d. queue_of contents d j = []"
    using assms by (simp add: workload_def sum_eq_0_iff [OF finite_service_ids])
  then show "queue_of contents d sid = []"
    by (cases "sid \<in> service_ids d") (auto simp: queue_of_def service_ids_def split: option.split)
  show "hands sid ws = []" using assms by (auto simp: workload_def busy_def hands_def)
qed

lemma served_only:
  "\<forall>ev \<in> set h. \<exists>sid r. ev = Served sid r \<Longrightarrow> requests e ids sid h = []"
  by (force simp: requests_def)

section \<open>Draining\<close>

text \<open>
  When their writes complete, the working connections transmit all they hold, as long as that is less than
  \<open>2 ^ 32\<close> bytes.
\<close>

lemma conn_ok_drains:
  assumes "conn_ok e cf rcv dls out c" "conn_stat c = kWorking" "length out < 2 ^ 32"
  shows "\<exists>n. send_backlog ((io_write_ok cf ^^ n) c) = [] \<and> conn_stat ((io_write_ok cf ^^ n) c) = kWorking"
proof -
  have wait: "srv_waiting cf (c, Dispatcher_new :: unit Dispatcher)" by (rule conn_okD(3) [OF assms(1,2)])
  have "length (buf_data (io_buffer (send_bound c))) \<le> length out"
    using conn_okD(4) [OF assms(1,2)] by (auto simp: wire_stream_def send_backlog_def)
  then have len: "length (buf_data (io_buffer (send_bound c))) < 2 ^ 32" using assms(3) by linarith
  have "send_status c = kSendDone \<longrightarrow> buf_data (io_buffer (send_bound c)) = []"
    using conn_okD(1) [OF assms(1)] wait get_length_eq_0 [OF len]
    by (simp add: io_safe_def io_core_def send_done_def reader_views)
  then have live: "send_live cf c" using wait len by (simp add: send_live_def reader_views)
  have "send_backlog ((io_write_ok cf ^^ length (send_backlog c)) c) = []" by (rule srv_send.drained(1) [OF live order_refl])
  moreover have "conn_stat ((io_write_ok cf ^^ n) c) = kWorking" for n
    using srv_send.live_funpow [OF live, of n] by (simp add: send_live_def)
  ultimately show ?thesis by blast
qed

lemma conn_update_laws:
  "conn_update i c' (conn_update i c ns) = conn_update i c' ns"
  "(i, c) \<in> set (conns ns) \<Longrightarrow> distinct (conn_ids ns) \<Longrightarrow> conn_update i c ns = ns"
  "i \<in> set (conn_ids ns) \<Longrightarrow> (i, c) \<in> set (conns (conn_update i c ns))"
  "j \<noteq> i \<Longrightarrow> (j, c') \<in> set (conns (conn_update i c ns)) \<longleftrightarrow> (j, c') \<in> set (conns ns)"
  "(i, c') \<in> set (conns (conn_update i c ns)) \<Longrightarrow> c' = c"
proof -
  show "conn_update i c' (conn_update i c ns) = conn_update i c' ns"
    by (auto simp: conn_update_def comp_def case_prod_beta intro!: arg_cong [where f = "\<lambda>x. conns_update x ns"])
  show "conn_update i c ns = ns" if "(i, c) \<in> set (conns ns)" "distinct (conn_ids ns)"
  proof -
    have "map (\<lambda>(j, c'). if j = i then (j, c) else (j, c')) (conns ns) = conns ns"
      by (rule map_idI) (use conn_unique [OF that(2,1)] in auto)
    then show ?thesis by (simp add: conn_update_def)
  qed
  show "(i, c) \<in> set (conns (conn_update i c ns))" if "i \<in> set (conn_ids ns)"
    using that by (force simp: conn_update_def conn_ids_def)
  show "(j, c') \<in> set (conns (conn_update i c ns)) \<longleftrightarrow> (j, c') \<in> set (conns ns)" if "j \<noteq> i"
    using that by (force simp: conn_update_def)
  show "c' = c" if "(i, c') \<in> set (conns (conn_update i c ns))"
    using that by (auto simp: conn_update_def split: if_splits)
qed

lemma sys_run_writes:
  assumes "sys_run Q um ma e s h (ns, d, ws)" "distinct (conn_ids ns)" "(i, c) \<in> set (conns ns)"
  shows "sys_run Q um ma e s h (conn_update i ((io_write_ok (net_conf ns) ^^ n) c) ns, d, ws)"
proof (induction n)
  case 0
  then show ?case using assms by (simp add: conn_update_laws(2))
next
  case (Suc n)
  have "i \<in> set (conn_ids ns)" using assms(3) by (force simp: conn_ids_def)
  then show ?case
    using sys_run.WriteOk [OF Suc conn_update_laws(3)] by (simp add: conn_update_laws(1))
qed

definition conn_drained ::
  "(bytes \<Rightarrow> XtraReadOps_Request option) \<Rightarrow> (XtraReadOps_Response \<Rightarrow> bytes) \<Rightarrow> endian \<Rightarrow> NetConf \<Rightarrow> u16 set \<Rightarrow>
    event list \<Rightarrow> NetServer \<Rightarrow> nat \<Rightarrow> bool" where
  "conn_drained um ma e cf ids h ns i \<longleftrightarrow> (\<forall>c. (i, c) \<in> set (conns ns) \<and> conn_stat c = kWorking \<and>
     length (owed um ma e cf ids i h) < 2 ^ 32 \<longrightarrow> send_backlog c = [])"

lemma drain_ids:
  fixes Q :: "'q EQueue"
  assumes "sys_run Q um ma e s h (ns, d, ws)" "fifo_queue Q contents" "sys_inv contents um ma e cf ids [] s"
  shows "\<exists>ns'. sys_run Q um ma e s h (ns', d, ws) \<and> conn_stats ns' = conn_stats ns \<and>
    (\<forall>i \<in> set xs. conn_drained um ma e cf ids h ns' i)"
proof (induction xs)
  case Nil
  then show ?case using assms(1) by auto
next
  case (Cons i xs)
  then obtain ns1 where ns1: "sys_run Q um ma e s h (ns1, d, ws)" "conn_stats ns1 = conn_stats ns"
      "\<forall>j \<in> set xs. conn_drained um ma e cf ids h ns1 j"
    by blast
  note inv = sys_run_inv [OF ns1(1) assms(2,3)]
  then have dist: "distinct (conn_ids ns1)" by (simp add: sys_inv_def net_inv_def)
  show ?case
  proof (cases "conn_drained um ma e cf ids h ns1 i")
    case True
    then show ?thesis using ns1 by auto
  next
    case False
    then obtain c where c: "(i, c) \<in> set (conns ns1)" "conn_stat c = kWorking" "length (owed um ma e cf ids i h) < 2 ^ 32"
      by (auto simp: conn_drained_def)
    have "conn_ok e (net_conf ns1) (received i h) (delivered i h) (owed um ma e cf ids i h) c"
      using inv conns_okD [OF _ c(1)] same_limits_cong(3) [of "net_conf ns1" cf e] by (auto simp: sys_inv_def)
    from conn_ok_drains [OF this c(2,3)] obtain n where
      n: "send_backlog ((io_write_ok (net_conf ns1) ^^ n) c) = []" "conn_stat ((io_write_ok (net_conf ns1) ^^ n) c) = kWorking"
      by blast
    let ?ns2 = "conn_update i ((io_write_ok (net_conf ns1) ^^ n) c) ns1"
    have "conn_drained um ma e cf ids h ?ns2 j" if "j = i \<or> j \<in> set xs" for j
    proof (cases "j = i")
      case True
      then show ?thesis using n(1) conn_update_laws(5) by (auto simp: conn_drained_def)
    next
      case False
      then show ?thesis using that ns1(3) by (simp add: conn_drained_def conn_update_laws(4))
    qed
    then show ?thesis
      using sys_run_writes [OF ns1(1) dist c(1), of n] conn_update_conn_stats [OF dist c(1)] n(2) c(2) ns1(2)
      by (intro exI [where x = ?ns2]) simp
  qed
qed

lemma catch_up_and_drain:
  fixes Q :: "'q EQueue"
  assumes "sys_run Q um ma e s h (ns, d, ws)" "fifo_queue Q contents" "sys_inv contents um ma e cf ids [] s" "staffed d ws"
  shows "\<exists>h' ns' d' ws'. sys_run Q um ma e s (h @ h') (ns', d', ws') \<and> workload contents d' ws' = 0 \<and>
    conn_stats ns' = conn_stats ns \<and> (\<forall>ev \<in> set h'. \<exists>sid r. ev = Served sid r) \<and>
    (\<forall>i. conn_drained um ma e cf ids (h @ h') ns' i)"
proof -
  have "distinct (conn_ids ns)" using sys_run_inv [OF assms(1-3)] by (simp add: sys_inv_def net_inv_def)
  then obtain h' ns1 d' ws' where one: "sys_run Q um ma e s (h @ h') (ns1, d', ws')" "workload contents d' ws' = 0"
      "conn_stats ns1 = conn_stats ns" "\<forall>ev \<in> set h'. \<exists>sid r. ev = Served sid r"
    using catch_up [OF assms(1,2,4)] by blast
  obtain ns' where two: "sys_run Q um ma e s (h @ h') (ns', d', ws')" "conn_stats ns' = conn_stats ns1"
      "\<forall>i \<in> set (map fst (conn_stats ns1)). conn_drained um ma e cf ids (h @ h') ns' i"
    using drain_ids [OF one(1) assms(2,3)] by blast
  have "i \<in> set (map fst (conn_stats ns'))" if "(i, c) \<in> set (conns ns')" for i c
    using that by (force simp: conn_stats_def)
  then have "conn_drained um ma e cf ids (h @ h') ns' i" for i
    using two(2,3) by (metis conn_drained_def)
  then show ?thesis using one two by metis
qed

end
