(* ===== verification/ServiceProperties.thy ===== *)
theory ServiceProperties
  imports ServerProperties Pool
begin

text \<open>
  Properties of the services' side: the dispatcher's table, the executors' settings from start-up to a
  runtime update, the start-up sequence as a whole, and two workers that answer on one connection at the
  same time.
\<close>

section \<open>The table of services\<close>




section \<open>Settings of the executors\<close>

text \<open>A section of the service list in a configuration.\<close>

definition demo_section :: "int \<Rightarrow> int \<Rightarrow> int \<Rightarrow> service_setting" where
  "demo_section n h st = \<lparr>ss_instance_name = Some ''XtraTaskService'',
     ss_int = (\<lambda>k. if k = ''exec_thread_pool_size'' then Some n
                   else if k = ''exec_thread_pool_size_hard'' then Some h
                   else if k = ''exec_thread_pool_step_size'' then Some st else None)\<rparr>"

lemma demo_section_conf:
  assumes "0 < n" "n \<le> h" "h \<le> 100" "0 \<le> st"
  shows "base_handle_rpc_service_conf (demo_section n h st) junk =
    (0, \<lparr>exec_thread_number = n, exec_thread_number_hard = h, exec_thread_step_size = st\<rparr>)"
  using assms by (simp add: base_handle_rpc_service_conf_def demo_section_def Let_def)

text \<open>
  C33.  Invalid thread settings are not refused at start-up: the failure branch of a method of type \<open>bool\<close>
  returns \<open>-1\<close>, which is \<open>true\<close>, so initialisation reports success with zero threads configured, and the
  executor's initialisation then violates its assertion on every outcome.
\<close>

theorem invalid_settings_accepted:
  assumes "fst (base_handle_rpc_service_conf setting junk) \<noteq> 0"
    and "ss_instance_name setting = Some name" "name \<noteq> ''''"
    and "conf ''rpc.services'' = Some (setting # rest)"
  shows "service_init junk (Some conf) (XtraTaskService_new name) =
      (True, (XtraTaskService_new name)\<lparr>conf_ptr := Some ExecutorConf_zero\<rparr>) \<and>
    (\<forall>b ex. executor_init init_threads add_timer
        (Executor_new q (snd (service_init junk (Some conf) (XtraTaskService_new name)))) = Some (b, ex) \<longrightarrow> \<not> ex_sane ex)"
proof -
  have init: "service_init junk (Some conf) (XtraTaskService_new name) =
      (True, (XtraTaskService_new name)\<lparr>conf_ptr := Some ExecutorConf_zero\<rparr>)"
    using assms by (simp add: service_init_def handle_rpc_service_conf_def XtraTaskService_new_def bool_of_int_def
      case_prod_beta Let_def)
  then show ?thesis
    by (auto simp: executor_init_def Executor_new_def get_executor_conf_def XtraTaskService_new_def
      ExecutorConf_zero_def Let_def split: if_splits)
qed

theorem invalid_settings_accepted_witness:
  "fst (service_init ExecutorConf_zero (Some (\<lambda>k. if k = ''rpc.services'' then Some [demo_section 0 0 0] else None))
      (XtraTaskService_new ''XtraTaskService''))"
  using invalid_settings_accepted [of "demo_section 0 0 0" ExecutorConf_zero "''XtraTaskService''"
      "\<lambda>k. if k = ''rpc.services'' then Some [demo_section 0 0 0] else None" "[]",
      where q = "0 :: nat"]
  by (simp add: base_handle_rpc_service_conf_def demo_section_def Let_def)

text \<open>
  C34.  A runtime update never reaches the executors of a file that has their settings where start-up
  reads them: without an entry \<open>rpc_services\<close> every service reports \<open>-1\<close> and nothing at all is changed.
\<close>

theorem runtime_update_misses_services:
  fixes d :: "'q Dispatcher"
  assumes "conf ''rpc_services'' = None"
  shows "dispatcher_module_runtime junk conf d = Some (- int (length (services d)), d)"
proof -
  have ex: "executor_module_runtime junk conf ex = Some (- 1, ex)" for ex :: "'q Executor"
    using assms by (simp add: executor_module_runtime_def service_module_runtime_def)
  have "runtime_services junk conf m = Some (- int (length m), m)" for m :: "(u16, 'q Executor) std_map"
    by (induction m) (auto simp: ex)
  then show ?thesis by (simp add: dispatcher_module_runtime_def)
qed

theorem runtime_update_misses_services_witness:
  "dispatcher_module_runtime ExecutorConf_zero
      (\<lambda>k. if k = ''rpc.services'' then Some [demo_section 4 8 10] else None) demo_dispatcher = Some (- 1, demo_dispatcher)"
  using runtime_update_misses_services [of "\<lambda>k. if k = ''rpc.services'' then Some [demo_section 4 8 10] else None"
      ExecutorConf_zero demo_dispatcher]
  by (simp add: demo_dispatcher_def Dispatcher_new_def)


text \<open>
  C35.  A runtime update that sets the step size to 0, a valid setting, makes the periodic adjustment of a
  busy executor divide by zero: the update succeeds, the timer that calls the adjustment goes on running,
  and with any request waiting the division fails.
\<close>

theorem zero_step_divides:
  assumes "conf ''rpc_services'' = Some (setting # rest)"
    and "ss_instance_name setting = Some (instance_name (service_impl ex))" "instance_name (service_impl ex) \<noteq> ''''"
    and "base_handle_rpc_service_conf setting junk = (0, c)" "exec_thread_step_size c = 0"
    and "conf_ptr (service_impl ex) \<noteq> None" "fifo_queue Q contents" "contents (rpc_queue ex) \<noteq> []"
  shows "\<exists>ex'. executor_module_runtime junk conf ex = Some (0, ex') \<and>
    adjust_timer ex' = adjust_timer ex \<and> executor_threads_adjust Q ex' = None"
proof -
  obtain c0 where "conf_ptr (service_impl ex) = Some c0" using assms(6) by auto
  then have "service_module_runtime junk conf (service_impl ex) = Some (0, (service_impl ex)\<lparr>conf_ptr := Some c\<rparr>)"
    using assms(1-4) by (simp add: service_module_runtime_def handle_rpc_service_runtime_conf_def bool_of_int_def
      int_of_bool_def)
  then have run: "executor_module_runtime junk conf ex =
      Some (0, ex\<lparr>service_impl := (service_impl ex)\<lparr>conf_ptr := Some c\<rparr>, ex_conf := c\<rparr>)"
    by (simp add: executor_module_runtime_def get_executor_conf_def)
  have "0 < int (q_SIZE Q (rpc_queue ex))" using assms(8) by (simp add: fifo_queueD(6) [OF assms(7)])
  then show ?thesis
    using expect_threads_zero_step [OF assms(5)] by (simp add: run executor_threads_adjust_def Let_def)
qed

theorem zero_step_divides_witness:
  "\<exists>ex'. executor_module_runtime ExecutorConf_zero
      (\<lambda>k. if k = ''rpc_services'' then Some [demo_section 4 8 0] else None)
      ((Executor_new [instance_of 0 [1]] ((XtraTaskService_new ''XtraTaskService'')\<lparr>conf_ptr := Some ExecutorConf_zero\<rparr>))
        \<lparr>adjust_timer := True\<rparr>) = Some (0, ex') \<and> adjust_timer ex' \<and> executor_threads_adjust list_queue ex' = None"
proof -
  let ?ex = "(Executor_new [instance_of 0 [1]] ((XtraTaskService_new ''XtraTaskService'')\<lparr>conf_ptr := Some ExecutorConf_zero\<rparr>))
    \<lparr>adjust_timer := True\<rparr>"
  let ?conf = "\<lambda>k. if k = ''rpc_services'' then Some [demo_section 4 8 0] else None"
  have conf: "?conf ''rpc_services'' = Some [demo_section 4 8 0]" by simp
  have name: "ss_instance_name (demo_section 4 8 0) = Some (instance_name (service_impl ?ex))"
      "instance_name (service_impl ?ex) \<noteq> ''''"
    and ptr: "conf_ptr (service_impl ?ex) \<noteq> None" and queue: "rpc_queue ?ex \<noteq> []"
    by (simp_all add: demo_section_def Executor_new_def XtraTaskService_new_def)
  have c: "base_handle_rpc_service_conf (demo_section 4 8 0) ExecutorConf_zero =
      (0, \<lparr>exec_thread_number = 4, exec_thread_number_hard = 8, exec_thread_step_size = 0\<rparr>)"
    by (rule demo_section_conf) simp_all
  show ?thesis
    using zero_step_divides [where conf = ?conf, OF conf name c _ ptr list_queue_fifo queue] by simp
qed

section \<open>Settings of the running server\<close>

text \<open>
  A runtime update of the network settings: if the new settings load, the time limits, the safe list,
  the speed and the concurrency limit become the new ones; the service switch, the two message size limits
  and the address stay as they were, as do the connections and the pending accept; if they do not load,
  the update reports \<open>-1\<close> and nothing changes.
\<close>

theorem runtime_update_effect:
  assumes "(res, ns') = net_module_runtime split trim cfg ns" "(ok, conf) = load_conf split trim cfg NetConf_default"
  shows "(ok \<longrightarrow> res = 0 \<and>
      session_cancel_time_out (net_conf ns') = session_cancel_time_out conf \<and>
      ops_cancel_time_out (net_conf ns') = ops_cancel_time_out conf \<and> safe_ip (net_conf ns') = safe_ip conf \<and>
      service_speed (net_conf ns') = service_speed conf \<and>
      service_concurrency (net_conf ns') = service_concurrency conf \<and>
      service_enabled (net_conf ns') = service_enabled (net_conf ns) \<and>
      send_max_msg_size (net_conf ns') = send_max_msg_size (net_conf ns) \<and>
      recv_max_msg_size (net_conf ns') = recv_max_msg_size (net_conf ns) \<and>
      bind_addr (net_conf ns') = bind_addr (net_conf ns)) \<and>
    (\<not> ok \<longrightarrow> res = - 1 \<and> ns' = ns) \<and>
    conns ns' = conns ns \<and> accepts ns' = accepts ns \<and> current_concurrency ns' = current_concurrency ns"
proof -
  have eqs: "res = fst (net_module_runtime split trim cfg ns)" "ns' = snd (net_module_runtime split trim cfg ns)"
    by (simp_all flip: assms(1))
  have load: "load_conf split trim cfg NetConf_default = (ok, conf)" using assms(2) by simp
  have "bind_addr (net_conf ns') = bind_addr (net_conf ns)" if ok
    using that load unfolding eqs by (simp add: net_module_runtime_def start_feed_timer_def Let_def)
  moreover have "conns ns' = conns ns \<and> accepts ns' = accepts ns \<and> current_concurrency ns' = current_concurrency ns"
    unfolding eqs by (simp add: net_module_runtime_def case_prod_beta Let_def)
  moreover have "res = - 1 \<and> ns' = ns" if "\<not> ok"
    using that load unfolding eqs by (simp add: net_module_runtime_def)
  ultimately show ?thesis
    using net_module_runtime_eq [of split trim cfg conf ns] load unfolding eqs by (cases ok) simp_all
qed

theorem runtime_update_effect_witness:
  "service_concurrency (net_conf (snd (net_module_runtime (\<lambda>s. [s]) (\<lambda>s. s) (demo_config 0 7) (demo_server 0 3)))) = 7"
proof -
  obtain res ns' where run: "(res, ns') = net_module_runtime (\<lambda>s. [s]) (\<lambda>s. s) (demo_config 0 7) (demo_server 0 3)"
    by (metis surj_pair)
  have "(True, demo_conf 0 7) = load_conf (\<lambda>s. [s]) (\<lambda>s. s) (demo_config 0 7) NetConf_default"
    using demo_load [of 0 7 "\<lambda>s. [s]" "\<lambda>s. s"] by simp
  from runtime_update_effect [OF run this] show ?thesis by (simp add: demo_conf_def flip: run)
qed


section \<open>Start-up\<close>

text \<open>
  C29.  When the start-up sequence reports success the process serves: the settings are valid, the io
  threads run, exactly one accept is pending with no connection yet, the dispatcher is initialised and
  reachable for runtime updates, its table is well formed, every executor in it was started, and the log
  level is one of 1 to 7.
\<close>

theorem startup_complete:
  assumes "Captain_init w cap Dispatcher_new = Some (True, cap', d)"
  shows "\<exists>ns. net_server_ptr cap' = Some ns \<and> netconf_valid (net_conf ns) \<and> io_started ns \<and>
      io_threads ns = Some (io_thread_number (net_conf ns)) \<and> accepts ns = 1 \<and> conns ns = [] \<and> net_inv ns \<and>
    cap_initialized cap' \<and> initialized d \<and> runtime_attached d \<and> dispatcher_wf d \<and>
    (\<forall>(sid, ex) \<in> set (services d). pool_started ex) \<and>
    (\<exists>level path. log_settings cap' = Some (level, path) \<and> 1 \<le> level \<and> level \<le> 7)"
proof -
  from Captain_init_TrueD [OF assms] obtain setting ns0 sv d1 ns where
    init: "net_init (wa_split w) (wa_trim w) (wa_addr_ok w) (wa_io_threads w) setting (NetServer_new ''tzrpc_server'') =
        Some (True, ns0)" "net_service True ns0 = Some ns"
    and reg: "register_service (wa_queue0 w) (wa_exec_threads w) (wa_add_timer w) XTRA_TASK_SERVICE sv Dispatcher_new = Some d1"
    and d: "d = snd (dispatcher_init d1)"
    and cap': "net_server_ptr cap' = Some ns" "cap_initialized cap'" "log_settings cap' = Some (init_log setting)"
    by metis
  note net = net_init_inv [OF init]
  have "conns ns = []"
    using init by (auto simp: net_init_def net_service_def do_accept_def NetServer_new_def case_prod_beta Let_def
      split: if_splits)
  moreover have "accepts ns = 1" using net(1) by (simp add: net_inv_def)
  moreover have "dispatcher_wf d1" by (rule dispatcher_wf_register [OF dispatcher_wf_new reg])
  then have "dispatcher_wf d" unfolding d by (rule dispatcher_wf_init)
  moreover have "initialized d" "runtime_attached d" "\<forall>(sid, ex) \<in> set (services d). pool_started ex"
    by (auto simp: d dispatcher_init_def executor_start_def Let_def)
  moreover have "\<exists>level path. log_settings cap' = Some (level, path) \<and> 1 \<le> level \<and> level \<le> 7"
    using cap'(3) init_log_bounds [of setting] by (cases "init_log setting") simp
  ultimately show ?thesis using net cap' by blast
qed

definition demo_world_at :: "'q \<Rightarrow> bool \<Rightarrow> 'q world_answers" where
  "demo_world_at q0 exec_ok = \<lparr>timer_ok = True, setting_ok = True, wa_setting = Some (demo_config 0 3),
     wa_services = (\<lambda>k. if k = ''rpc.services'' then Some [demo_section 4 8 10] else None),
     wa_split = (\<lambda>s. [s]), wa_trim = (\<lambda>s. s), wa_addr_ok = (\<lambda>a. True), wa_io_threads = (\<lambda>n. True),
     wa_junk = ExecutorConf_zero, wa_queue0 = q0, wa_exec_threads = (\<lambda>n. exec_ok), wa_add_timer = True, wa_listen_ok = True\<rparr>"

abbreviation demo_world :: "bool \<Rightarrow> nat world_answers" where
  "demo_world \<equiv> demo_world_at 0"

lemma demo_net_init:
  "net_init (\<lambda>s. [s]) (\<lambda>s. s) (\<lambda>a. True) (\<lambda>n. True) (demo_config 0 3) (NetServer_new name) =
    Some (True, (NetServer_new name)\<lparr>net_conf := demo_conf 0 3,
      ns_endpoint := Some (''0.0.0.0'', 8434), io_threads := Some 1, ns_runtime_attached := True, ns_status_attached := True\<rparr>)"
proof -
  have "load_conf (\<lambda>s. [s]) (\<lambda>s. s) (demo_config 0 3) (net_conf (NetServer_new name)) = (True, demo_conf 0 3)"
    using demo_load [of 0 3] by (simp add: NetServer_new_def)
  then show ?thesis by (simp add: net_init_def Let_def) (simp add: demo_conf_def NetConf_default_def)
qed

lemma demo_service_init:
  "service_init ExecutorConf_zero (Some (\<lambda>k. if k = ''rpc.services'' then Some [demo_section 4 8 10] else None))
    (XtraTaskService_new ''XtraTaskService'') = (True, (XtraTaskService_new ''XtraTaskService'')\<lparr>conf_ptr :=
      Some \<lparr>exec_thread_number = 4, exec_thread_number_hard = 8, exec_thread_step_size = 10\<rparr>\<rparr>)"
proof -
  have "base_handle_rpc_service_conf (demo_section 4 8 10) ExecutorConf_zero =
      (0, \<lparr>exec_thread_number = 4, exec_thread_number_hard = 8, exec_thread_step_size = 10\<rparr>)"
    by (rule demo_section_conf) simp_all
  then show ?thesis
    by (simp add: service_init_def handle_rpc_service_conf_def XtraTaskService_new_def Let_def)
      (simp add: demo_section_def)
qed

lemma demo_start: "\<exists>cap' d. Captain_init (demo_world_at q0 exec_ok) Captain_new Dispatcher_new = Some (True, cap', d)"
  by (simp add: Captain_init_def demo_world_at_def Captain_new_def demo_net_init demo_service_init register_service_def
    executor_init_def Dispatcher_new_def Executor_new_def get_executor_conf_def dispatcher_init_def net_service_def Let_def)

theorem startup_complete_witness:
  "\<exists>cap' d ns. Captain_init (demo_world True) Captain_new Dispatcher_new = Some (True, cap', d) \<and>
    net_server_ptr cap' = Some ns \<and> accepts ns = 1 \<and> initialized d"
proof -
  obtain cap' d where run: "Captain_init (demo_world True) Captain_new Dispatcher_new = Some (True, cap', d)"
    using demo_start [of "0 :: nat"] by blast
  with startup_complete [OF run] show ?thesis by blast
qed

text \<open>
  C30.  Start-up succeeds without its service: when the executor's threads cannot be created, registering
  only writes a log line, start-up goes on to report success, the table stays empty, and every well-formed
  request is refused with \<open>INVALID_SERVICE\<close>.
\<close>

theorem service_silently_missing:
  assumes "Captain_init w cap Dispatcher_new = Some (True, cap', d)" "\<forall>n. \<not> wa_exec_threads w n"
  shows "services d = [] \<and> route_of e p (service_ids d) =
    (if request_ok e p then Refuse RpcResponseStatus.INVALID_SERVICE
     else Refuse RpcResponseStatus.INVALID_REQUEST)"
proof -
  from Captain_init_TrueD [OF assms(1)] obtain sv d1 where
    reg: "register_service (wa_queue0 w) (wa_exec_threads w) (wa_add_timer w) XTRA_TASK_SERVICE sv Dispatcher_new = Some d1"
    and d: "d = snd (dispatcher_init d1)"
    by metis
  from reg assms(2) have "d1 = Dispatcher_new"
    by (auto simp: register_service_def executor_init_def Let_def Dispatcher_new_def split: if_splits option.splits)
  then have "services d = []" by (simp add: d dispatcher_init_def Dispatcher_new_def Let_def)
  then show ?thesis by (simp add: route_of_def service_ids_def map_find_def dom_def Let_def)
qed

theorem service_silently_missing_witness:
  "\<exists>cap' d. Captain_init (demo_world False) Captain_new Dispatcher_new = Some (True, cap', d) \<and> services d = []"
proof -
  obtain cap' d where run: "Captain_init (demo_world False) Captain_new Dispatcher_new = Some (True, cap', d)"
    using demo_start [of "0 :: nat"] by blast
  have "\<forall>n. \<not> wa_exec_threads (demo_world False) n" by (simp add: demo_world_at_def)
  from service_silently_missing [OF run this] run show ?thesis by blast
qed


section \<open>Several workers on one queue\<close>

text \<open>
  Several workers on one queue lose nothing and do nothing twice: whatever the threads, the dispatcher,
  the thread pool and the connections do, the requests are taken in the order of the queue, each is served
  once or still in a worker's hand, and each connection that is still there got, after what it had before,
  exactly the answers to the served requests that came from it, in the order they were served.
\<close>

theorem pool_serves_once:
  assumes "fifo_queue Q contents" "\<forall>k c. cs0 k = Some c \<longrightarrow> send_inv cf c"
    and "pool_run Q unmarshal marshal e cf (replicate n AtTop, ex0, cs0) ps rs (ws, ex, cs)"
  shows "(\<exists>taken. taken @ contents (rpc_queue ex) = contents (rpc_queue ex0) @ ps \<and>
      mset taken = mset rs + mset (in_hands ws)) \<and>
    (\<forall>k c. cs k = Some c \<longrightarrow> (\<exists>c0. cs0 k = Some c0 \<and> sent_bytes c @ send_backlog c = sent_bytes c0 @ send_backlog c0 @
      concat (map (answer_bytes unmarshal marshal e cf) (filter (\<lambda>r. full_socket r = k) rs))))"
proof
  have "in_hands (replicate n AtTop) = []" by (simp add: in_hands_def)
  then show "\<exists>taken. taken @ contents (rpc_queue ex) = contents (rpc_queue ex0) @ ps \<and> mset taken = mset rs + mset (in_hands ws)"
    using pool_run_taken [OF assms(3,1)] by simp
  show "\<forall>k c. cs k = Some c \<longrightarrow> (\<exists>c0. cs0 k = Some c0 \<and> sent_bytes c @ send_backlog c = sent_bytes c0 @ send_backlog c0 @
      concat (map (answer_bytes unmarshal marshal e cf) (filter (\<lambda>r. full_socket r = k) rs)))"
    using pool_run_streams [OF assms(3)] assms(2) by (fastforce simp: wire_stream_def)
qed

text \<open>An executor with two requests of connection 0, and that connection.\<close>

definition demo_pair :: "RpcInstance list" where
  "demo_pair = [(instance_of 0 [1])\<lparr>opcode := 7\<rparr>, (instance_of 0 [1])\<lparr>opcode := CMD_WRITE\<rparr>]"

definition demo_pair_executor :: "RpcInstance list Executor" where
  "demo_pair_executor = Executor_new demo_pair (XtraTaskService_new ''XtraTaskService'')"

definition demo_pair_conns :: "nat \<Rightarrow> TcpConn option" where
  "demo_pair_conns = [0 \<mapsto> demo_conn]"

lemma demo_pair_conns_inv: "\<forall>k c. demo_pair_conns k = Some c \<longrightarrow> send_inv NetConf_default c"
  using demo_conn_live by (simp add: demo_pair_conns_def send_live_def)

theorem pool_serves_once_witness:
  "\<exists>ex cs. pool_run list_queue (\<lambda>_. None) (\<lambda>_. []) Big NetConf_default (replicate 2 AtTop, demo_pair_executor, demo_pair_conns)
      [] (rev demo_pair) ([AtTop, AtTop], ex, cs) \<and> rpc_queue ex = []"
proof -
  obtain ex cs where run: "pool_run list_queue (\<lambda>_. None) (\<lambda>_. []) Big NetConf_default
      (replicate 2 AtTop, demo_pair_executor, demo_pair_conns) [] (rev demo_pair) ([AtTop, AtTop], ex, cs)"
    using two_workers_swap [OF list_queue_fifo, of demo_pair_executor _ _ "[]"]
    by (force simp: demo_pair_executor_def demo_pair_def Executor_new_def numeral_2_eq_2)
  obtain taken where "taken @ rpc_queue ex = demo_pair" "mset taken = mset demo_pair"
    using pool_serves_once [OF list_queue_fifo demo_pair_conns_inv run]
    by (auto simp: demo_pair_executor_def Executor_new_def in_hands_def)
  then have "rpc_queue ex = []" by (metis append_self_conv length_append add_diff_cancel_left' mset_eq_length length_0_conv diff_self_eq_0)
  with run show ?thesis by blast
qed

text \<open>
  C15.  One worker keeps the order of the requests, two need not.  With a single worker the requests served,
  the one in its hand and the queue are always, in this order, what was queued and pushed.  With two, the
  first two requests of the queue can be served in the opposite order, so that a connection they both
  came from gets the second answer first; nothing in an answer says which request it belongs to.
\<close>

theorem pool_order:
  assumes "fifo_queue Q contents"
  shows "(pool_run Q unmarshal marshal e cf ([AtTop], ex0, cs0) ps rs (ws, ex, cs) \<and> length ws = 1 \<longrightarrow>
      rs @ in_hands ws @ contents (rpc_queue ex) = contents (rpc_queue ex0) @ ps) \<and>
    (contents (rpc_queue ex0) = r1 # r2 # rest \<and> full_socket r1 = k \<and> full_socket r2 = k \<and> cs0 = [k \<mapsto> c0] \<and> send_inv cf c0 \<longrightarrow>
      (\<exists>ex' cs' c'. pool_run Q unmarshal marshal e cf ([AtTop, AtTop], ex0, cs0) [] [r2, r1] ([AtTop, AtTop], ex', cs') \<and>
        cs' k = Some c' \<and> sent_bytes c' @ send_backlog c' = sent_bytes c0 @ send_backlog c0 @
          answer_bytes unmarshal marshal e cf r2 @ answer_bytes unmarshal marshal e cf r1))"
proof (intro conjI impI)
  assume "pool_run Q unmarshal marshal e cf ([AtTop], ex0, cs0) ps rs (ws, ex, cs) \<and> length ws = 1"
  then show "rs @ in_hands ws @ contents (rpc_queue ex) = contents (rpc_queue ex0) @ ps"
    using pool_run_single [OF _ assms] by fastforce
next
  assume two: "contents (rpc_queue ex0) = r1 # r2 # rest \<and> full_socket r1 = k \<and> full_socket r2 = k \<and> cs0 = [k \<mapsto> c0] \<and>
    send_inv cf c0"
  then obtain ex' cs' where run: "pool_run Q unmarshal marshal e cf ([AtTop, AtTop], ex0, cs0) [] [r2, r1] ([AtTop, AtTop], ex', cs')"
      "cs' k \<noteq> None"
    using two_workers_swap [OF assms, of ex0 r1 r2 rest unmarshal marshal e cf cs0] by auto
  then show "\<exists>ex' cs' c'. pool_run Q unmarshal marshal e cf ([AtTop, AtTop], ex0, cs0) [] [r2, r1] ([AtTop, AtTop], ex', cs') \<and>
      cs' k = Some c' \<and> sent_bytes c' @ send_backlog c' = sent_bytes c0 @ send_backlog c0 @
        answer_bytes unmarshal marshal e cf r2 @ answer_bytes unmarshal marshal e cf r1"
    using pool_run_streams [OF run(1), where k = k] two by (fastforce simp: wire_stream_def split: if_splits)
qed

theorem pool_order_witness:
  "\<exists>ex cs c. pool_run list_queue (\<lambda>_. None) (\<lambda>_. []) Big NetConf_default ([AtTop, AtTop], demo_pair_executor, demo_pair_conns)
      [] [demo_pair ! 1, demo_pair ! 0] ([AtTop, AtTop], ex, cs) \<and> cs 0 = Some c \<and>
    sent_bytes c @ send_backlog c =
      answer_bytes (\<lambda>_. None) (\<lambda>_. []) Big NetConf_default (demo_pair ! 1) @
      answer_bytes (\<lambda>_. None) (\<lambda>_. []) Big NetConf_default (demo_pair ! 0)"
proof -
  have "send_inv NetConf_default demo_conn"
    using demo_conn_live by (simp add: send_live_def)
  moreover have "rpc_queue demo_pair_executor = [demo_pair ! 0, demo_pair ! 1]" "full_socket (demo_pair ! 0) = 0"
    "full_socket (demo_pair ! 1) = 0"
    by (simp_all add: demo_pair_executor_def demo_pair_def Executor_new_def instance_of_def RpcInstance_new_def Let_def)
  ultimately show ?thesis
    using pool_order [OF list_queue_fifo, where ?ex0.0 = demo_pair_executor and ?cs0.0 = demo_pair_conns and k = 0
        and ?r1.0 = "demo_pair ! 0" and ?r2.0 = "demo_pair ! 1" and rest = "[]" and ?c0.0 = demo_conn
        and unmarshal = "\<lambda>_. None" and marshal = "\<lambda>_. []" and e = Big and cf = NetConf_default]
    unfolding demo_pair_conns_def demo_conn_quiet append_Nil by blast
qed


section \<open>Two workers, one connection\<close>

text \<open>
  C27.  The test of the send status outside the lock loses bytes: when two workers append small replies to
  an idle connection and both pass the test before either enters the locked part, the connection ends up
  marked idle while a write of both replies is outstanding; the next small reply then overwrites the block
  of that write, so that what is transmitted starts with the third reply instead of the first.
\<close>

theorem send_race:
  assumes "send_live cf c" "send_status c = kSendDone" "send_accepts cf m1" "send_accepts cf m2" "send_accepts cf m3"
    and "length (Message_net_str e m1) + length (Message_net_str e m2) \<le> kFixedIoBufferSize"
    and "length (Message_net_str e m3) \<le> length (Message_net_str e m1) + length (Message_net_str e m2)"
  shows "\<exists>c'. run_schedule e cf [0, 1, 0, 1, 0, 1] [AtAppend m1, AtAppend m2] c = ([Finished, Finished], c') \<and>
    send_status c' = kSendDone \<and>
    sk_writes (socket c') = [length (Message_net_str e m1) + length (Message_net_str e m2)] \<and>
    in_flight (snd (async_send_message e cf m3 c')) =
      (Message_net_str e m3 @ drop (length (Message_net_str e m3)) (Message_net_str e m1 @ Message_net_str e m2)) @
      Message_net_str e m3"
proof -
  let ?n = "length (Message_net_str e m1) + length (Message_net_str e m2)"
  let ?c2 = "push_message e m2 (push_message e m1 c)"
  have c: "conn_stat c = kWorking" "\<not> was_cancelled c" "send_inv cf c" "buf_data (io_buffer (send_bound c)) = []"
    "sk_writes (socket c) = []"
    using assms(1,2) by (simp_all add: send_live_def send_inv_def)
  have data: "buf_data (io_buffer (send_bound ?c2)) = Message_net_str e m1 @ Message_net_str e m2"
    using c(4) by (simp add: push_message_def Buffer_append_data)
  have inv: "send_inv cf ?c2" using push_message_stream c(3) by blast
  have "sk_writes (socket (raced cf ?n ?c2)) = [?n]"
    using c(5) by (simp add: raced_def start_block_def Let_def push_message_def)
  moreover have "send_status (raced cf ?n ?c2) = kSendDone" by (simp add: raced_def)
  moreover have "in_flight (snd (async_send_message e cf m3 (raced cf ?n ?c2))) =
      (Message_net_str e m3 @ drop (length (Message_net_str e m3)) (Message_net_str e m1 @ Message_net_str e m2)) @
      Message_net_str e m3"
    using c assms(2,7) inv
    by (intro raced_overwrites [OF assms(1,2,5) data _ assms(6)]) (simp_all add: push_message_def sizeof_Header_def)
  ultimately show ?thesis
    using two_senders_race [OF assms(1-4,6)] by blast
qed

theorem send_race_witness:
  "\<exists>c'. run_schedule Big NetConf_default [0, 1, 0, 1, 0, 1] [AtAppend (Message_of [1]), AtAppend (Message_of [2])]
      (set_conn_stat kWorking (TcpConn_new True socket_connected)) = ([Finished, Finished], c') \<and>
    send_status c' = kSendDone \<and> sk_writes (socket c') = [34]"
proof -
  let ?c = "set_conn_stat kWorking (TcpConn_new True socket_connected)"
  have "send_status ?c = kSendDone"
    by (simp add: TcpConn_new_def set_conn_stat_def set_tcp_nonblocking_def set_tcp_nodelay_def Let_def)
  have "length (Message_net_str Big (Message_of [w])) = 17" for w by (simp add: sizeof_Header_def)
  then have len: "length (Message_net_str Big (Message_of [1])) + length (Message_net_str Big (Message_of [2])) = 34"
    "length (Message_net_str Big (Message_of [3])) = 17"
    by (simp_all del: length_Message_net_str)
  then show ?thesis
    using send_race [OF started_live \<open>send_status ?c = kSendDone\<close> default_accepts(1) default_accepts(1) default_accepts(1),
        of Big "Message_of [1]" "Message_of [2]" "Message_of [3]"]
    unfolding len by (auto simp: kFixedIoBufferSize_def simp del: run_schedule.simps)
qed

end
