(* ===== verification/SystemProperties.thy ===== *)
theory SystemProperties
  imports System ServiceProperties
begin

text \<open>
  The properties of the whole server, from the start of the process through any run.
\<close>

lemma started_queues:
  assumes "Captain_init w cap Dispatcher_new = Some (True, cap', d)" "contents (wa_queue0 w) = []"
  shows "queue_of contents d sid = []"
proof -
  from Captain_init_TrueD [OF assms(1)] obtain sv d1 where
    reg: "register_service (wa_queue0 w) (wa_exec_threads w) (wa_add_timer w) XTRA_TASK_SERVICE sv Dispatcher_new = Some d1"
    and d: "d = snd (dispatcher_init d1)"
    by metis
  have "rpc_queue ex = wa_queue0 w" if "executor_init it at (Executor_new (wa_queue0 w) sv) = Some (b, ex)" for it at b ex
    using that by (auto simp: executor_init_def Executor_new_def Let_def split: option.splits if_splits)
  then have "\<forall>(k, ex) \<in> set (services d1). rpc_queue ex = wa_queue0 w"
    using reg by (fastforce simp: register_service_def Dispatcher_new_def split: option.splits if_splits prod.splits)
  then have "\<forall>(k, ex) \<in> set (services d). rpc_queue ex = wa_queue0 w"
    by (auto simp: d dispatcher_init_def executor_start_def Let_def)
  then show ?thesis
    using assms(2) by (auto simp: queue_of_def map_find_def split: option.split dest!: map_of_SomeD)
qed

lemma started_sys_inv:
  assumes "Captain_init w cap Dispatcher_new = Some (True, cap', d0)" "net_server_ptr cap' = Some ns0"
    and "contents (wa_queue0 w) = []"
  shows "sys_inv contents um ma e (net_conf ns0) (service_ids d0) [] (ns0, d0, [])"
proof -
  from Captain_init_TrueD [OF assms(1)] obtain setting ns ns' where
    init: "net_init (wa_split w) (wa_trim w) (wa_addr_ok w) (wa_io_threads w) setting (NetServer_new ''tzrpc_server'') =
        Some (True, ns)" "net_service True ns = Some ns'"
    and ptr: "net_server_ptr cap' = Some ns'"
    by metis
  have "ns' = ns0" using ptr assms(2) by simp
  moreover have "\<forall>sid. queue_of contents d0 sid = []"
    using started_queues [where contents = contents, OF assms(1,3)] by blast
  ultimately show ?thesis using sys_inv_start(1) [OF init, of contents d0] by blast
qed

section \<open>An example run\<close>

text \<open>
  The demo server is started, accepts a connection, reads one request for the demo service and starts a
  worker.
\<close>

definition first_request :: bytes where
  "first_request = request_payload Little 1 2 [7]"

lemma demo_started:
  assumes "Captain_init (demo_world_at q0 True) Captain_new Dispatcher_new = Some (True, cap, d)"
  shows "service_ids d = {1}"
    and "net_server_ptr cap = Some (do_accept ((NetServer_new ''tzrpc_server'')\<lparr>net_conf := demo_conf 0 3,
      ns_endpoint := Some (''0.0.0.0'', 8434), io_threads := Some 1, ns_runtime_attached := True, ns_status_attached := True,
      io_started := True\<rparr>))"
proof -
  show "service_ids d = {1}" "net_server_ptr cap = Some (do_accept ((NetServer_new ''tzrpc_server'')\<lparr>net_conf := demo_conf 0 3,
      ns_endpoint := Some (''0.0.0.0'', 8434), io_threads := Some 1, ns_runtime_attached := True, ns_status_attached := True,
      io_started := True\<rparr>))"
    using assms
    by (auto simp: Captain_init_def demo_world_at_def Captain_new_def demo_net_init demo_service_init register_service_def executor_init_def
      Dispatcher_new_def Executor_new_def get_executor_conf_def dispatcher_init_def net_service_def Let_def
      service_ids_def map_find_def XTRA_TASK_SERVICE_def dom_def executor_start_def split: if_splits)
qed

abbreviation demo_unmarshal :: "bytes \<Rightarrow> XtraReadOps_Request option" where
  "demo_unmarshal \<equiv> \<lambda>bs. None"

abbreviation demo_marshal :: "XtraReadOps_Response \<Rightarrow> bytes" where
  "demo_marshal \<equiv> \<lambda>r. []"

lemma demo_accepted:
  assumes "ns0 = do_accept ((NetServer_new ''tzrpc_server'')\<lparr>net_conf := demo_conf 0 3,
      ns_endpoint := Some (''0.0.0.0'', 8434), io_threads := Some 1, ns_runtime_attached := True, ns_status_attached := True,
      io_started := True\<rparr>)"
    and "s = TcpConn_start list_queue Big (demo_conf 0 3) 0 (TcpConn_new True socket_connected) d"
  shows "\<exists>ns. io_accept list_queue Big True None (Some ''10.0.0.1'') socket_connected ns0 d = (ns, snd s) \<and>
    conns ns = [(0, fst s)] \<and> net_conf ns = demo_conf 0 3"
  by (simp add: assms io_accept_def accept_handler_def do_accept_def NetServer_new_def demo_conf_def NetConf_default_def
    check_safe_ip_def get_service_token_def TcpConn_create_def conn_update_def case_prod_beta Let_def)

lemma demo_accept_run:
  assumes "Captain_init (demo_world_at [] True) Captain_new Dispatcher_new = Some (True, cap, d0)"
    and "net_server_ptr cap = Some ns0"
    and "s = TcpConn_start list_queue Big (demo_conf 0 3) 0 (TcpConn_new True socket_connected) d0"
  shows "\<exists>ns. sys_run list_queue demo_unmarshal demo_marshal Big (ns0, d0, []) [] (ns, d0, []) \<and>
    conns ns = [(0, fst s)] \<and> net_conf ns = demo_conf 0 3 \<and> net_conf ns0 = demo_conf 0 3"
    and "conn_ok Big (demo_conf 0 3) [] [] [] (fst s)"
proof -
  have ns0: "ns0 = do_accept ((NetServer_new ''tzrpc_server'')\<lparr>net_conf := demo_conf 0 3,
      ns_endpoint := Some (''0.0.0.0'', 8434), io_threads := Some 1, ns_runtime_attached := True, ns_status_attached := True,
      io_started := True\<rparr>)"
    using demo_started [OF assms(1)] assms(2) by simp
  obtain ns1 where acc: "io_accept list_queue Big True None (Some ''10.0.0.1'') socket_connected ns0 d0 = (ns1, snd s)"
      "conns ns1 = [(0, fst s)]" "net_conf ns1 = demo_conf 0 3"
    using demo_accepted [OF ns0 assms(3)] by blast
  note start = conn_ok_start [of socket_connected, OF socket_connected_simps, where Q = list_queue and e = Big and
      cf = "demo_conf 0 3" and i = 0 and ok = True and d = d0]
  show "conn_ok Big (demo_conf 0 3) [] [] [] (fst s)" using start(1) by (simp add: assms(3))
  have "net_conf ns0 = demo_conf 0 3" by (simp add: ns0 do_accept_def)
  moreover have "sys_run list_queue demo_unmarshal demo_marshal Big (ns0, d0, []) [] (ns1, d0, [])"
    using sys_run.Accept [OF sys_run.Start socket_connected_simps acc(1)] start(2) by (simp add: assms(3))
  ultimately show "\<exists>ns. sys_run list_queue demo_unmarshal demo_marshal Big (ns0, d0, []) [] (ns, d0, []) \<and>
      conns ns = [(0, fst s)] \<and> net_conf ns = demo_conf 0 3 \<and> net_conf ns0 = demo_conf 0 3"
    using acc by blast
qed

lemma demo_run:
  assumes "Captain_init (demo_world_at [] True) Captain_new Dispatcher_new = Some (True, cap, d0)"
    and "net_server_ptr cap = Some ns0"
  shows "\<exists>ns d. sys_run list_queue demo_unmarshal demo_marshal Big (ns0, d0, [])
    (read_events 0 (Message_net_str Little (Message_of first_request)) [first_request]) (ns, d, [(1, AtTop)]) \<and>
    service_ids d = {1}"
proof -
  let ?run = "sys_run list_queue demo_unmarshal demo_marshal Big (ns0, d0, [])"
  let ?chunk = "Message_net_str Little (Message_of first_request)"
  have ids: "service_ids d0 = {1}" using demo_started [OF assms(1)] by simp
  let ?s = "TcpConn_start list_queue Big (demo_conf 0 3) 0 (TcpConn_new True socket_connected) d0"
  obtain ns1 where run1: "?run [] (ns1, d0, [])" and acc: "conns ns1 = [(0, fst ?s)]" "net_conf ns1 = demo_conf 0 3"
    using demo_accept_run(1) [OF assms refl] by blast
  note start = demo_accept_run(2) [OF assms refl]
  have wait: "srv_waiting (demo_conf 0 3) ?s" "srv_residue Big ?s = []"
    by (rule TcpConn_start_waiting [OF socket_connected_simps(1,2) refl])+
  have work: "conn_stat (fst ?s) = kWorking" by (rule srv_stat(1) [OF wait(1)])
  have un: "unread Big (fst ?s) = []" using wait(2) reader_views(1) [of Big "fst ?s" "snd ?s"] by simp
  have len: "length first_request = 17"
    by (simp add: first_request_def request_payload_def sizeof_RpcRequestHeader_def)
  have hok: "header_ok (demo_conf 0 3) h = header_ok NetConf_default h" for h
    by (simp add: header_ok_def demo_conf_def)
  have poss: "read_possible Big (fst ?s) ?chunk"
    using waiting_reads_single [OF wait, of ?chunk list_queue 0] conn_okD(7) [OF start work] len un
      reader_views(2) [of "fst ?s" "snd ?s"]
    by (simp add: read_possible_def kFixedIoBufferSize_def sizeof_Header_def)
  have over: "handed_over Big (demo_conf 0 3) (fst ?s) ?chunk = [first_request]"
    using frames_encode_all [of "[first_request]" "header_ok (demo_conf 0 3)" Big Little] work un len
    by (simp add: handed_over_def hok)
  obtain c' d' where io: "io_read_ok list_queue Big (demo_conf 0 3) 0 ?chunk (fst ?s, d0) = (c', d')"
    by (metis surj_pair)
  have "?run (read_events 0 ?chunk [first_request]) (conn_update 0 c' ns1, d', [])"
    using sys_run.Read [OF run1, of 0 "fst ?s" ?chunk c' d'] acc poss io over by simp
  moreover have "d' = dispatch_all list_queue Big (demo_conf 0 3) 0 [first_request] d0"
    using conn_ok_read [OF start poss io refl] over by simp
  then have "service_ids d' = {1}"
    using dispatch_all_ids [of "[first_request]" list_queue Big "demo_conf 0 3" 0 d0] len ids by simp
  ultimately show ?thesis using sys_run.Spawn [of _ _ _ _ _ _ _ _ "[]" 1] by fastforce
qed

lemma first_request_queued: "requests e {1} 1 (read_events i chunk [first_request]) = [queued_instance e i first_request]"
  using request_payload_route [of "[7]" 1 "{1}" e Little 2] by (simp add: first_request_def)

section \<open>The properties\<close>

text \<open>
  C1.  The whole server, from the start of the process and under any interleaving of accepts, reads, writes,
  errors, timeouts, released connections, turns of worker threads and updates of the settings, where every
  handler and every call of a service runs as a whole and no update switches the operation time limit on or
  off.  For every service, the requests delivered for
  it are taken from its queue in the order in which they were delivered; each of them is either still queued,
  in the hands of exactly one worker, or was served exactly once.  For every connection, the payloads it
  handed over are an initial part of the frames of the bytes it received, all of them while it works; and the
  bytes its peer was sent are an initial part of the refusals and answers it is owed, in the order they were
  made, with nothing lost or mixed up, and the rest is still waiting to be sent while the connection works.
\<close>

theorem system_exactly_once:
  assumes "Captain_init w cap Dispatcher_new = Some (True, cap', d0)" "net_server_ptr cap' = Some ns0"
    and "fifo_queue Q contents" "contents (wa_queue0 w) = []"
    and "sys_run Q unmarshal marshal e (ns0, d0, []) h (ns, d, ws)"
  shows "(\<forall>sid. \<exists>taken. taken @ queue_of contents d sid = requests e (service_ids d0) sid h \<and>
      mset taken = mset (served_by sid h) + mset (hands sid ws)) \<and>
    (\<forall>(i, c) \<in> set (conns ns).
      prefix (delivered i h) (fst (frames e (header_ok (net_conf ns0)) (received i h))) \<and>
      prefix (sent_bytes c) (owed unmarshal marshal e (net_conf ns0) (service_ids d0) i h) \<and>
      (conn_stat c = kWorking \<longrightarrow>
        delivered i h = fst (frames e (header_ok (net_conf ns0)) (received i h)) \<and>
        sent_bytes c @ send_backlog c = owed unmarshal marshal e (net_conf ns0) (service_ids d0) i h))"
proof -
  have inv: "sys_inv contents unmarshal marshal e (net_conf ns0) (service_ids d0) h (ns, d, ws)"
    by (rule sys_run_inv [OF assms(5,3) started_sys_inv [where contents = contents, OF assms(1,2,4)]])
  have "prefix (delivered i h) (fst (frames e (header_ok (net_conf ns0)) (received i h))) \<and>
      prefix (sent_bytes c) (owed unmarshal marshal e (net_conf ns0) (service_ids d0) i h) \<and>
      (conn_stat c = kWorking \<longrightarrow>
        delivered i h = fst (frames e (header_ok (net_conf ns0)) (received i h)) \<and>
        sent_bytes c @ send_backlog c = owed unmarshal marshal e (net_conf ns0) (service_ids d0) i h)"
    if "(i, c) \<in> set (conns ns)" for i c
  proof -
    have ok: "conn_ok e (net_conf ns0) (received i h) (delivered i h)
        (owed unmarshal marshal e (net_conf ns0) (service_ids d0) i h) c"
      using inv conns_okD that by (fastforce simp: sys_inv_def)
    show ?thesis
      using conn_okD(4,6,7,9) [OF ok] append_prefixD [OF conn_okD(8) [OF ok]] by (auto simp: wire_stream_def)
  qed
  then show ?thesis using inv by (auto simp: sys_inv_def accounts_def)
qed

theorem system_exactly_once_witness:
  "\<exists>cap d0 ns0 h ns d. Captain_init (demo_world_at [] True) Captain_new Dispatcher_new = Some (True, cap, d0) \<and>
    net_server_ptr cap = Some ns0 \<and>
    sys_run list_queue demo_unmarshal demo_marshal Big (ns0, d0, []) h (ns, d, [(1, AtTop)]) \<and>
    requests Big (service_ids d0) 1 h = [queued_instance Big 0 first_request] \<and>
    queue_of (\<lambda>q. q) d 1 = [queued_instance Big 0 first_request]"
proof -
  obtain cap d0 where init: "Captain_init (demo_world_at ([] :: RpcInstance list) True) Captain_new Dispatcher_new = Some (True, cap, d0)"
    using demo_start [of "[] :: RpcInstance list"] by blast
  obtain ns0 where ns0: "net_server_ptr cap = Some ns0" using demo_started(2) [OF init] by blast
  let ?h = "read_events 0 (Message_net_str Little (Message_of first_request)) [first_request]"
  obtain ns d where run: "sys_run list_queue demo_unmarshal demo_marshal Big (ns0, d0, []) ?h (ns, d, [(1, AtTop)])"
    using demo_run [OF init ns0] by blast
  have req: "requests Big (service_ids d0) 1 ?h = [queued_instance Big 0 first_request]"
    using demo_started(1) [OF init] first_request_queued by simp
  have "wa_queue0 (demo_world_at ([] :: RpcInstance list) True) = []" by (simp add: demo_world_at_def)
  from conjunct1 [OF system_exactly_once [OF init ns0 list_queue_fifo this run]]
  obtain taken where "taken @ queue_of (\<lambda>q. q) d 1 = requests Big (service_ids d0) 1 ?h"
      "mset taken = mset (served_by 1 ?h) + mset (hands 1 [(1, AtTop)])"
    by blast
  then have "queue_of (\<lambda>q. q) d 1 = [queued_instance Big 0 first_request]" using req by simp
  then show ?thesis using init ns0 run req by blast
qed

text \<open>
  C2.  The server can always catch up: in every state a run can reach in which each service has a worker
  thread that has not left its loop, the workers can go on to serve everything that was delivered.  They end
  with empty queues and empty hands, every request delivered so far has been served exactly once, and no
  connection was lost or closed on the way; and when the writes complete, every working connection that owes
  its peer less than 4 GiB has sent exactly the refusals and answers owed, with nothing left to send.
\<close>

theorem system_catches_up:
  assumes "Captain_init w cap Dispatcher_new = Some (True, cap', d0)" "net_server_ptr cap' = Some ns0"
    and "fifo_queue Q contents" "contents (wa_queue0 w) = []"
    and "sys_run Q unmarshal marshal e (ns0, d0, []) h (ns, d, ws)"
    and "\<forall>sid \<in> service_ids d. \<exists>worker. (sid, worker) \<in> set ws \<and> worker \<noteq> Left"
  shows "\<exists>h' ns' d' ws'. sys_run Q unmarshal marshal e (ns0, d0, []) (h @ h') (ns', d', ws') \<and>
    (\<forall>sid. queue_of contents d' sid = [] \<and> hands sid ws' = [] \<and>
      mset (served_by sid (h @ h')) = mset (requests e (service_ids d0) sid h)) \<and>
    map (\<lambda>(i, c). (i, conn_stat c)) (conns ns') = map (\<lambda>(i, c). (i, conn_stat c)) (conns ns) \<and>
    (\<forall>(i, c) \<in> set (conns ns'). conn_stat c = kWorking \<and>
        length (owed unmarshal marshal e (net_conf ns0) (service_ids d0) i (h @ h')) < 2 ^ 32 \<longrightarrow>
      send_backlog c = [] \<and> sent_bytes c = owed unmarshal marshal e (net_conf ns0) (service_ids d0) i (h @ h'))"
proof -
  note start = started_sys_inv [where contents = contents and um = unmarshal and ma = marshal and e = e, OF assms(1,2,4)]
  let ?cf = "net_conf ns0" and ?ids = "service_ids d0"
  obtain h' ns' d' ws' where run: "sys_run Q unmarshal marshal e (ns0, d0, []) (h @ h') (ns', d', ws')"
      and zero: "workload contents d' ws' = 0" and st: "conn_stats ns' = conn_stats ns"
      and only: "\<forall>ev \<in> set h'. \<exists>sid r. ev = Served sid r"
      and dr: "\<forall>i. conn_drained unmarshal marshal e ?cf ?ids (h @ h') ns' i"
    using catch_up_and_drain [OF assms(5,3) start assms(6) [folded staffed_def]] by blast
  note inv = sys_run_inv [OF run assms(3) start]
  have acc: "accounts contents e (service_ids d0) (h @ h') d' ws'" using inv by (simp add: sys_inv_def)
  have "mset (served_by sid (h @ h')) = mset (requests e (service_ids d0) sid h)" for sid
  proof -
    obtain taken where "taken @ queue_of contents d' sid = requests e (service_ids d0) sid (h @ h')"
        "mset taken = mset (served_by sid (h @ h')) + mset (hands sid ws')"
      using acc unfolding accounts_def by blast
    then show ?thesis using workload_0 [OF zero, of sid] served_only [OF only] by simp
  qed
  moreover have "send_backlog c = [] \<and> sent_bytes c = owed unmarshal marshal e ?cf ?ids i (h @ h')"
    if "(i, c) \<in> set (conns ns')" "conn_stat c = kWorking \<and> length (owed unmarshal marshal e ?cf ?ids i (h @ h')) < 2 ^ 32"
    for i c
  proof -
    have "conn_ok e ?cf (received i (h @ h')) (delivered i (h @ h')) (owed unmarshal marshal e ?cf ?ids i (h @ h')) c"
      by (rule conns_okD [OF _ that(1)]) (use inv in \<open>simp add: sys_inv_def\<close>)
    from conn_okD(4) [OF this] have "sent_bytes c @ send_backlog c = owed unmarshal marshal e ?cf ?ids i (h @ h')"
      using that(2) by (simp add: wire_stream_def)
    moreover have "send_backlog c = []" using dr that by (auto simp: conn_drained_def)
    ultimately show ?thesis by simp
  qed
  ultimately show ?thesis
    using run workload_0 [OF zero] st unfolding conn_stats_def by blast
qed

theorem system_catches_up_witness:
  "\<exists>cap d0 ns0 h ns d ws. Captain_init (demo_world_at [] True) Captain_new Dispatcher_new = Some (True, cap, d0) \<and>
    net_server_ptr cap = Some ns0 \<and> sys_run list_queue demo_unmarshal demo_marshal Big (ns0, d0, []) h (ns, d, ws) \<and>
    queue_of (\<lambda>q. q) d 1 = [] \<and> served_by 1 h = [queued_instance Big 0 first_request]"
proof -
  obtain cap d0 where init: "Captain_init (demo_world_at ([] :: RpcInstance list) True) Captain_new Dispatcher_new = Some (True, cap, d0)"
    using demo_start [of "[] :: RpcInstance list"] by blast
  obtain ns0 where ns0: "net_server_ptr cap = Some ns0" using demo_started(2) [OF init] by blast
  let ?h = "read_events 0 (Message_net_str Little (Message_of first_request)) [first_request]"
  obtain ns d where run: "sys_run list_queue demo_unmarshal demo_marshal Big (ns0, d0, []) ?h (ns, d, [(1, AtTop)])"
      and ids: "service_ids d = {1}"
    using demo_run [OF init ns0] by blast
  have req: "requests Big (service_ids d0) 1 ?h = [queued_instance Big 0 first_request]"
    using demo_started(1) [OF init] first_request_queued by simp
  have q0: "wa_queue0 (demo_world_at ([] :: RpcInstance list) True) = []" by (simp add: demo_world_at_def)
  have "\<forall>sid \<in> service_ids d. \<exists>worker. (sid, worker) \<in> set [(1, AtTop)] \<and> worker \<noteq> Left" using ids by simp
  from system_catches_up [OF init ns0 list_queue_fifo q0 run this] obtain h' ns' d' ws' where
    "sys_run list_queue demo_unmarshal demo_marshal Big (ns0, d0, []) (?h @ h') (ns', d', ws')"
    "queue_of (\<lambda>q. q) d' 1 = []" "mset (served_by 1 (?h @ h')) = mset (requests Big (service_ids d0) 1 ?h)"
    by blast
  moreover from this(3) have "served_by 1 (?h @ h') = [queued_instance Big 0 first_request]"
    unfolding req by (simp del: history_append)
  ultimately show ?thesis using init ns0 by blast
qed

end
