(* ===== verification/AsyncClient.thy ===== *)
theory AsyncClient
  imports ConnHistory
begin

text \<open>
  The asynchronous client against its history: the calls it made, the bytes it received, the state its
  callbacks left behind.  Seen as a server connection, the client's connection keeps the relation \<open>conn_ok\<close> of
  theory ConnHistory; \<open>cli_run\<close> interleaves calls, completed and failed operations and the call timer.
\<close>

section \<open>The connection as a server connection\<close>

lemma as_conf_header_ok: "header_ok (as_conf cs) = client_header_ok cs"
  by (simp add: fun_eq_iff header_ok_def client_header_ok_def as_conf_def uint_0_iff)

lemma as_server_views:
  "recv_data (as_server c) = async_data c" "unread e (as_server c) = cli_residue e (c, u)"
  "asked (as_server c) = cli_need (c, u)"
  "cli_waiting cs (c, u) \<longleftrightarrow> conn_stat c = kWorking \<and> ac_sane c \<and> read_shape (as_conf cs) (as_server c)"
proof -
  show data: "recv_data (as_server c) = async_data c" by (simp add: recv_data_def async_data_def)
  show "unread e (as_server c) = cli_residue e (c, u)" by (simp only: unread_def cli_residue_def data as_server_fields fst_conv)
  show "asked (as_server c) = cli_need (c, u)" by (simp add: asked_def cli_need_def)
  show "cli_waiting cs (c, u) \<longleftrightarrow> conn_stat c = kWorking \<and> ac_sane c \<and> read_shape (as_conf cs) (as_server c)"
    by (simp add: cli_waiting_def read_shape_def data as_conf_header_ok Let_def)
qed

lemma as_server_send:
  assumes "conn_ok e (as_conf cs) rcv dls out (as_server c)" "client_accepts cs msg"
  shows "conn_ok e (as_conf cs) rcv dls (out @ Message_net_str e msg) (as_server (snd (send_net_message_async e cs msg c)))"
  using conn_ok_reply [OF assms(1), of msg] assms(2) by (simp add: send_net_message_simulates client_accepts_as_conf)

lemma as_server_write_ok:
  assumes "conn_ok e (as_conf cs) rcv dls out (as_server c)"
  shows "conn_ok e (as_conf cs) rcv dls out (as_server (io_write_ok_async c))"
  using conn_ok_write_ok [OF assms] by (simp add: io_write_simulates [of c cs])

text \<open>Closing, whatever outstanding operation it leaves behind.\<close>

lemma as_server_close:
  assumes "conn_ok e (as_conf cs) rcv dls out (as_server c)" "winding_down (as_server c) (as_server c')"
    and "conn_stat c' = kClosed" "ac_sane c' = ac_sane c" "ac_send_status c' = ac_send_status c"
    and "ac_send_bound c' = ac_send_bound c" "sk_writes (socket c') = [] \<or> sk_writes (socket c') = sk_writes (socket c)"
  shows "conn_ok e (as_conf cs) rcv dls out (as_server c')"
proof (rule conn_ok_winding_down [OF assms(1,2)])
  show "io_safe (as_conf cs) (as_server c')"
    using conn_okD(1) [OF assms(1)] assms(2-7) by (auto simp: io_safe_def io_core_defs winding_down_def)
qed (use assms(3) in simp_all)

lemma sock_shutdown_async [simp]:
  fixes c :: ClientConnAsync
  shows "conn_stat (sock_shutdown_and_close t c) = kClosed"
    and "ac_recv_bound (sock_shutdown_and_close t c) = ac_recv_bound c"
    and "ac_send_bound (sock_shutdown_and_close t c) = ac_send_bound c"
    and "ac_send_status (sock_shutdown_and_close t c) = ac_send_status c"
    and "ac_sane (sock_shutdown_and_close t c) = ac_sane c"
    and "sk_reads (socket (sock_shutdown_and_close t c)) = sk_reads (socket c)"
    and "sk_writes (socket (sock_shutdown_and_close t c)) = sk_writes (socket c)"
    and "sk_sent (socket (sock_shutdown_and_close t c)) = sk_sent (socket c)"
  by (simp_all add: sock_shutdown_and_close_def)

lemma as_server_shutdown:
  assumes "conn_ok e (as_conf cs) rcv dls out (as_server c)"
  shows "conn_ok e (as_conf cs) rcv dls out (as_server (shutdown_and_close_socket c))"
  by (rule as_server_close [OF assms])
    (simp_all add: shutdown_and_close_socket_def winding_down_def sent_bytes_def in_flight_def)

text \<open>A failed operation: without a time limit of its own, the connection is only told of an abort once it is closed.\<close>

lemma as_server_failed:
  assumes "conn_ok e (as_conf cs) rcv dls out (as_server c)" "error_possible err (as_server c)"
    and "conn_stat c1 = conn_stat c" "winding_down (as_server c) (as_server c1)" "ac_sane c1 = ac_sane c"
    and "ac_send_status c1 = ac_send_status c" "ac_send_bound c1 = ac_send_bound c"
    and "sk_writes (socket c1) = [] \<or> sk_writes (socket c1) = sk_writes (socket c)"
  shows "conn_ok e (as_conf cs) rcv dls out (as_server (snd (handle_socket_ec_async err c1)))"
proof (rule as_server_close [OF assms(1)])
  have st: "conn_stat c = kWorking \<or> conn_stat c = kClosed" using conn_okD(2) [OF assms(1)] by simp
  show "conn_stat (snd (handle_socket_ec_async err c1)) = kClosed"
    using assms(2,3) st
    by (cases err) (auto simp: handle_socket_ec_async_def error_possible_def sock_shutdown_and_close_def Let_def)
qed (use assms(4-8) in \<open>auto simp: handle_socket_ec_async_def sock_shutdown_and_close_def winding_down_def
  sent_bytes_def in_flight_def Let_def\<close>)

lemma as_server_write_error:
  assumes "conn_ok e (as_conf cs) rcv dls out (as_server c)" "error_possible err (as_server c)"
  shows "conn_ok e (as_conf cs) rcv dls out (as_server (io_write_error_async err k c))"
proof (cases "sk_writes (socket c)")
  case Nil
  then show ?thesis using assms(1) by (simp add: io_write_error_async_def)
next
  case (Cons n ns)
  have ns: "ns = []" using conn_okD(1) [OF assms(1)] Cons by (simp add: io_safe_def io_core_defs)
  have "prefix (take (min k n) (io_block (ac_send_bound c))) (take n (io_block (ac_send_bound c)))"
    by (metis min.cobounded2 take_is_prefix take_take min.absorb1)
  then show ?thesis
    using as_server_failed [OF assms, of "c\<lparr>socket := (socket c)\<lparr>sk_writes := [],
        sk_sent := sk_sent (socket c) @ take (min k n) (io_block (ac_send_bound c))\<rparr>\<rparr>"] Cons ns
    by (simp add: io_write_error_async_def write_handler_async_def winding_down_def sent_bytes_def in_flight_def)
qed

lemma as_server_read_error:
  assumes "conn_ok e (as_conf cs) rcv dls out (as_server c)" "error_possible err (as_server c)"
    and "io_read_error_async wh e cs err n (c, u) = (c', u')"
  shows "conn_ok e (as_conf cs) rcv dls out (as_server c')" and "u' = u"
proof -
  have "conn_ok e (as_conf cs) rcv dls out (as_server c') \<and> u' = u"
  proof (cases "sk_reads (socket c)")
    case Nil
    then show ?thesis using assms(1,3) by (simp add: io_read_error_async_def)
  next
    case (Cons op ops)
    have ops: "ops = []" using conn_okD(1) [OF assms(1)] Cons by (simp add: io_safe_def)
    have st: "conn_stat c = kWorking \<or> conn_stat c = kClosed" using conn_okD(2) [OF assms(1)] by simp
    have eq: "c' = snd (handle_socket_ec_async err (c\<lparr>socket := (socket c)\<lparr>sk_reads := []\<rparr>\<rparr>))" "u' = u"
      using assms(3) Cons ops
      by (cases op; simp add: io_read_error_async_def read_handler_async_def read_msg_handler_async_def)+
    then have c': "conn_stat c' = kClosed" "sk_reads (socket c') = []"
      using assms(2) st
      by (cases err; auto simp: handle_socket_ec_async_def error_possible_def Let_def)+
    have io: "io_safe (as_conf cs) (as_server c')"
      using conn_okD(1) [OF assms(1)] c' eq(1) by (auto simp: io_safe_def io_core_defs handle_socket_ec_async_def Let_def)
    have "prefix (sent_bytes (as_server c') @ in_flight (as_server c')) out"
      using conn_okD(8) [OF assms(1)] eq(1)
      by (simp add: handle_socket_ec_async_def sent_bytes_def in_flight_def Let_def)
    then show ?thesis using conn_ok_closed [OF io _ _ conn_okD(9) [OF assms(1)]] c' eq(2) by simp
  qed
  then show "conn_ok e (as_conf cs) rcv dls out (as_server c')" and "u' = u" by simp_all
qed

section \<open>Reading\<close>

text \<open>What reading leaves alone.\<close>

definition send_half :: "ClientConnAsync \<Rightarrow> IOBound \<times> SendStatus \<times> nat list \<times> bytes \<times> bytes \<times> bool" where
  "send_half c = (ac_send_bound c, ac_send_status c, sk_writes (socket c), sk_sent (socket c),
     io_block (ac_recv_bound c), ac_sane c)"

lemma send_half_parse [simp]:
  "send_half (snd (parse_header_async e cs c)) = send_half c"
  "send_half (snd (snd (parse_msg_body_async msg c))) = send_half c"
  "send_half (sock_shutdown_and_close t c) = send_half c"
  "send_half (c\<lparr>socket := async_read op (socket c)\<rparr>) = send_half c"
  by (simp_all add: send_half_def parse_header_async_def parse_msg_body_async_def case_prod_beta Let_def)

lemma do_read_async_send_half [simp]:
  fixes u :: 'u
  shows "send_half (fst (snd (do_read_async wh e cs c u))) = send_half c"
    and "send_half (fst (do_read_msg_async wh e cs c u)) = send_half c"
proof (induction wh e cs c u and wh e cs c u rule: do_read_async_do_read_msg_async.induct)
  case (1 wh e cs c u)
  then show ?case by (subst do_read_async.simps) (auto simp: Let_def)
next
  case (2 wh e cs c u)
  then show ?case by (subst do_read_msg_async.simps) (auto simp: Let_def)
qed

lemma io_read_ok_async_send_half:
  assumes "sk_reads (socket c) = [op]"
  shows "send_half (fst (io_read_ok_async wh e cs chunk (c, u))) = send_half (with_chunk_async chunk c)"
  using assms
  by (cases op) (auto simp: io_read_ok_async_def read_handler_async_def read_msg_handler_async_def with_chunk_async_def
    case_prod_beta Let_def)

lemma io_safe_read_async:
  assumes "io_safe (as_conf cs) (as_server c)" "sk_reads (socket c) = [op]"
    and "0 < length chunk" "length chunk \<le> kFixedIoBufferSize"
    and "io_read_ok_async wh e cs chunk (c, u) = (c', u')" "conn_stat c' = kWorking \<longrightarrow> conn_stat c = kWorking"
    and "length (sk_reads (socket c')) \<le> 1"
  shows "io_safe (as_conf cs) (as_server c')" and "sent_bytes (as_server c') = sent_bytes (as_server c)"
    and "send_backlog (as_server c') = send_backlog (as_server c)" and "in_flight (as_server c') = in_flight (as_server c)"
    and "send_inv (as_conf cs) (as_server c) \<Longrightarrow> send_inv (as_conf cs) (as_server c')"
proof -
  have half: "send_half c' = send_half (with_chunk_async chunk c)"
    using io_read_ok_async_send_half [OF assms(2), of wh e cs chunk u] assms(5) by simp
  show "io_safe (as_conf cs) (as_server c')"
    using assms(1,3,4,6,7) half
    by (auto simp: io_safe_def io_core_defs send_half_def with_chunk_async_def take_block_async_def)
  show "sent_bytes (as_server c') = sent_bytes (as_server c)"
    and "send_backlog (as_server c') = send_backlog (as_server c)" and "in_flight (as_server c') = in_flight (as_server c)"
    using half by (simp_all add: send_half_def with_chunk_async_def take_block_async_def sent_bytes_def send_backlog_def
      in_flight_def)
  show "send_inv (as_conf cs) (as_server c')" if "send_inv (as_conf cs) (as_server c)"
    using that half assms(1,3,4)
    by (auto simp: send_inv_def io_safe_def io_core_defs send_half_def with_chunk_async_def take_block_async_def)
qed

lemma as_server_read_working:
  assumes "conn_ok e (as_conf cs) rcv dls out (as_server c)" "conn_stat c = kWorking" "read_possible e (as_server c) chunk"
    and "io_read_ok_async (payload_wrapper f) e cs chunk (c, u) = (c', u')" "ps = handed_over e (as_conf cs) (as_server c) chunk"
  shows "conn_ok e (as_conf cs) (rcv @ chunk) (dls @ ps) out (as_server c') \<and> u' = fold f ps u"
proof -
  let ?fr = "frames e (client_header_ok cs) (unread e (as_server c) @ chunk)"
  have ok: "conn_stat (as_server c) = kWorking" using assms(2) by simp
  note wait = conn_okD(3) [OF assms(1) ok, where d = "Dispatcher_new :: unit Dispatcher", unfolded reader_views]
  note rd = conn_okD(7) [OF assms(1) ok]
  have sane: "ac_sane c" using wait by (simp add: send_inv_def)
  have cw: "cli_waiting cs (c, u)" using wait sane assms(2) by (simp add: as_server_views(4))
  have out: "cli_outcome e cs f ?fr u (c', u')"
    using io_read_ok_async_outcome [OF cw, of chunk e f] assms(3,4)
    by (simp add: read_possible_def kFixedIoBufferSize_def as_server_views(2,3) [where u = u])
  have ps: "fst ?fr = ps" using assms(2,5) by (simp add: handed_over_def as_conf_header_ok Let_def)
  have u': "u' = fold f ps u" using out ps by (simp add: cli_outcome_def)
  obtain op where op: "sk_reads (socket c) = [op]" using conn_okD(5) [OF assms(1) rd] by (auto simp: read_shape_def Let_def)
  have reads: "length (sk_reads (socket c')) \<le> 1"
    using out by (auto simp: cli_outcome_def cli_waiting_def cli_closed_def Let_def split: if_splits)
  have pos: "0 < length chunk"
    using assms(3) conn_okD(5) [OF assms(1) rd]
    by (auto simp: read_possible_def read_shape_def asked_def kFixedIoBufferSize_def Let_def)
  note safe = io_safe_read_async [OF conn_okD(1) [OF assms(1)] op pos _ assms(4) _ reads]
  have blk: "length chunk \<le> kFixedIoBufferSize" using assms(3) by (simp add: read_possible_def)
  have w: "wire_stream (as_server c') = out"
    using conn_okD(4) [OF assms(1) ok] safe(2,3) [OF blk] assms(2) by (simp add: wire_stream_def)
  have fr: "frames e (header_ok (as_conf cs)) (rcv @ chunk) = (dls @ ps, snd ?fr)"
    using frames_append_good [OF conn_okD(6) [OF assms(1) rd], of chunk] ps by (simp add: as_conf_header_ok)
  show ?thesis
  proof (cases "snd (snd ?fr)")
    case True
    then have "cli_waiting cs (c', u')" "cli_residue e (c', u') = fst (snd ?fr)" using out unfolding cli_outcome_def by auto
    then have "srv_waiting (as_conf cs) (as_server c', Dispatcher_new :: unit Dispatcher)" "unread e (as_server c') = fst (snd ?fr)"
      using safe(5) [OF blk] wait assms(2) by (auto simp: reader_views as_server_views(4) as_server_views(2) [where u = u'])
    then show ?thesis
      using conn_ok_working [OF safe(1) [OF blk] _ w] fr True u' assms(2) by (metis prod.collapse reader_views(1))
  next
    case False
    then have "cli_closed (c', u')" using out unfolding cli_outcome_def by auto
    moreover have "prefix (sent_bytes (as_server c') @ in_flight (as_server c')) out"
      using w by (auto simp: wire_stream_def send_backlog_def)
    ultimately show ?thesis
      using conn_ok_closed [OF safe(1) [OF blk], where rcv = "rcv @ chunk" and dls = "dls @ ps"] fr u' assms(2)
      by (simp add: cli_closed_def)
  qed
qed

text \<open>The handler of a read that had completed when the connection was closed.\<close>

lemma do_read_async_closed:
  "conn_stat c \<noteq> kWorking \<Longrightarrow> do_read_async wh e cs c u = (False, c, u)"
  "conn_stat c \<noteq> kWorking \<Longrightarrow> do_read_msg_async wh e cs c u = (c, u)"
  by (simp_all add: do_read_async.simps do_read_msg_async.simps get_conn_stat_def)

lemma parse_async_frame [simp]:
  "conn_stat (snd (parse_header_async e cs c)) = conn_stat c" "conn_stat (snd (snd (parse_msg_body_async msg c))) = conn_stat c"
  "sk_reads (socket (snd (parse_header_async e cs c))) = sk_reads (socket c)"
  "sk_reads (socket (snd (snd (parse_msg_body_async msg c)))) = sk_reads (socket c)"
  by (simp_all add: parse_header_async_def parse_msg_body_async_def case_prod_beta Let_def)

lemma with_chunk_async_closed:
  assumes "read_shape (as_conf cs) (as_server c)" "read_possible e (as_server c) chunk" "conn_stat c = kClosed"
  shows "async_data (with_chunk_async chunk c) = async_data c @ chunk"
    and "unat (get_length (io_buffer (ac_recv_bound (with_chunk_async chunk c)))) = length (async_data c @ chunk)"
    and "io_header (ac_recv_bound (with_chunk_async chunk c)) = io_header (ac_recv_bound c)"
    and "conn_stat (with_chunk_async chunk c) = kClosed" and "sk_reads (socket (with_chunk_async chunk c)) = []"
proof -
  have len: "length (async_data c) \<le> length (unread e (as_server c))"
    by (simp add: unread_def as_server_views(1) split: list.split read_op.split)
  show data: "async_data (with_chunk_async chunk c) = async_data c @ chunk"
    using assms by (simp add: read_shape_def read_possible_def with_chunk_async_def take_block_async_def async_data_def
      append_internal_data take_blit' Let_def)
  show "unat (get_length (io_buffer (ac_recv_bound (with_chunk_async chunk c)))) = length (async_data c @ chunk)"
    using data assms(2) len by (simp add: async_data_def get_length_small read_possible_def)
  show "io_header (ac_recv_bound (with_chunk_async chunk c)) = io_header (ac_recv_bound c)"
    and "conn_stat (with_chunk_async chunk c) = kClosed" and "sk_reads (socket (with_chunk_async chunk c)) = []"
    using assms(3) by (simp_all add: with_chunk_async_def take_block_async_def)
qed

lemma io_read_head_closed_async:
  assumes "read_shape (as_conf cs) (as_server c)" "conn_stat c = kClosed" "read_possible e (as_server c) chunk"
    and "io_read_ok_async wh e cs chunk (c, u) = (c', u')" "sk_reads (socket c) = [ReadHead n]"
  shows "conn_stat c' = kClosed \<and> sk_reads (socket c') = [] \<and>
    u' = fold f (handed_over e (as_conf cs) (as_server c) chunk) u"
proof -
  let ?k = "with_chunk_async chunk c"
  note k = with_chunk_async_closed [OF assms(1,3,2)]
  have "io_read_ok_async wh e cs chunk (c, u) = (?k, u) \<or>
      io_read_ok_async wh e cs chunk (c, u) = (snd (parse_header_async e cs ?k), u)"
    using assms(5) k(4) by (auto simp: io_read_ok_async_def read_handler_async_def with_chunk_async_def do_read_async_closed
      case_prod_beta Let_def sock_shutdown_and_close_def)
  moreover have "handed_over e (as_conf cs) (as_server c) chunk = []" using assms(2,5) by (simp add: handed_over_def)
  ultimately show ?thesis using assms(4) k(4,5) by auto
qed

lemma io_read_msg_closed_async:
  assumes "read_shape (as_conf cs) (as_server c)" "conn_stat c = kClosed" "read_possible e (as_server c) chunk"
    and "io_read_ok_async (payload_wrapper f) e cs chunk (c, u) = (c', u')" "sk_reads (socket c) = [ReadMsg n]"
    and "client_header_ok cs (io_header (ac_recv_bound c))"
  shows "conn_stat c' = kClosed \<and> sk_reads (socket c') = [] \<and>
    u' = fold f (handed_over e (as_conf cs) (as_server c) chunk) u"
proof -
  let ?k = "with_chunk_async chunk c" and ?h = "io_header (ac_recv_bound c)" and ?wh = "payload_wrapper f"
  let ?b = "parse_msg_body_async Message_default ?k"
  note k = with_chunk_async_closed [OF assms(1,3,2)]
  have un: "unread e (as_server c) @ chunk = Header_wire e ?h @ async_data c @ chunk"
    by (simp add: unread_def assms(5) as_server_views(1))
  have io: "io_read_ok_async ?wh e cs chunk (c, u) =
      (if fst ?b = 0 then snd (do_read_async ?wh e cs (snd (snd ?b)) (f (m_payload (fst (snd ?b))) u))
       else if fst ?b > 0 then do_read_msg_async ?wh e cs (snd (snd ?b)) u
       else (sock_shutdown_and_close kShutBoth (snd (snd ?b)), u))"
    by (simp add: assms(5) io_read_ok_async_def read_msg_handler_async_def with_chunk_async_def case_prod_beta Let_def)
  show ?thesis
  proof (cases "length (async_data c @ chunk) < unat (h_length ?h)")
    case True
    then have "?b = (1, Message_default, ?k)" using k(2,3) by (simp add: parse_msg_body_async_def word_less_nat_alt)
    moreover have "fst (frames e (client_header_ok cs) (unread e (as_server c) @ chunk)) = []"
      using True assms(6) unfolding un by (simp add: frames_partial)
    ultimately show ?thesis
      using io k(4,5) assms(2,4,5) by (simp add: do_read_async_closed handed_over_def as_conf_header_ok)
  next
    case False
    let ?p = "take (unat (h_length ?h)) (async_data c @ chunk)"
    have "?b = (0, \<lparr>m_header = ?h, m_payload = ?p\<rparr>, strip_body_async ?k)"
      using parse_msg_body_async_eq [of ?k Message_default] False k(1,2,3) by (simp add: word_le_nat_alt)
    moreover have "fst (frames e (client_header_ok cs) (unread e (as_server c) @ chunk)) =
        ?p # fst (frames e (client_header_ok cs) (drop (unat (h_length ?h)) (async_data c @ chunk)))"
      using frames_whole [of e "Header_wire e ?h @ async_data c @ chunk" "client_header_ok cs"] False assms(6)
      unfolding un by simp
    moreover have "conn_stat (strip_body_async ?k) = kClosed" "sk_reads (socket (strip_body_async ?k)) = []"
      using k(4,5) by (simp_all add: strip_body_async_def)
    ultimately show ?thesis
      using io assms(2,4,5) by (simp add: do_read_async_closed handed_over_def as_conf_header_ok)
  qed
qed

lemma io_read_closed_async:
  assumes "read_shape (as_conf cs) (as_server c)" "conn_stat c = kClosed" "read_possible e (as_server c) chunk"
    and "io_read_ok_async (payload_wrapper f) e cs chunk (c, u) = (c', u')"
  shows "conn_stat c' = kClosed \<and> sk_reads (socket c') = [] \<and>
    u' = fold f (handed_over e (as_conf cs) (as_server c) chunk) u"
proof -
  from assms(1) consider n where "sk_reads (socket c) = [ReadHead n]"
    | n where "sk_reads (socket c) = [ReadMsg n]" "client_header_ok cs (io_header (ac_recv_bound c))"
    by (auto simp: read_shape_def as_conf_header_ok Let_def)
  then show ?thesis
    by cases (rule io_read_head_closed_async [OF assms], assumption, rule io_read_msg_closed_async [OF assms])
qed

lemma as_server_read:
  assumes "conn_ok e (as_conf cs) rcv dls out (as_server c)" "read_possible e (as_server c) chunk"
    and "io_read_ok_async (payload_wrapper f) e cs chunk (c, u) = (c', u')" "ps = handed_over e (as_conf cs) (as_server c) chunk"
  shows "conn_ok e (as_conf cs) (rcv @ chunk) (dls @ ps) out (as_server c') \<and> u' = fold f ps u"
proof (cases "conn_stat c = kWorking")
  case True
  then show ?thesis using as_server_read_working [OF assms(1) _ assms(2,3,4)] by simp
next
  case False
  then have st: "conn_stat c = kClosed" using conn_okD(2) [OF assms(1)] by simp
  have rd: "sk_reads (socket (as_server c)) \<noteq> []" using assms(2) by (simp add: read_possible_def)
  note shape = conn_okD(5) [OF assms(1) rd]
  note stop = io_read_closed_async [OF shape st assms(2,3), folded assms(4)]
  obtain op where op: "sk_reads (socket c) = [op]" using shape by (auto simp: read_shape_def Let_def)
  have "0 < length chunk" "length chunk \<le> kFixedIoBufferSize"
    using assms(2) shape by (auto simp: read_possible_def read_shape_def asked_def kFixedIoBufferSize_def Let_def)
  note safe = io_safe_read_async [OF conn_okD(1) [OF assms(1)] op this assms(3)]
  have "prefix (dls @ ps) (fst (frames e (header_ok (as_conf cs)) (rcv @ chunk)))"
    using frames_append_good [OF conn_okD(6) [OF assms(1) rd], of chunk] assms(4)
      handed_over_prefix [of e "as_conf cs" "as_server c" chunk] by simp
  then show ?thesis
    using conn_ok_closed [OF safe(1)] conn_okD(8) [OF assms(1)] stop safe(2,4) by simp
qed

section \<open>A client at work\<close>

text \<open>
  The client between the making of its connection and the first call that fails: the application calls, the
  library completes reads and writes or reports errors, the call timer expires.  \<open>calls\<close> are the calls made,
  \<open>rcv\<close> the bytes received so far; \<open>u\<close> is the state of the application, which only its callback changes.
\<close>

inductive cli_run ::
  "endian \<Rightarrow> 'u rpc_handler \<Rightarrow> RpcClientImpl \<times> 'u \<Rightarrow> (u16 \<times> u16 \<times> bytes) list \<Rightarrow> bytes \<Rightarrow> RpcClientImpl \<times> 'u \<Rightarrow> bool"
  for e and cb :: "'u rpc_handler" and s where
  Start: "cli_run e cb s [] [] s"
| Call: "cli_run e cb s calls rcv (r, u) \<Longrightarrow>
    call_RPC_async e cb connect_ec ok sid op payload timeout r u = (RpcClientStatus.OK, r', u') \<Longrightarrow>
    cli_run e cb s (calls @ [(sid, op, payload)]) rcv (r', u')"
| Read: "cli_run e cb s calls rcv (r, u) \<Longrightarrow> conn_async r = Some c \<Longrightarrow> read_possible e (as_server c) chunk \<Longrightarrow>
    io_read_ok_async (payload_wrapper (async_recv_wrapper e (impl_handler r) cb)) e (client_setting r) chunk (c, u) = (c', u') \<Longrightarrow>
    cli_run e cb s calls (rcv @ chunk) (r\<lparr>conn_async := Some c'\<rparr>, u')"
| ReadErr: "cli_run e cb s calls rcv (r, u) \<Longrightarrow> conn_async r = Some c \<Longrightarrow> error_possible err (as_server c) \<Longrightarrow>
    io_read_error_async (payload_wrapper (async_recv_wrapper e (impl_handler r) cb)) e (client_setting r) err n (c, u) = (c', u') \<Longrightarrow>
    cli_run e cb s calls rcv (r\<lparr>conn_async := Some c'\<rparr>, u')"
| WriteOk: "cli_run e cb s calls rcv (r, u) \<Longrightarrow> conn_async r = Some c \<Longrightarrow>
    cli_run e cb s calls rcv (r\<lparr>conn_async := Some (io_write_ok_async c)\<rparr>, u)"
| WriteErr: "cli_run e cb s calls rcv (r, u) \<Longrightarrow> conn_async r = Some c \<Longrightarrow> error_possible err (as_server c) \<Longrightarrow>
    cli_run e cb s calls rcv (r\<lparr>conn_async := Some (io_write_error_async err k c)\<rparr>, u)"
| Timer: "cli_run e cb s calls rcv (r, u) \<Longrightarrow> io_rpc_timer r = Some r' \<Longrightarrow> cli_run e cb s calls rcv (r', u)"

definition cli_inv ::
  "endian \<Rightarrow> 'u rpc_handler \<Rightarrow> RpcClientImpl \<times> 'u \<Rightarrow> (u16 \<times> u16 \<times> bytes) list \<Rightarrow> bytes \<Rightarrow> RpcClientImpl \<times> 'u \<Rightarrow> bool" where
  "cli_inv e cb s calls rcv t \<longleftrightarrow>
     client_setting (fst t) = client_setting (fst s) \<and> impl_handler (fst t) = impl_handler (fst s) \<and>
     (case conn_async (fst t) of
        None \<Rightarrow> calls = [] \<and> rcv = [] \<and> snd t = snd s
      | Some c \<Rightarrow> \<exists>dls. conn_ok e (as_conf (client_setting (fst s))) rcv dls (concat (map (call_bytes e) calls)) (as_server c) \<and>
          snd t = fold (async_recv_wrapper e (impl_handler (fst s)) cb) dls (snd s))"

text \<open>A new connection.\<close>

lemma send_half_new:
  "send_half (ClientConnAsync_new ok socket_connected) = (IOBound_new, kSendDone, [], [], io_block IOBound_new, True)"
  by (cases ok) (simp_all add: send_half_def ClientConnAsync_new_def set_conn_stat_def set_tcp_nonblocking_def
    set_tcp_nodelay_def socket_connected_def Let_def)

lemma as_server_new:
  assumes "recv_net_message_async (payload_wrapper f) e cs (ClientConnAsync_new ok socket_connected) u = (b, c, u')"
  shows "conn_ok e (as_conf cs) [] [] [] (as_server c)" and "u' = u"
proof -
  note start = recv_net_message_async_waiting [of socket_connected, where cs = cs and f = f and e = e and ok = ok and u = u,
      simplified assms snd_conv]
  have half: "send_half c = send_half (ClientConnAsync_new ok socket_connected)"
    using assms by (metis do_read_async_send_half(1) fst_conv recv_net_message_async_def snd_conv)
  have w: "cli_waiting cs (c, u')" "cli_residue e (c, u') = []" "u' = u" using start by (simp_all add: socket_connected_def)
  then show "u' = u" by simp
  have "sent_bytes (as_server c) = []" "send_backlog (as_server c) = []" "send_inv (as_conf cs) (as_server c)"
    "io_core (as_conf cs) (as_server c)"
    using half unfolding send_half_new
    by (simp_all add: send_half_def IOBound_new_def Buffer_new_def sent_bytes_def send_backlog_def in_flight_def
      send_inv_def io_core_defs get_length_def u32_of_size_def)
  moreover have "length (sk_reads (socket c)) \<le> 1" using w(1) by (auto simp: cli_waiting_def Let_def)
  ultimately show "conn_ok e (as_conf cs) [] [] [] (as_server c)"
    using w by (simp add: conn_ok_def as_server_views(4) as_server_views(2) [where u = u'] wire_stream_def
      frames_short sizeof_Header_def io_safe_def)
qed

text \<open>The call as one equation: the connection it finds or makes, and what comes of sending on it.\<close>

lemma call_RPC_async_eq:
  assumes "f = async_recv_wrapper e (impl_handler r) cb" "cs = client_setting r"
    and "new = recv_net_message_async (payload_wrapper f) e cs (ClientConnAsync_new ok socket_connected) u"
    and "s = (case conn_async r of Some c \<Rightarrow> (c, u) | None \<Rightarrow> snd new)"
    and "sent = send_net_message_async e cs (request_frame e sid op payload) (fst s)"
  shows "\<exists>r2. client_setting r2 = client_setting r \<and> impl_handler r2 = impl_handler r \<and>
    call_RPC_async e cb connect_ec ok sid op payload timeout r u =
      (if conn_async r = None \<and> connect_ec \<noteq> None then (NETWORK_CONNECT_ERROR, r, u)
       else if \<not> fst sent then
         (if was_timeout r2 then RPC_CALL_TIMEOUT else NETWORK_SEND_ERROR, r2\<lparr>conn_async := None\<rparr>, snd s)
       else (RpcClientStatus.OK, r2\<lparr>conn_async := Some (snd sent)\<rparr>, snd s))"
proof -
  define r2 where "r2 = (if timeout > 0 then set_rpc_call_timeout timeout False (r\<lparr>conn_async := Some (fst s)\<rparr>)
    else r\<lparr>conn_async := Some (fst s)\<rparr>)"
  have r2: "client_setting r2 = cs" "impl_handler r2 = impl_handler r"
    by (simp_all add: r2_def set_rpc_call_timeout_def assms(2))
  have "call_RPC_async e cb connect_ec ok sid op payload timeout r u =
      (if conn_async r = None \<and> connect_ec \<noteq> None then (NETWORK_CONNECT_ERROR, r, u)
       else if \<not> fst sent then
         (if was_timeout r2 then RPC_CALL_TIMEOUT else NETWORK_SEND_ERROR, r2\<lparr>conn_async := None\<rparr>, snd s)
       else (RpcClientStatus.OK, r2\<lparr>conn_async := Some (snd sent)\<rparr>, snd s))"
    using r2(1) unfolding call_RPC_async_def assms(1,2) [symmetric] assms(3) [symmetric] assms(4) [symmetric] Let_def
      case_prod_beta r2_def [symmetric]
    by (simp add: send_rpc_message_async_def request_frame_def assms(5))
  then show ?thesis using r2 assms(2) by (intro exI [where x = r2]) simp
qed

text \<open>A call that returns \<open>OK\<close> put its request at the end of what is to be sent.\<close>

lemma call_RPC_async_OK:
  assumes "call_RPC_async e cb connect_ec ok sid op payload timeout r u = (RpcClientStatus.OK, r', u')"
    and "f = async_recv_wrapper e (impl_handler r) cb" "cs = client_setting r"
  shows "client_setting r' = client_setting r \<and> impl_handler r' = impl_handler r \<and>
    (\<exists>c. (case conn_async r of
            Some c0 \<Rightarrow> c = c0 \<and> u' = u
          | None \<Rightarrow> \<exists>b. recv_net_message_async (payload_wrapper f) e cs (ClientConnAsync_new ok socket_connected) u = (b, c, u')) \<and>
       client_accepts cs (request_frame e sid op payload) \<and>
       conn_async r' = Some (snd (send_net_message_async e cs (request_frame e sid op payload) c)))"
proof -
  let ?new = "recv_net_message_async (payload_wrapper f) e cs (ClientConnAsync_new ok socket_connected) u"
  define s where "s = (case conn_async r of Some c \<Rightarrow> (c, u) | None \<Rightarrow> snd ?new)"
  let ?sent = "send_net_message_async e cs (request_frame e sid op payload) (fst s)"
  obtain r2 where r2: "client_setting r2 = client_setting r" "impl_handler r2 = impl_handler r"
      "call_RPC_async e cb connect_ec ok sid op payload timeout r u =
        (if conn_async r = None \<and> connect_ec \<noteq> None then (NETWORK_CONNECT_ERROR, r, u)
         else if \<not> fst ?sent then
           (if was_timeout r2 then RPC_CALL_TIMEOUT else NETWORK_SEND_ERROR, r2\<lparr>conn_async := None\<rparr>, snd s)
         else (RpcClientStatus.OK, r2\<lparr>conn_async := Some (snd ?sent)\<rparr>, snd s))"
    using call_RPC_async_eq [OF assms(2,3) refl s_def refl, where connect_ec = connect_ec and timeout = timeout] by blast
  then have "fst ?sent" "r' = r2\<lparr>conn_async := Some (snd ?sent)\<rparr>" "u' = snd s"
    using assms(1) by (auto split: if_splits)
  moreover from this(1) have "client_accepts cs (request_frame e sid op payload)"
    by (auto simp: send_net_message_async_def client_accepts_def split: if_splits)
  moreover have "case conn_async r of Some c0 \<Rightarrow> fst s = c0 \<and> snd s = u | None \<Rightarrow> \<exists>b. ?new = (b, fst s, snd s)"
    by (cases ?new) (auto simp: s_def split: option.split)
  ultimately show ?thesis using r2(1,2) by (intro conjI exI [where x = "fst s"]) auto
qed

text \<open>The first call makes the connection, and on a working one it succeeds.\<close>

lemma call_RPC_async_first:
  assumes "conn_async r = None" "client_accepts (client_setting r) (request_frame e sid op payload)"
  shows "\<exists>r' c. call_RPC_async e cb None ok sid op payload timeout r u = (RpcClientStatus.OK, r', u) \<and>
    conn_async r' = Some c \<and> conn_stat c = kWorking \<and> sent_bytes (as_server c) = []"
proof -
  let ?cs = "client_setting r" and ?f = "async_recv_wrapper e (impl_handler r) cb" and ?msg = "request_frame e sid op payload"
  let ?new = "recv_net_message_async (payload_wrapper ?f) e ?cs (ClientConnAsync_new ok socket_connected) u"
  obtain b c u' where new: "?new = (b, c, u')" by (metis prod_cases3)
  note ok = as_server_new [OF new]
  have w: "conn_stat c = kWorking"
    using recv_net_message_async_waiting(1) [of socket_connected ?cs ?f e ok u] new
    by (simp add: as_server_views(4) socket_connected_def)
  have "async_send_inv ?cs c"
    using conn_okD(3) [OF ok(1), where d = "Dispatcher_new :: unit Dispatcher"] w by (simp add: reader_views async_send_inv_def)
  from send_net_message_async_accepted [OF this w assms(2)] have sent: "fst (send_net_message_async e ?cs ?msg c)" .
  have "conn_stat (as_server (snd (send_net_message_async e ?cs ?msg c))) = kWorking"
    "sent_bytes (as_server (snd (send_net_message_async e ?cs ?msg c))) = []"
    unfolding send_net_message_simulates using w append_prefixD [OF conn_okD(8) [OF ok(1)]]
    by (simp_all add: async_send_message_frame sent_bytes_def)
  then show ?thesis
    using call_RPC_async_eq [OF refl refl refl refl refl, where e = e and r = r and cb = cb and ok = ok and u = u and sid = sid
        and op = op and payload = payload and connect_ec = None and timeout = timeout] assms(1) new sent ok(2)
    by fastforce
qed

lemma cli_inv_call:
  assumes "cli_inv e cb s calls rcv (r, u)"
    and "call_RPC_async e cb connect_ec ok sid op payload timeout r u = (RpcClientStatus.OK, r', u')"
  shows "cli_inv e cb s (calls @ [(sid, op, payload)]) rcv (r', u')"
proof -
  let ?cs = "client_setting (fst s)" and ?f = "async_recv_wrapper e (impl_handler (fst s)) cb"
  let ?msg = "request_frame e sid op payload"
  have r: "client_setting r = ?cs" "impl_handler r = impl_handler (fst s)" using assms(1) by (simp_all add: cli_inv_def)
  from call_RPC_async_OK [OF assms(2) refl refl] obtain c where
    keep: "client_setting r' = ?cs" "impl_handler r' = impl_handler (fst s)" and
    c: "case conn_async r of
          Some c0 \<Rightarrow> c = c0 \<and> u' = u
        | None \<Rightarrow> \<exists>b. recv_net_message_async (payload_wrapper ?f) e ?cs (ClientConnAsync_new ok socket_connected) u = (b, c, u')"
    and acc: "client_accepts ?cs ?msg" and r': "conn_async r' = Some (snd (send_net_message_async e ?cs ?msg c))"
    unfolding r by blast
  obtain dls where dls: "conn_ok e (as_conf ?cs) rcv dls (concat (map (call_bytes e) calls)) (as_server c)"
      "u' = fold ?f dls (snd s)"
  proof (cases "conn_async r")
    case None
    then obtain b where "recv_net_message_async (payload_wrapper ?f) e ?cs (ClientConnAsync_new ok socket_connected) u = (b, c, u')"
      using c by auto
    note new = as_server_new [OF this]
    have "calls = []" "rcv = []" "u = snd s" using assms(1) None by (simp_all add: cli_inv_def)
    then show ?thesis using new by (intro that [of "[]"]) simp_all
  next
    case (Some c0)
    then show ?thesis using assms(1) c that by (auto simp: cli_inv_def)
  qed
  have "conn_ok e (as_conf ?cs) rcv dls (concat (map (call_bytes e) (calls @ [(sid, op, payload)])))
      (as_server (snd (send_net_message_async e ?cs ?msg c)))"
    using as_server_send [OF dls(1) acc] by (simp add: call_bytes_def)
  then show ?thesis unfolding cli_inv_def using keep r' dls(2) by auto
qed

text \<open>Every other step happens on the connection, or is the timer.\<close>

lemma cli_inv_conn:
  assumes "cli_inv e cb s calls rcv (r, u)" "conn_async r = Some c"
    and "\<And>dls. conn_ok e (as_conf (client_setting r)) rcv dls (concat (map (call_bytes e) calls)) (as_server c) \<Longrightarrow>
      \<exists>ps. conn_ok e (as_conf (client_setting r)) rcv' (dls @ ps) (concat (map (call_bytes e) calls)) (as_server c') \<and>
        u' = fold (async_recv_wrapper e (impl_handler r) cb) ps u"
  shows "cli_inv e cb s calls rcv' (r\<lparr>conn_async := Some c'\<rparr>, u')"
proof -
  have r: "client_setting r = client_setting (fst s)" "impl_handler r = impl_handler (fst s)"
    using assms(1) by (simp_all add: cli_inv_def)
  obtain dls where "conn_ok e (as_conf (client_setting r)) rcv dls (concat (map (call_bytes e) calls)) (as_server c)"
      "u = fold (async_recv_wrapper e (impl_handler r) cb) dls (snd s)"
    using assms(1,2) by (auto simp: cli_inv_def)
  with assms(3) [OF this(1)] show ?thesis by (auto simp: cli_inv_def r)
qed

lemma cli_inv_quiet:
  assumes "cli_inv e cb s calls rcv (r, u)" "conn_async r = Some c"
    and "\<And>dls. conn_ok e (as_conf (client_setting r)) rcv dls (concat (map (call_bytes e) calls)) (as_server c) \<Longrightarrow>
      conn_ok e (as_conf (client_setting r)) rcv dls (concat (map (call_bytes e) calls)) (as_server c')"
  shows "cli_inv e cb s calls rcv (r\<lparr>conn_async := Some c'\<rparr>, u)"
  by (rule cli_inv_conn [OF assms(1,2)]) (use assms(3) in \<open>auto intro: exI [where x = "[]"]\<close>)

lemma io_rpc_timer_async:
  assumes "io_rpc_timer r = Some r'"
  shows "client_setting r' = client_setting r \<and> impl_handler r' = impl_handler r \<and>
    (conn_async r' = conn_async r \<or> conn_async r' = map_option shutdown_and_close_socket (conn_async r))"
  using assms by (auto simp: io_rpc_timer_def rpc_call_timeout_def Let_def split: option.splits list.splits if_splits)

lemma cli_inv_cong:
  assumes "cli_inv e cb s calls rcv (r, u)" "client_setting r' = client_setting r" "impl_handler r' = impl_handler r"
    and "conn_async r' = conn_async r"
  shows "cli_inv e cb s calls rcv (r', u)"
  using assms unfolding cli_inv_def fst_conv snd_conv by simp

lemma cli_inv_timer:
  assumes "cli_inv e cb s calls rcv (r, u)" "io_rpc_timer r = Some r'"
  shows "cli_inv e cb s calls rcv (r', u)"
proof -
  note t = io_rpc_timer_async [OF assms(2)]
  show ?thesis
  proof (cases "conn_async r")
    case None
    then show ?thesis using cli_inv_cong [OF assms(1), of r'] t by simp
  next
    case (Some c)
    have "cli_inv e cb s calls rcv (r\<lparr>conn_async := Some (shutdown_and_close_socket c)\<rparr>, u)"
      by (rule cli_inv_quiet [OF assms(1) Some as_server_shutdown])
    then show ?thesis using cli_inv_cong [OF assms(1), of r'] cli_inv_cong [of _ _ _ _ _ _ _ r'] t Some by fastforce
  qed
qed

lemma cli_run_inv:
  assumes "cli_run e cb s calls rcv t" "conn_async (fst s) = None"
  shows "cli_inv e cb s calls rcv t"
  using assms
proof (induction rule: cli_run.induct)
  case Start
  then show ?case by (simp add: cli_inv_def)
next
  case (Call calls rcv r u)
  show ?case by (rule cli_inv_call [OF Call.IH [OF Call.prems] Call.hyps(2)])
next
  case (Read calls rcv r u c chunk c' u')
  show ?case by (rule cli_inv_conn [OF Read.IH [OF Read.prems] Read.hyps(2)]) (use as_server_read [OF _ Read.hyps(3,4) refl] in blast)
next
  case (ReadErr calls rcv r u c err n c' u')
  have "u' = u" using ReadErr.IH [OF ReadErr.prems] ReadErr.hyps(2) as_server_read_error(2) [OF _ ReadErr.hyps(3,4)]
    by (auto simp: cli_inv_def)
  then show ?case
    by (simp, intro cli_inv_quiet [OF ReadErr.IH [OF ReadErr.prems] ReadErr.hyps(2)]
      as_server_read_error(1) [OF _ ReadErr.hyps(3,4)])
next
  case (WriteOk calls rcv r u c)
  show ?case by (rule cli_inv_quiet [OF WriteOk.IH [OF WriteOk.prems] WriteOk.hyps(2) as_server_write_ok])
next
  case (WriteErr calls rcv r u c err k)
  show ?case
    by (rule cli_inv_quiet [OF WriteErr.IH [OF WriteErr.prems] WriteErr.hyps(2) as_server_write_error [OF _ WriteErr.hyps(3)]])
next
  case (Timer calls rcv r u r')
  show ?case by (rule cli_inv_timer [OF Timer.IH [OF Timer.prems] Timer.hyps(2)])
qed

end
