(* ===== verification/Conversation.thy ===== *)
theory Conversation
  imports SystemProperties AsyncClient
begin

text \<open>
  An asynchronous client in conversation with the whole server: the server of theory System runs with all its
  connections, services and workers, the client of theory AsyncClient runs with its calls and callbacks, and the
  network brings each side an initial part of what the other has transmitted.
\<close>

section \<open>What the service answers a call\<close>

text \<open>The answer to a call as a function of the call alone, without frames, byte order and connections.\<close>

definition read_reply :: "XtraReadOps_Request option \<Rightarrow> XtraReadOps_Response option" where
  "read_reply parsed =
     (let ok = XtraReadOps_Response_empty\<lparr>rsp_code := Some 0, rsp_msg := Some (str_bytes ''OK'')\<rparr>
      in case parsed of
           None \<Rightarrow> Some (ok\<lparr>rsp_code := Some (- 1), rsp_msg := Some param_error_text\<rparr>)
         | Some req \<Rightarrow>
             if req_ping req \<noteq> None then Some (ok\<lparr>rsp_ping := Some (str_bytes ''[[[pong]]]'')\<rparr>)
             else if req_gets req \<noteq> None then Some (ok\<lparr>rsp_gets := Some (str_bytes ''[[[pong]]]'')\<rparr>)
             else case req_echo req of
                    Some m \<Rightarrow> Some (ok\<lparr>rsp_echo := Some (str_bytes ''echo:'' @ m)\<rparr>)
                  | None \<Rightarrow>
                      if req_timeout req \<noteq> None
                      then Some (ok\<lparr>rsp_timeout := Some (str_bytes ''you should not see this.'')\<rparr>) else None)"

definition call_answer ::
  "(bytes \<Rightarrow> XtraReadOps_Request option) \<Rightarrow> (XtraReadOps_Response \<Rightarrow> bytes) \<Rightarrow> u16 set \<Rightarrow> u16 \<times> u16 \<times> bytes \<Rightarrow>
    RpcResponseMessage" where
  "call_answer unmarshal marshal ids call =
     (case call of (sid, op, payload) \<Rightarrow>
        if payload = [] then RpcResponseMessage_status RpcResponseStatus.INVALID_REQUEST
        else if sid \<notin> ids then RpcResponseMessage_status RpcResponseStatus.INVALID_SERVICE
        else if op = CMD_WRITE then RpcResponseMessage_of sid op (str_bytes ''nicol_write_reply'')
        else if op \<noteq> CMD_READ then RpcResponseMessage_status RpcResponseStatus.INVALID_REQUEST
        else case read_reply (unmarshal payload) of
               None \<Rightarrow> RpcResponseMessage_status RpcResponseStatus.INVALID_REQUEST
             | Some rsp \<Rightarrow> RpcResponseMessage_of sid op (marshal rsp))"

definition answer_frame :: "endian \<Rightarrow> RpcResponseMessage \<Rightarrow> Message" where
  "answer_frame e m = Message_of (RpcResponseMessage_net_str e m)"

definition call_payload :: "endian \<Rightarrow> u16 \<times> u16 \<times> bytes \<Rightarrow> bytes" where
  "call_payload e call = (case call of (sid, op, payload) \<Rightarrow> request_payload e sid op payload)"

lemma call_answer_response: "server_response (call_answer um ma ids call)"
  by (auto simp: call_answer_def server_response_def intro: exI [where x = RpcResponseStatus.INVALID_REQUEST]
    exI [where x = RpcResponseStatus.INVALID_SERVICE] split: prod.split option.split)

text \<open>The frame the server makes for a payload it delivered.\<close>

definition payload_answer ::
  "(bytes \<Rightarrow> XtraReadOps_Request option) \<Rightarrow> (XtraReadOps_Response \<Rightarrow> bytes) \<Rightarrow> endian \<Rightarrow> u16 set \<Rightarrow> nat \<Rightarrow> bytes \<Rightarrow> Message" where
  "payload_answer unmarshal marshal e ids i p =
     (case route_of e p ids of
        Refuse st \<Rightarrow> reject_frame e st
      | Enqueue _ \<Rightarrow> service_answer unmarshal marshal e (queued_instance e i p))"

lemma service_answer_call:
  assumes "request_ok e p" "length p < 2 ^ 32" "RpcRequestHeader_decode e p = rqm_header (RpcRequestMessage_of sid op payload)"
    and "drop sizeof_RpcRequestHeader p = payload" "payload \<noteq> []" "sid \<in> ids"
  shows "service_answer um ma e (queued_instance e i p) = answer_frame e (call_answer um ma ids (sid, op, payload))"
proof -
  let ?r = "queued_instance e i p"
  note q = queued_instance_fields [OF assms(1,2), of i]
  have r: "service_id ?r = sid" "opcode ?r = op" "rq_opcode (rqm_header (rpc_request_message ?r)) = op"
    "rqm_payload (rpc_request_message ?r) = payload"
    using q assms(3,4) by simp_all
  show ?thesis
    unfolding service_answer_def r call_answer_def read_reply_def answer_frame_def reply_frame_def reject_frame_def Let_def
    using assms(5,6) by (simp split: option.split)
qed

lemma payload_answer_call:
  assumes "length (call_payload e' call) < 2 ^ 32"
  shows "payload_answer um ma e ids i (call_payload e' call) = answer_frame e (call_answer um ma ids call)"
proof -
  obtain sid op payload where call: "call = (sid, op, payload)" by (cases call)
  let ?p = "request_payload e' sid op payload"
  have p: "call_payload e' call = ?p" by (simp add: call call_payload_def)
  have sid: "rq_service_id (RpcRequestHeader_decode e ?p) = sid" by (simp add: request_payload_decode)
  show ?thesis
  proof (cases "payload \<noteq> [] \<and> sid \<in> ids")
    case False
    then have "route_of e ?p ids =
        Refuse (if payload = [] then RpcResponseStatus.INVALID_REQUEST else RpcResponseStatus.INVALID_SERVICE)"
      by (auto simp: route_of_def request_payload_ok sid Let_def)
    then show ?thesis
      unfolding p using False
      by (cases "payload = []") (simp_all add: call call_answer_def payload_answer_def answer_frame_def reject_frame_def)
  next
    case True
    then have "route_of e ?p ids = Enqueue sid" by (simp add: request_payload_route)
    then show ?thesis
      unfolding p
      using service_answer_call [of e ?p sid op payload ids um ma i] True assms [unfolded p]
      by (simp add: payload_answer_def request_payload_ok request_payload_decode call)
  qed
qed

section \<open>What a connection was answered\<close>

text \<open>The frames made for a connection, refusals and answers, before the size limit drops any.\<close>

fun event_answers ::
  "(bytes \<Rightarrow> XtraReadOps_Request option) \<Rightarrow> (XtraReadOps_Response \<Rightarrow> bytes) \<Rightarrow> endian \<Rightarrow> u16 set \<Rightarrow> nat \<Rightarrow> event \<Rightarrow>
    Message list" where
  "event_answers unmarshal marshal e ids i (Received j bs) = []"
| "event_answers unmarshal marshal e ids i (Delivered j p) =
     (if j = i then case route_of e p ids of Refuse st \<Rightarrow> [reject_frame e st] | Enqueue _ \<Rightarrow> [] else [])"
| "event_answers unmarshal marshal e ids i (Served sid r) =
     (if full_socket r = i then [service_answer unmarshal marshal e r] else [])"

definition answers ::
  "(bytes \<Rightarrow> XtraReadOps_Request option) \<Rightarrow> (XtraReadOps_Response \<Rightarrow> bytes) \<Rightarrow> endian \<Rightarrow> u16 set \<Rightarrow> nat \<Rightarrow> event list \<Rightarrow>
    Message list" where
  "answers unmarshal marshal e ids i h = concat (map (event_answers unmarshal marshal e ids i) h)"

lemma answers_simps [simp]:
  "answers um ma e ids i [] = []"
  "answers um ma e ids i (ev # h) = event_answers um ma e ids i ev @ answers um ma e ids i h"
  by (simp_all add: answers_def)

lemma owed_event:
  "owed um ma e cf ids i [ev] = concat (map (Message_net_str e) (filter (send_accepts cf) (event_answers um ma e ids i ev)))"
proof (cases ev)
  case (Delivered j p)
  have "owed um ma e cf ids i [Delivered j p] = (if j = i then refusal_bytes e cf (route_of e p ids) else [])"
    by (simp add: owed_def)
  then show ?thesis unfolding Delivered by (cases "route_of e p ids"; cases "j = i") (simp_all add: refusal_bytes_def)
qed (simp_all add: owed_def answer_bytes_def Let_def)

lemma owed_answers:
  "owed um ma e cf ids i h = concat (map (Message_net_str e) (filter (send_accepts cf) (answers um ma e ids i h)))"
proof (induction h)
  case Nil
  then show ?case by simp
next
  case (Cons ev h)
  then show ?case using history_append(5) [of um ma e cf ids i "[ev]" h] owed_event [of um ma e cf ids i ev] by simp
qed

text \<open>The requests taken and served, each with its service.\<close>

definition tagged_requests :: "endian \<Rightarrow> u16 set \<Rightarrow> event list \<Rightarrow> (u16 \<times> RpcInstance) list" where
  "tagged_requests e ids h = concat (map (\<lambda>ev. case ev of
     Delivered i p \<Rightarrow> (case route_of e p ids of Enqueue sid \<Rightarrow> [(sid, queued_instance e i p)] | Refuse _ \<Rightarrow> []) | _ \<Rightarrow> []) h)"

definition tagged_served :: "event list \<Rightarrow> (u16 \<times> RpcInstance) list" where
  "tagged_served h = concat (map (\<lambda>ev. case ev of Served sid r \<Rightarrow> [(sid, r)] | _ \<Rightarrow> []) h)"

lemma tagged_counts:
  "count (mset (requests e ids sid h)) r = count (mset (tagged_requests e ids h)) (sid, r)"
  "count (mset (served_by sid h)) r = count (mset (tagged_served h)) (sid, r)"
  by (induction h) (auto simp: requests_def served_by_def tagged_requests_def tagged_served_def split: event.split route.split)

lemma tagged_served_requests:
  assumes "accounts contents e ids h d ws"
  shows "mset (tagged_served h) \<subseteq># mset (tagged_requests e ids h)"
    and "(\<And>sid. queue_of contents d sid = []) \<Longrightarrow> (\<And>sid. hands sid ws = []) \<Longrightarrow>
      mset (tagged_served h) = mset (tagged_requests e ids h)"
proof -
  have acc: "\<exists>taken. taken @ queue_of contents d sid = requests e ids sid h \<and>
      mset taken = mset (served_by sid h) + mset (hands sid ws)" for sid
    using assms by (simp add: accounts_def)
  have "count (mset (served_by sid h)) r \<le> count (mset (requests e ids sid h)) r" for sid r
    using acc [of sid] by (metis count_union le_add1 mset_append order_trans)
  then show "mset (tagged_served h) \<subseteq># mset (tagged_requests e ids h)"
    by (auto simp: subseteq_mset_def tagged_counts)
  show "mset (tagged_served h) = mset (tagged_requests e ids h)"
    if q: "\<And>sid. queue_of contents d sid = []" "\<And>sid. hands sid ws = []"
  proof (rule multiset_eqI)
    fix x :: "u16 \<times> RpcInstance"
    obtain sid r where x: "x = (sid, r)" by (cases x)
    have "mset (served_by sid h) = mset (requests e ids sid h)" using acc [of sid] q by auto
    then show "count (mset (tagged_served h)) x = count (mset (tagged_requests e ids h)) x"
      by (simp add: x flip: tagged_counts)
  qed
qed

text \<open>On one connection: its refusals, and the answers of the requests served for it.\<close>

lemma answers_split:
  "mset (answers um ma e ids i h) =
    image_mset (payload_answer um ma e ids i) (filter_mset (\<lambda>p. \<exists>st. route_of e p ids = Refuse st) (mset (delivered i h))) +
    image_mset (service_answer um ma e) (filter_mset (\<lambda>r. full_socket r = i) (image_mset snd (mset (tagged_served h))))"
  by (induction h) (auto simp: answers_def delivered_def tagged_served_def payload_answer_def split: event.split route.split)

lemma delivered_split:
  "image_mset (payload_answer um ma e ids i) (mset (delivered i h)) =
    image_mset (payload_answer um ma e ids i) (filter_mset (\<lambda>p. \<exists>st. route_of e p ids = Refuse st) (mset (delivered i h))) +
    image_mset (service_answer um ma e) (filter_mset (\<lambda>r. full_socket r = i) (image_mset snd (mset (tagged_requests e ids h))))"
  by (induction h) (auto simp: delivered_def tagged_requests_def payload_answer_def queued_instance_socket
    split: event.split route.split)

lemma answers_delivered:
  assumes "accounts contents e ids h d ws"
  shows "mset (answers um ma e ids i h) \<subseteq># image_mset (payload_answer um ma e ids i) (mset (delivered i h))"
    and "(\<And>sid. queue_of contents d sid = []) \<Longrightarrow> (\<And>sid. hands sid ws = []) \<Longrightarrow>
      mset (answers um ma e ids i h) = image_mset (payload_answer um ma e ids i) (mset (delivered i h))"
  using tagged_served_requests [OF assms] unfolding answers_split delivered_split
  by (auto intro!: subset_mset.add_left_mono image_mset_subseteq_mono multiset_filter_mono)

section \<open>The network\<close>

text \<open>
  A reader that has got an initial part of a stream of frames has found an initial part of their payloads,
  whatever headers it accepts.
\<close>

lemma frames_cut:
  assumes "length x < sizeof_Header + length p" "x @ y = Message_net_str e' (Message_of p) @ z" "length p < 2 ^ 32"
  shows "fst (frames e ok x) = []"
proof (cases "length x < sizeof_Header")
  case True
  then show ?thesis by (simp add: frames_short)
next
  case False
  have "Header_decode e (x @ y) = m_header (Message_of p)"
    unfolding assms(2) Message_net_str_wire append_assoc by (rule Header_decode_wire_zero_rev) simp_all
  then have "Header_decode e x = m_header (Message_of p)" using False by (simp add: Header_decode_append)
  then show ?thesis
    using assms(1,3) False frames_bad [of x ok e] frames_partial [of x ok e] by (cases "ok (m_header (Message_of p))") simp_all
qed

lemma frames_prefix:
  assumes "prefix x (concat (map (\<lambda>p. Message_net_str e' (Message_of p)) ps))" "\<forall>p \<in> set ps. length p < 2 ^ 32"
  shows "prefix (fst (frames e ok x)) ps"
  using assms
proof (induction ps arbitrary: x)
  case Nil
  then show ?case by (simp add: frames_short sizeof_Header_def)
next
  case (Cons p ps)
  let ?f = "Message_net_str e' (Message_of p)" and ?rest = "concat (map (\<lambda>p. Message_net_str e' (Message_of p)) ps)"
  have p: "length p < 2 ^ 32" using Cons.prems(2) by simp
  obtain y where y: "x @ y = ?f @ ?rest" using Cons.prems(1) by (auto simp: prefix_def)
  show ?case
  proof (cases "length x < sizeof_Header + length p")
    case True
    then show ?thesis using frames_cut [OF True y p, of e ok] by simp
  next
    case False
    define x' where "x' = drop (length ?f) x"
    have "take (length ?f) x = ?f" "x' @ y = ?rest"
      using arg_cong [OF y, of "take (length ?f)"] arg_cong [OF y, of "drop (length ?f)"] False by (simp_all add: x'_def)
    then have x: "x = ?f @ x'" "prefix x' ?rest" unfolding x'_def prefix_def by (metis append_take_drop_id, metis)
    show ?thesis
    proof (cases "ok (m_header (Message_of p))")
      case True
      then show ?thesis
        using frames_encode [where ok = ok, OF p True, of e e' x'] Cons.IH [OF x(2)] Cons.prems(2) x(1) by simp
    next
      case bad: False
      have "Header_decode e x = m_header (Message_of p)"
        unfolding x(1) Message_net_str_wire append_assoc by (rule Header_decode_wire_zero_rev) simp_all
      then show ?thesis using frames_bad [of x ok e] False bad by simp
    qed
  qed
qed

lemma mset_take_subseteq: "mset (take n xs) \<subseteq># mset xs"
  using mset_subset_eq_add_left [of "mset (take n xs)" "mset (drop n xs)"] by (simp flip: mset_append)

lemma mset_subset_ball: "mset xs \<subseteq># mset ys \<Longrightarrow> \<forall>y \<in> set ys. P y \<Longrightarrow> \<forall>x \<in> set xs. P x"
  using set_mset_mono [of "mset xs" "mset ys"] by auto

lemma prefix_mapE:
  assumes "prefix ys (map f xs)"
  obtains n where "ys = map f (take n xs)"
proof -
  obtain zs where "map f xs = ys @ zs" using assms by (rule prefixE)
  then have "ys = map f (take (length ys) xs)" by (metis append_eq_conv_conj take_map)
  then show ?thesis by (rule that)
qed

lemma pick_preimages:
  assumes "mset xs \<subseteq># image_mset g (mset ys)"
  shows "\<exists>zs. map g zs = xs \<and> mset zs \<subseteq># mset ys"
  using assms
proof (induction xs arbitrary: ys)
  case Nil
  then show ?case by simp
next
  case (Cons x xs)
  then have "x \<in># image_mset g (mset ys)" by (metis mset_subset_eqD list.set_intros(1) set_mset_mset)
  then obtain y where y: "y \<in> set ys" "g y = x" by auto
  then have "image_mset g (mset ys) = add_mset x (image_mset g (mset (remove1 y ys)))"
    by (metis image_mset_add_mset insert_DiffM mset_remove1 set_mset_mset)
  then have "mset xs \<subseteq># image_mset g (mset (remove1 y ys))" using Cons.prems by simp
  from Cons.IH [OF this] obtain zs where "map g zs = xs" "mset zs \<subseteq># mset (remove1 y ys)" by blast
  then show ?case using y by (intro exI [where x = "y # zs"]) (simp add: insert_subset_eq_iff)
qed

section \<open>The two sides together\<close>

text \<open>Requests and answers that fit a frame.\<close>

definition call_fits ::
  "(bytes \<Rightarrow> XtraReadOps_Request option) \<Rightarrow> (XtraReadOps_Response \<Rightarrow> bytes) \<Rightarrow> u16 set \<Rightarrow> u16 \<times> u16 \<times> bytes \<Rightarrow> bool" where
  "call_fits unmarshal marshal ids call \<longleftrightarrow> sizeof_RpcRequestHeader + length (snd (snd call)) < 2 ^ 32 \<and>
     sizeof_RpcResponseHeader + length (rsm_payload (call_answer unmarshal marshal ids call)) < 2 ^ 32"

lemma call_fits_lengths:
  assumes "call_fits um ma ids call"
  shows "length (call_payload e call) < 2 ^ 32"
    and "length (RpcResponseMessage_net_str e (call_answer um ma ids call)) < 2 ^ 32"
  using assms by (auto simp: call_fits_def call_payload_def request_payload_def split: prod.split)

lemma call_bytes_payload: "call_bytes e call = Message_net_str e (Message_of (call_payload e call))"
  by (simp add: call_bytes_def call_payload_def request_frame_def request_payload_def split: prod.split)

lemma requests_arrive:
  assumes "conn_ok ec (as_conf cs) rcv dls (concat (map (call_bytes ec) calls)) (as_server cc)"
    and "prefix (received i h) (sent_bytes (as_server cc))"
    and "conn_ok es cf (received i h) (delivered i h) out c" "\<forall>call \<in> set calls. call_fits um ma ids call"
  shows "prefix (delivered i h) (map (call_payload ec) calls)"
proof -
  let ?ps = "map (call_payload ec) calls"
  have eq: "concat (map (call_bytes ec) calls) = concat (map (\<lambda>p. Message_net_str ec (Message_of p)) ?ps)"
    by (simp add: call_bytes_payload [abs_def] comp_def)
  have "prefix (sent_bytes (as_server cc)) (concat (map (call_bytes ec) calls))"
    using append_prefixD [OF conn_okD(8) [OF assms(1)]] .
  then have "prefix (received i h) (concat (map (\<lambda>p. Message_net_str ec (Message_of p)) ?ps))"
    using assms(2) eq prefix_order.trans by metis
  moreover have "\<forall>p \<in> set ?ps. length p < 2 ^ 32" using assms(4) call_fits_lengths(1) by auto
  ultimately have "prefix (fst (frames es (header_ok cf) (received i h))) ?ps" by (rule frames_prefix)
  then show ?thesis using conn_okD(9) [OF assms(3)] prefix_order.trans by blast
qed

text \<open>The frames made for the connection are the answers of calls of this client.\<close>

lemma answers_calls:
  assumes "accounts contents es ids h d ws" "prefix (delivered i h) (map (call_payload ec) calls)"
    and "\<forall>call \<in> set calls. call_fits um ma ids call"
  shows "\<exists>zs. answers um ma es ids i h = map (\<lambda>call. answer_frame es (call_answer um ma ids call)) zs \<and>
    mset zs \<subseteq># mset calls"
proof -
  let ?g = "\<lambda>call. answer_frame es (call_answer um ma ids call)"
  obtain n where n: "delivered i h = map (call_payload ec) (take n calls)" using prefix_mapE [OF assms(2)] by blast
  have "payload_answer um ma es ids i (call_payload ec call) = ?g call" if "call \<in> set (take n calls)" for call
    using payload_answer_call call_fits_lengths(1) assms(3) in_set_takeD [OF that] by blast
  then have eq: "map (payload_answer um ma es ids i) (map (call_payload ec) (take n calls)) = map ?g (take n calls)"
    unfolding map_map comp_def by (rule map_cong [OF refl])
  have "image_mset (payload_answer um ma es ids i) (mset (delivered i h)) = image_mset ?g (mset (take n calls))"
    unfolding n mset_map [symmetric] eq ..
  then have "mset (answers um ma es ids i h) \<subseteq># image_mset ?g (mset (take n calls))"
    using answers_delivered(1) [OF assms(1), of um ma i] by simp
  from pick_preimages [OF this] obtain zs where "map ?g zs = answers um ma es ids i h" "mset zs \<subseteq># mset (take n calls)"
    by blast
  moreover have "mset (take n calls) \<subseteq># mset calls" by (rule mset_take_subseteq)
  ultimately show ?thesis using subset_mset.order_trans by (intro exI [where x = zs]) fastforce
qed

lemma answers_arrive:
  assumes "conn_ok es cf rcvd dlsd (owed um ma es cf ids i h) c" "prefix rcv (sent_bytes c)"
    and "conn_ok ec (as_conf cs) rcv dls out (as_server cc)"
    and "answers um ma es ids i h = map (\<lambda>call. answer_frame es (call_answer um ma ids call)) zs"
    and "\<forall>call \<in> set zs. call_fits um ma ids call"
  shows "prefix dls (map (\<lambda>call. RpcResponseMessage_net_str es (call_answer um ma ids call))
    (filter (\<lambda>call. send_accepts cf (answer_frame es (call_answer um ma ids call))) zs))"
proof -
  let ?ans = "\<lambda>call. RpcResponseMessage_net_str es (call_answer um ma ids call)"
  let ?qs = "map ?ans (filter (\<lambda>call. send_accepts cf (answer_frame es (call_answer um ma ids call))) zs)"
  have "owed um ma es cf ids i h = concat (map (\<lambda>p. Message_net_str es (Message_of p)) ?qs)"
    by (simp add: owed_answers assms(4) filter_map comp_def answer_frame_def)
  then have "prefix rcv (concat (map (\<lambda>p. Message_net_str es (Message_of p)) ?qs))"
    using append_prefixD [OF conn_okD(8) [OF assms(1)]] assms(2) prefix_order.trans by metis
  moreover have "\<forall>p \<in> set ?qs. length p < 2 ^ 32" using assms(5) call_fits_lengths(2) by auto
  ultimately have "prefix (fst (frames ec (client_header_ok cs) rcv)) ?qs" by (rule frames_prefix)
  then show ?thesis using conn_okD(9) [OF assms(3)] prefix_order.trans unfolding as_conf_header_ok by blast
qed

text \<open>
  The state of a conversation: what the client's callbacks were given is an initial part of the answers the
  server made, which are the answers of calls of the client.
\<close>

lemma conversation_state:
  assumes "sys_inv contents um ma es cf ids h (ns, d, ws)" "(i, c) \<in> set (conns ns)"
    and "cli_inv ec cb (r0, u0) calls rcv (r, u)" "conn_async r = Some cc" "impl_handler r0"
    and "prefix (received i h) (sent_bytes (as_server cc))" "prefix rcv (sent_bytes c)"
    and "\<forall>call \<in> set calls. call_fits um ma ids call"
  shows "prefix (delivered i h) (map (call_payload ec) calls)"
    and "\<exists>dls zs. conn_ok ec (as_conf (client_setting r0)) rcv dls (concat (map (call_bytes ec) calls)) (as_server cc) \<and>
      u = fold (async_recv_wrapper ec True cb) dls u0 \<and>
      answers um ma es ids i h = map (\<lambda>call. answer_frame es (call_answer um ma ids call)) zs \<and> mset zs \<subseteq># mset calls \<and>
      prefix dls (map (\<lambda>call. RpcResponseMessage_net_str es (call_answer um ma ids call))
        (filter (\<lambda>call. send_accepts cf (answer_frame es (call_answer um ma ids call))) zs))"
proof -
  have acc: "accounts contents es ids h d ws" and "conns_ok um ma es cf ids h ns"
    using assms(1) by (simp_all add: sys_inv_def)
  note srv = conns_okD [OF this(2) assms(2)]
  obtain dls where cli: "conn_ok ec (as_conf (client_setting r0)) rcv dls (concat (map (call_bytes ec) calls)) (as_server cc)"
      "u = fold (async_recv_wrapper ec True cb) dls u0"
    using assms(3,4,5) by (auto simp: cli_inv_def)
  show del: "prefix (delivered i h) (map (call_payload ec) calls)"
    by (rule requests_arrive [OF cli(1) assms(6) srv assms(8)])
  from answers_calls [OF acc del assms(8)] obtain zs where
    zs: "answers um ma es ids i h = map (\<lambda>call. answer_frame es (call_answer um ma ids call)) zs" "mset zs \<subseteq># mset calls"
    by blast
  have "\<forall>call \<in> set zs. call_fits um ma ids call" by (rule mset_subset_ball [OF zs(2) assms(8)])
  from answers_arrive [OF srv assms(7) cli(1) zs(1) this] show "\<exists>dls zs.
      conn_ok ec (as_conf (client_setting r0)) rcv dls (concat (map (call_bytes ec) calls)) (as_server cc) \<and>
      u = fold (async_recv_wrapper ec True cb) dls u0 \<and>
      answers um ma es ids i h = map (\<lambda>call. answer_frame es (call_answer um ma ids call)) zs \<and> mset zs \<subseteq># mset calls \<and>
      prefix dls (map (\<lambda>call. RpcResponseMessage_net_str es (call_answer um ma ids call))
        (filter (\<lambda>call. send_accepts cf (answer_frame es (call_answer um ma ids call))) zs))"
    using cli zs by blast
qed

lemma fold_answers:
  "fold (async_recv_wrapper e True cb) (map (\<lambda>call. RpcResponseMessage_net_str e' (call_answer um ma ids call)) zs) u =
    fold (response_call cb) (map (call_answer um ma ids) zs) u"
  using fold_async_recv_wrapper [of "map (call_answer um ma ids) zs" e cb e' u] call_answer_response
  by (auto simp: comp_def)

lemma conversation_safe:
  assumes "sys_inv contents um ma es cf ids h (ns, d, ws)" "(i, c) \<in> set (conns ns)"
    and "cli_inv ec cb (r0, u0) calls rcv (r, u)" "conn_async r = Some cc" "impl_handler r0"
    and "prefix (received i h) (sent_bytes (as_server cc))" "prefix rcv (sent_bytes c)"
    and "\<forall>call \<in> set calls. call_fits um ma ids call"
  shows "\<exists>answered. mset answered \<subseteq># mset calls \<and>
    u = fold (response_call cb) (map (call_answer um ma ids) answered) u0"
proof -
  obtain dls zs where st: "u = fold (async_recv_wrapper ec True cb) dls u0" "mset zs \<subseteq># mset calls"
      "prefix dls (map (\<lambda>call. RpcResponseMessage_net_str es (call_answer um ma ids call))
        (filter (\<lambda>call. send_accepts cf (answer_frame es (call_answer um ma ids call))) zs))"
    using conversation_state(2) [OF assms] by blast
  let ?sent = "filter (\<lambda>call. send_accepts cf (answer_frame es (call_answer um ma ids call))) zs"
  obtain n where n: "dls = map (\<lambda>call. RpcResponseMessage_net_str es (call_answer um ma ids call)) (take n ?sent)"
    using prefix_mapE [OF st(3)] by blast
  have "mset (take n ?sent) \<subseteq># mset ?sent" by (rule mset_take_subseteq)
  then have "mset (take n ?sent) \<subseteq># mset calls"
    using st(2) multiset_filter_subset [of _ "mset zs"] unfolding mset_filter by (meson subset_mset.order_trans)
  moreover have "u = fold (response_call cb) (map (call_answer um ma ids) (take n ?sent)) u0"
    unfolding st(1) n by (rule fold_answers)
  ultimately show ?thesis by (intro exI [where x = "take n ?sent"] conjI)
qed

text \<open>A call within the size limits of both sides.\<close>

definition call_allowed ::
  "(bytes \<Rightarrow> XtraReadOps_Request option) \<Rightarrow> (XtraReadOps_Response \<Rightarrow> bytes) \<Rightarrow> u16 set \<Rightarrow> endian \<Rightarrow> endian \<Rightarrow> NetConf \<Rightarrow>
    RpcClientSetting \<Rightarrow> u16 \<times> u16 \<times> bytes \<Rightarrow> bool" where
  "call_allowed unmarshal marshal ids ec es cf cs call \<longleftrightarrow>
     (let answer = answer_frame es (call_answer unmarshal marshal ids call)
      in header_ok cf (m_header (Message_of (call_payload ec call))) \<and> send_accepts cf answer \<and>
         client_header_ok cs (m_header answer))"

text \<open>Nothing is left on its way: everything sent was received, everything received was served.\<close>

definition conversation_over ::
  "('q \<Rightarrow> RpcInstance list) \<Rightarrow> event list \<Rightarrow> nat \<Rightarrow> TcpConn \<Rightarrow> 'q Dispatcher \<Rightarrow> (u16 \<times> worker) list \<Rightarrow> bytes \<Rightarrow>
    ClientConnAsync \<Rightarrow> bool" where
  "conversation_over contents h i c d ws rcv cc \<longleftrightarrow>
     conn_stat c = kWorking \<and> conn_stat cc = kWorking \<and>
     received i h = sent_bytes (as_server cc) \<and> send_backlog (as_server cc) = [] \<and>
     rcv = sent_bytes c \<and> send_backlog c = [] \<and> (\<forall>sid. queue_of contents d sid = [] \<and> hands sid ws = [])"

lemma request_frames:
  assumes "\<forall>call \<in> set calls. call_fits um ma ids call \<and> call_allowed um ma ids ec es cf cs call"
  shows "frames es (header_ok cf) (concat (map (call_bytes ec) calls)) = (map (call_payload ec) calls, [], True)"
proof -
  have "concat (map (call_bytes ec) calls) = concat (map (\<lambda>p. Message_net_str ec (Message_of p)) (map (call_payload ec) calls))"
    by (simp add: call_bytes_payload [abs_def] comp_def)
  moreover have "\<forall>p \<in> set (map (call_payload ec) calls). length p < 2 ^ 32 \<and> header_ok cf (m_header (Message_of p))"
    using assms call_fits_lengths(1) by (auto simp: call_allowed_def Let_def)
  ultimately show ?thesis using frames_encode_all by metis
qed

lemma owed_calls:
  assumes "\<forall>call \<in> set zs. call_fits um ma ids call \<and> call_allowed um ma ids ec es cf cs call"
    and "answers um ma es ids i h = map (\<lambda>call. answer_frame es (call_answer um ma ids call)) zs"
  shows "owed um ma es cf ids i h = concat (map (\<lambda>call. Message_net_str es (answer_frame es (call_answer um ma ids call))) zs)"
    and "frames ec (client_header_ok cs) (owed um ma es cf ids i h) =
      (map (\<lambda>call. RpcResponseMessage_net_str es (call_answer um ma ids call)) zs, [], True)"
proof -
  let ?ps = "map (\<lambda>call. RpcResponseMessage_net_str es (call_answer um ma ids call)) zs"
  show eq: "owed um ma es cf ids i h = concat (map (\<lambda>call. Message_net_str es (answer_frame es (call_answer um ma ids call))) zs)"
    using assms(1) by (simp add: owed_answers assms(2) filter_map comp_def call_allowed_def Let_def)
  have "\<forall>p \<in> set ?ps. length p < 2 ^ 32 \<and> client_header_ok cs (m_header (Message_of p))"
    using assms(1) call_fits_lengths(2) by (auto simp: call_allowed_def answer_frame_def Let_def)
  from frames_encode_all [OF this, of ec es] show "frames ec (client_header_ok cs) (owed um ma es cf ids i h) = (?ps, [], True)"
    unfolding eq by (simp add: comp_def answer_frame_def)
qed

lemma conversation_complete:
  assumes "sys_inv contents um ma es cf ids h (ns, d, ws)" "(i, c) \<in> set (conns ns)"
    and "cli_inv ec cb (r0, u0) calls rcv (r, u)" "conn_async r = Some cc" "impl_handler r0"
    and "conversation_over contents h i c d ws rcv cc"
    and "\<forall>call \<in> set calls. call_fits um ma ids call \<and> call_allowed um ma ids ec es cf (client_setting r0) call"
  shows "\<exists>answered. mset answered = mset calls \<and>
    u = fold (response_call cb) (map (call_answer um ma ids) answered) u0"
proof -
  let ?cs = "client_setting r0" and ?ans = "\<lambda>call. RpcResponseMessage_net_str es (call_answer um ma ids call)"
  have works: "conn_stat c = kWorking" "conn_stat cc = kWorking"
    and over: "received i h = sent_bytes (as_server cc)" "send_backlog (as_server cc) = []" "rcv = sent_bytes c"
      "send_backlog c = []" "\<forall>sid. queue_of contents d sid = [] \<and> hands sid ws = []"
    using assms(6) by (simp_all add: conversation_over_def)
  have fits: "\<forall>call \<in> set calls. call_fits um ma ids call" using assms(7) by blast
  have "prefix (received i h) (sent_bytes (as_server cc))" "prefix rcv (sent_bytes c)" using over(1,3) by simp_all
  note state = conversation_state [OF assms(1-5) this fits]
  obtain dls zs where cli: "conn_ok ec (as_conf ?cs) rcv dls (concat (map (call_bytes ec) calls)) (as_server cc)"
      and u: "u = fold (async_recv_wrapper ec True cb) dls u0"
      and zs: "answers um ma es ids i h = map (\<lambda>call. answer_frame es (call_answer um ma ids call)) zs" "mset zs \<subseteq># mset calls"
    using state(2) by blast
  have acc: "accounts contents es ids h d ws" and "conns_ok um ma es cf ids h ns"
    using assms(1) by (simp_all add: sys_inv_def)
  note srv = conns_okD [OF this(2) assms(2)]
  have "received i h = concat (map (call_bytes ec) calls)"
    using conn_okD(4) [OF cli] works(2) over(1,2) by (simp add: wire_stream_def)
  then have "delivered i h = map (call_payload ec) calls"
    using conn_okD(6) [OF srv conn_okD(7) [OF srv works(1)]] request_frames [OF assms(7)] by simp
  then have "size (mset (answers um ma es ids i h)) = length calls"
    using answers_delivered(2) [OF acc, of um ma i] over(5) by simp
  then have len: "length zs = length calls" using zs(1) by simp
  have all: "mset zs = mset calls"
    using zs(2) len by (metis mset_subset_size not_less_iff_gr_or_eq size_mset subset_mset.le_imp_less_or_eq)
  then have zall: "\<forall>call \<in> set zs. call_fits um ma ids call \<and> call_allowed um ma ids ec es cf ?cs call"
    using assms(7) by (metis set_mset_mset)
  have "rcv = owed um ma es cf ids i h"
    using conn_okD(4) [OF srv works(1)] over(3,4) by (simp add: wire_stream_def)
  then have "frames ec (client_header_ok ?cs) rcv = (map ?ans zs, [], True)" using owed_calls(2) [OF zall zs(1)] by simp
  moreover have "conn_stat (as_server cc) = kWorking" using works(2) by simp
  ultimately have "dls = map ?ans zs"
    using conn_okD(6) [OF cli conn_okD(7) [OF cli]] by (simp add: as_conf_header_ok)
  then have "u = fold (response_call cb) (map (call_answer um ma ids) zs) u0" unfolding u by (simp only: fold_answers)
  then show ?thesis using all by blast
qed

end
