(* ===== verification/Completion.thy ===== *)
theory Completion
  imports Conversation
begin

text \<open>
  Progress of a conversation: both sides can read on as long as the other's stream consists of whole frames they
  accept, the client can write all it holds, and together with the server's own progress of theory System every
  call gets its answer.
\<close>

section \<open>Reading on\<close>

lemma frames_residue_length: "frames e ok bs = (ps, r, g) \<Longrightarrow> length r \<le> length bs"
proof (induction ps arbitrary: bs)
  case Nil
  then show ?case using frames_NilD(1) by fastforce
next
  case (Cons p ps)
  then show ?case using Cons.IH [OF frames_ConsD(5) [OF Cons.prems]] by simp
qed

lemma frames_good_prefix:
  assumes "snd (snd (frames e ok (x @ y)))"
  shows "snd (snd (frames e ok x))"
proof (rule ccontr)
  obtain ps r g where fr: "frames e ok x = (ps, r, g)" by (metis prod_cases3)
  assume "\<not> snd (snd (frames e ok x))"
  then have "frames e ok (x @ y) = (ps, r @ y, False)" using frames_append_bad [of e ok x ps r y] fr by simp
  then show False using assms by simp
qed

text \<open>What the outstanding read asks for is there, when the stream ends with a whole frame.\<close>

lemma asked_available:
  assumes "conn_ok e cf rcv dls out c" "conn_stat c = kWorking"
    and "frames e (header_ok cf) (rcv @ rest) = (ps, [], True)" "rest \<noteq> []"
  shows "0 < asked c" and "asked c \<le> length rest" and "asked c \<le> kFixedIoBufferSize"
proof -
  note rd = conn_okD(7) [OF assms(1,2)]
  note shape = conn_okD(5) [OF assms(1) rd]
  let ?bs = "unread e c @ rest"
  obtain qs where qs: "frames e (header_ok cf) ?bs = (qs, [], True)"
    using frames_append_good [OF conn_okD(6) [OF assms(1) rd], of rest] assms(3)
    by (cases "frames e (header_ok cf) ?bs") auto
  moreover have "qs \<noteq> []" using qs frames_NilD(1) [of e "header_ok cf" ?bs "[]" True] assms(4) by auto
  ultimately obtain q qs' where "frames e (header_ok cf) ?bs = (q # qs', [], True)" by (cases qs) auto
  note whole = frames_ConsD(1) [OF this]
  from shape consider "length (recv_data c) < sizeof_Header"
      "sk_reads (socket c) = [ReadHead (sizeof_Header - length (recv_data c))]"
    | "length (recv_data c) < unat (h_length (io_header (recv_bound c)))"
      "sk_reads (socket c) = [ReadMsg (min (unat (h_length (io_header (recv_bound c))) - length (recv_data c)) kFixedIoBufferSize)]"
    by (auto simp: read_shape_def Let_def)
  then have "0 < asked c \<and> asked c \<le> length rest \<and> asked c \<le> kFixedIoBufferSize"
  proof cases
    case 1
    then show ?thesis using whole by (auto simp: asked_def unread_def sizeof_Header_def kFixedIoBufferSize_def)
  next
    case 2
    then show ?thesis using whole by (simp add: asked_def unread_def kFixedIoBufferSize_def)
  qed
  then show "0 < asked c" and "asked c \<le> length rest" and "asked c \<le> kFixedIoBufferSize" by simp_all
qed

lemma read_on_possible:
  assumes "conn_ok e cf rcv dls out c" "conn_stat c = kWorking"
    and "frames e (header_ok cf) (rcv @ rest) = (ps, [], True)" "rest \<noteq> []" "length (rcv @ rest) < 2 ^ 32"
  shows "\<exists>chunk rest'. rest = chunk @ rest' \<and> length rest' < length rest \<and> read_possible e c chunk \<and>
    snd (snd (frames e (header_ok cf) (rcv @ chunk)))"
proof -
  note a = asked_available [OF assms(1-4)]
  note rd = conn_okD(7) [OF assms(1,2)]
  let ?chunk = "take (asked c) rest" and ?rest = "drop (asked c) rest"
  have "length (unread e c) \<le> length rcv" by (rule frames_residue_length [OF conn_okD(6) [OF assms(1) rd]])
  then have "read_possible e c ?chunk" using a rd assms(5) by (simp add: read_possible_def)
  moreover have "snd (snd (frames e (header_ok cf) (rcv @ ?chunk)))"
    by (rule frames_good_prefix [of e "header_ok cf" _ ?rest]) (simp add: assms(3))
  ultimately show ?thesis using a(1,2) by (intro exI [where x = ?chunk] exI [where x = ?rest]) simp
qed

text \<open>A read of good bytes leaves the connection working, on the server and on the client.\<close>

lemma good_read_working:
  fixes Q :: "'q EQueue"
  assumes "conn_ok e cf rcv dls out c" "conn_stat c = kWorking" "read_possible e c chunk"
    and "io_read_ok Q e cf i chunk (c, d) = (c', d')" "snd (snd (frames e (header_ok cf) (rcv @ chunk)))"
  shows "conn_stat c' = kWorking"
proof -
  have "snd (snd (frames e (header_ok cf) (unread e c @ chunk)))"
    using frames_append_good [OF conn_okD(6) [OF assms(1) conn_okD(7) [OF assms(1,2)]], of chunk] assms(5) by simp
  moreover have "srv_outcome Q e cf i (frames e (header_ok cf) (unread e c @ chunk)) (srv_world (c, d)) (c', d')"
    using io_read_ok_outcome [OF conn_okD(3) [OF assms(1,2), where d = d], where chunk = chunk and e = e and Q = Q and i = i] assms(3,4)
    by (simp add: reader_views read_possible_def kFixedIoBufferSize_def)
  ultimately have "srv_waiting cf (c', d')" by (simp add: srv_outcome_def)
  then show ?thesis by (simp add: reader_views)
qed

lemma good_read_working_async:
  assumes "conn_ok e (as_conf cs) rcv dls out (as_server c)" "conn_stat c = kWorking" "read_possible e (as_server c) chunk"
    and "io_read_ok_async (payload_wrapper f) e cs chunk (c, u) = (c', u')"
    and "snd (snd (frames e (header_ok (as_conf cs)) (rcv @ chunk)))"
  shows "conn_stat c' = kWorking"
proof -
  have ok: "conn_stat (as_server c) = kWorking" using assms(2) by simp
  note wait = conn_okD(3) [OF assms(1) ok, where d = "Dispatcher_new :: unit Dispatcher", unfolded reader_views]
  have "ac_sane c" using wait by (simp add: send_inv_def)
  then have cw: "cli_waiting cs (c, u)" using wait assms(2) by (simp add: as_server_views(4))
  have "snd (snd (frames e (client_header_ok cs) (unread e (as_server c) @ chunk)))"
    using frames_append_good [OF conn_okD(6) [OF assms(1) conn_okD(7) [OF assms(1) ok]], of chunk] assms(5)
    by (simp add: as_conf_header_ok)
  moreover have "cli_outcome e cs f (frames e (client_header_ok cs) (unread e (as_server c) @ chunk)) u (c', u')"
    using io_read_ok_async_outcome [OF cw, of chunk e f] assms(3,4)
    by (simp add: read_possible_def kFixedIoBufferSize_def as_server_views(2,3) [where u = u])
  ultimately have "cli_waiting cs (c', u')" unfolding cli_outcome_def by auto
  then show ?thesis by (simp add: as_server_views(4))
qed

section \<open>The server reads a stream to its end\<close>

lemma server_reads_on:
  fixes Q :: "'q EQueue"
  assumes "sys_run Q um ma e s h (ns, d, ws)" "fifo_queue Q contents" "sys_inv contents um ma e cf ids [] s"
    and "(i, c) \<in> set (conns ns)" "conn_stat c = kWorking"
    and "frames e (header_ok cf) (received i h @ rest) = (ps, [], True)" "length (received i h @ rest) < 2 ^ 32"
  shows "\<exists>h' ns' d' c'. sys_run Q um ma e s (h @ h') (ns', d', ws) \<and> (i, c') \<in> set (conns ns') \<and>
    conn_stat c' = kWorking \<and> received i h' = rest"
  using assms(1,4-7)
proof (induction "length rest" arbitrary: h ns d c rest rule: less_induct)
  case less
  note inv = sys_run_inv [OF less.prems(1) assms(2,3)]
  show ?case
  proof (cases "rest = []")
    case True
    then show ?thesis using less.prems(1,2,3) by (intro exI [where x = "[]"] exI) auto
  next
    case False
    have lim: "same_limits (net_conf ns) cf" and "conns_ok um ma e cf ids h ns" using inv by (simp_all add: sys_inv_def)
    then have ok: "conn_ok e (net_conf ns) (received i h) (delivered i h) (owed um ma e cf ids i h) c"
      using conns_okD [OF _ less.prems(2)] same_limits_cong(3) [OF lim, of e] by metis
    note hdr = same_limits_cong(1) [OF lim]
    obtain chunk rest' where ch: "rest = chunk @ rest'" "length rest' < length rest" "read_possible e c chunk"
        "snd (snd (frames e (header_ok (net_conf ns)) (received i h @ chunk)))"
      using read_on_possible [OF ok less.prems(3) _ False less.prems(5)] less.prems(4) unfolding hdr by blast
    obtain c' d' where io: "io_read_ok Q e (net_conf ns) i chunk (c, d) = (c', d')" by (metis surj_pair)
    let ?h = "read_events i chunk (handed_over e (net_conf ns) c chunk)"
    note run = sys_run.Read [OF less.prems(1,2) ch(3) io]
    have "(i, c') \<in> set (conns (conn_update i c' ns))"
      using less.prems(2) by (intro conn_update_laws(3)) (force simp: conn_ids_def)
    moreover have "conn_stat c' = kWorking" by (rule good_read_working [OF ok less.prems(3) ch(3) io ch(4)])
    ultimately obtain h' ns' d'' c'' where
      "sys_run Q um ma e s ((h @ ?h) @ h') (ns', d'', ws)" "(i, c'') \<in> set (conns ns')" "conn_stat c'' = kWorking"
      "received i h' = rest'"
      using less.hyps [OF ch(2) run] less.prems(4,5) ch(1) by fastforce
    then show ?thesis
      using ch(1) by (intro exI [where x = "?h @ h'"] exI [where x = ns'] exI [where x = d''] exI [where x = c'']) simp
  qed
qed

section \<open>The client reads a stream to its end\<close>

lemma client_reads_on:
  fixes cb :: "'u rpc_handler"
  assumes "cli_run e cb (r0, u0) calls rcv (r, u)" "conn_async r0 = None" "conn_async r = Some c" "conn_stat c = kWorking"
    and "frames e (client_header_ok (client_setting r0)) (rcv @ rest) = (ps, [], True)" "length (rcv @ rest) < 2 ^ 32"
  shows "\<exists>r' u' c'. cli_run e cb (r0, u0) calls (rcv @ rest) (r', u') \<and> conn_async r' = Some c' \<and> conn_stat c' = kWorking \<and>
    sent_bytes (as_server c') = sent_bytes (as_server c) \<and> send_backlog (as_server c') = send_backlog (as_server c)"
  using assms(1,3-6)
proof (induction "length rest" arbitrary: rcv r u c rest rule: less_induct)
  case less
  show ?case
  proof (cases "rest = []")
    case True
    then show ?thesis using less.prems(1,2,3) by auto
  next
    case False
    let ?cs = "client_setting r0" and ?f = "async_recv_wrapper e (impl_handler r) cb"
    have "cli_inv e cb (r0, u0) calls rcv (r, u)" using cli_run_inv [OF less.prems(1)] assms(2) by simp
    then obtain dls where ok: "conn_ok e (as_conf ?cs) rcv dls (concat (map (call_bytes e) calls)) (as_server c)"
        and cs: "client_setting r = ?cs"
      using less.prems(2) by (auto simp: cli_inv_def)
    have w: "conn_stat (as_server c) = kWorking" using less.prems(3) by simp
    obtain chunk rest' where ch: "rest = chunk @ rest'" "length rest' < length rest" "read_possible e (as_server c) chunk"
        "snd (snd (frames e (header_ok (as_conf ?cs)) (rcv @ chunk)))"
      using read_on_possible [OF ok w _ False less.prems(5)] less.prems(4) unfolding as_conf_header_ok by blast
    obtain c' u' where io: "io_read_ok_async (payload_wrapper ?f) e ?cs chunk (c, u) = (c', u')" by (metis surj_pair)
    have c': "conn_stat c' = kWorking" by (rule good_read_working_async [OF ok less.prems(3) ch(3) io ch(4)])
    have ok': "conn_ok e (as_conf ?cs) (rcv @ chunk) (dls @ handed_over e (as_conf ?cs) (as_server c) chunk)
        (concat (map (call_bytes e) calls)) (as_server c')"
      using as_server_read [OF ok ch(3) io refl] by blast
    have same: "sent_bytes (as_server c') = sent_bytes (as_server c)" "send_backlog (as_server c') = send_backlog (as_server c)"
    proof -
      note shape = conn_okD(5) [OF ok conn_okD(7) [OF ok w]]
      obtain op where op: "sk_reads (socket c) = [op]" using shape by (auto simp: read_shape_def Let_def)
      have len: "0 < length chunk" "length chunk \<le> kFixedIoBufferSize"
        using ch(3) shape by (auto simp: read_possible_def read_shape_def asked_def kFixedIoBufferSize_def Let_def)
      have one: "length (sk_reads (socket c')) \<le> 1" using conn_okD(1) [OF ok'] by (simp add: io_safe_def)
      show "sent_bytes (as_server c') = sent_bytes (as_server c)" "send_backlog (as_server c') = send_backlog (as_server c)"
        using io_safe_read_async(2,3) [OF conn_okD(1) [OF ok] op len io _ one] less.prems(3) by simp_all
    qed
    note run = cli_run.Read [OF less.prems(1,2) ch(3) io [folded cs]]
    from less.hyps [OF ch(2) run] c' less.prems(4,5) ch(1) same show ?thesis by fastforce
  qed
qed

section \<open>The client writes all it holds\<close>

lemma io_writes_simulate: "as_server ((io_write_ok_async ^^ n) c) = (io_write_ok (as_conf cs) ^^ n) (as_server c)"
  by (induction n) (simp_all add: io_write_simulates [where cs = cs])

lemma cli_run_writes:
  assumes "cli_run e cb s calls rcv (r, u)" "conn_async r = Some c"
  shows "cli_run e cb s calls rcv (r\<lparr>conn_async := Some ((io_write_ok_async ^^ n) c)\<rparr>, u)"
proof (induction n)
  case 0
  have "r\<lparr>conn_async := Some c\<rparr> = r" using assms(2) by (cases r) simp
  then show ?case using assms(1) by simp
next
  case (Suc n)
  from cli_run.WriteOk [OF this] show ?case by simp
qed

lemma client_writes_all:
  assumes "cli_run e cb (r0, u0) calls rcv (r, u)" "conn_async r0 = None" "conn_async r = Some c" "conn_stat c = kWorking"
    and "length (concat (map (call_bytes e) calls)) < 2 ^ 32"
  shows "\<exists>r' c'. cli_run e cb (r0, u0) calls rcv (r', u) \<and> conn_async r' = Some c' \<and> conn_stat c' = kWorking \<and>
    send_backlog (as_server c') = [] \<and> sent_bytes (as_server c') = concat (map (call_bytes e) calls)"
proof -
  let ?cs = "client_setting r0"
  have ok: "\<exists>dls. conn_ok e (as_conf ?cs) rcv dls (concat (map (call_bytes e) calls)) (as_server c)"
    if "cli_run e cb (r0, u0) calls rcv (r, u)" "conn_async r = Some c" for r c
    using cli_run_inv [OF that(1)] that(2) assms(2) by (auto simp: cli_inv_def)
  obtain dls where "conn_ok e (as_conf ?cs) rcv dls (concat (map (call_bytes e) calls)) (as_server c)"
    using ok [OF assms(1,3)] by blast
  from conn_ok_drains [OF this _ assms(5)] assms(4) obtain n where
    n: "send_backlog ((io_write_ok (as_conf ?cs) ^^ n) (as_server c)) = []"
      "conn_stat ((io_write_ok (as_conf ?cs) ^^ n) (as_server c)) = kWorking"
    by auto
  let ?c = "(io_write_ok_async ^^ n) c"
  have c: "send_backlog (as_server ?c) = []" "conn_stat (as_server ?c) = kWorking"
    using n unfolding io_writes_simulate [of n c ?cs] by simp_all
  note run = cli_run_writes [OF assms(1,3), of n]
  obtain dls' where "conn_ok e (as_conf ?cs) rcv dls' (concat (map (call_bytes e) calls)) (as_server ?c)"
    using ok [OF run] by auto
  from conn_okD(4) [OF this c(2)] have "sent_bytes (as_server ?c) = concat (map (call_bytes e) calls)"
    using c(1) by (simp add: wire_stream_def)
  then show ?thesis using run c by (intro exI) auto
qed

section \<open>A conversation comes to its end\<close>

lemma length_concat_subset:
  assumes "mset xs \<subseteq># mset ys"
  shows "length (concat (map f xs)) \<le> length (concat (map f ys))"
proof -
  have len: "length (concat (map f zs)) = sum_mset (image_mset (\<lambda>x. length (f x)) (mset zs))" for zs
    by (induction zs) simp_all
  obtain ms where "mset ys = mset xs + ms" using assms by (metis subset_mset.add_diff_inverse)
  then show ?thesis unfolding len by simp
qed

text \<open>The requests come in: the client writes them all, and the server reads them.\<close>

lemma requests_come_in:
  fixes Q :: "'q EQueue" and cb :: "'u rpc_handler"
  assumes srv: "sys_run Q um ma es s h (ns, d, ws)" "fifo_queue Q contents" "sys_inv contents um ma es cf ids [] s"
      "(i, c) \<in> set (conns ns)" "conn_stat c = kWorking"
    and cli: "cli_run ec cb (r0, u0) calls rcv (r, u)" "conn_async r0 = None" "conn_async r = Some cc" "conn_stat cc = kWorking"
    and net: "prefix (received i h) (sent_bytes (as_server cc))"
    and calls: "\<forall>call \<in> set calls. call_fits um ma ids call \<and> call_allowed um ma ids ec es cf (client_setting r0) call"
    and small: "length (concat (map (call_bytes ec) calls)) < 2 ^ 32"
  shows "\<exists>r' cc' h' ns' d' c'. cli_run ec cb (r0, u0) calls rcv (r', u) \<and> conn_async r' = Some cc' \<and> conn_stat cc' = kWorking \<and>
    send_backlog (as_server cc') = [] \<and> sent_bytes (as_server cc') = concat (map (call_bytes ec) calls) \<and>
    sys_run Q um ma es s (h @ h') (ns', d', ws) \<and> (i, c') \<in> set (conns ns') \<and> conn_stat c' = kWorking \<and>
    received i (h @ h') = concat (map (call_bytes ec) calls)"
proof -
  let ?B = "concat (map (call_bytes ec) calls)"
  obtain dls where "conn_ok ec (as_conf (client_setting r0)) rcv dls ?B (as_server cc)"
    using cli_run_inv [OF cli(1)] cli(2,3) by (auto simp: cli_inv_def)
  from append_prefixD [OF conn_okD(8) [OF this]] net obtain rest where rest: "?B = received i h @ rest"
    using prefix_order.trans by (metis prefix_def)
  obtain h' ns' d' c' where "sys_run Q um ma es s (h @ h') (ns', d', ws)" "(i, c') \<in> set (conns ns')"
      "conn_stat c' = kWorking" "received i h' = rest"
    using server_reads_on [OF srv request_frames [OF calls, unfolded rest] small [unfolded rest]] by blast
  then show ?thesis using client_writes_all [OF cli small] rest by (metis history_append(1))
qed

text \<open>The answers go out: the workers catch up, and the connection transmits all it owes.\<close>

lemma answers_go_out:
  fixes Q :: "'q EQueue"
  assumes run: "sys_run Q um ma es s h (ns, d, ws)" "fifo_queue Q contents" "sys_inv contents um ma es cf ids [] s" "staffed d ws"
    and c: "(i, c) \<in> set (conns ns)" "conn_stat c = kWorking"
    and rcvd: "received i h = concat (map (call_bytes ec) calls)"
    and calls: "\<forall>call \<in> set calls. call_fits um ma ids call \<and> call_allowed um ma ids ec es cf cs call"
    and small: "length (concat (map (\<lambda>call. Message_net_str es (answer_frame es (call_answer um ma ids call))) calls)) < 2 ^ 32"
  shows "\<exists>h' ns' d' ws' c' ps. sys_run Q um ma es s (h @ h') (ns', d', ws') \<and> (i, c') \<in> set (conns ns') \<and>
    conn_stat c' = kWorking \<and> received i (h @ h') = received i h \<and> workload contents d' ws' = 0 \<and>
    send_backlog c' = [] \<and> sent_bytes c' = owed um ma es cf ids i (h @ h') \<and> length (sent_bytes c') < 2 ^ 32 \<and>
    frames ec (client_header_ok cs) (sent_bytes c') = (ps, [], True)"
proof -
  from catch_up_and_drain [OF run] obtain h' ns' d' ws' where
    all: "sys_run Q um ma es s (h @ h') (ns', d', ws')" "workload contents d' ws' = 0" "conn_stats ns' = conn_stats ns"
      "\<forall>ev \<in> set h'. \<exists>sid r. ev = Served sid r" "\<forall>i. conn_drained um ma es cf ids (h @ h') ns' i"
    by blast
  have "(i, kWorking) \<in> set (conn_stats ns)"
    using image_eqI [OF _ c(1), of _ "\<lambda>(i, c). (i, conn_stat c)"] c(2) by (simp add: conn_stats_def)
  then have "(i, kWorking) \<in> set (conn_stats ns')" using all(3) by simp
  then obtain c' where c': "(i, c') \<in> set (conns ns')" "conn_stat c' = kWorking" by (auto simp: conn_stats_def)
  have "received i h' = []" "delivered i h' = []" using all(4) by (force simp: received_def delivered_def)+
  then have same: "received i (h @ h') = received i h" "delivered i (h @ h') = delivered i h" by simp_all
  have acc: "accounts contents es ids (h @ h') d' ws'" and "conns_ok um ma es cf ids (h @ h') ns'"
    using sys_run_inv [OF all(1) run(2,3)] by (simp_all add: sys_inv_def)
  note ok = conns_okD [OF this(2) c'(1)]
  have "delivered i (h @ h') = map (call_payload ec) calls"
    using conn_okD(6) [OF ok conn_okD(7) [OF ok c'(2)]] request_frames [OF calls] same(1) rcvd by simp
  then have "prefix (delivered i (h @ h')) (map (call_payload ec) calls)" by simp
  then obtain zs where
    zs: "answers um ma es ids i (h @ h') = map (\<lambda>call. answer_frame es (call_answer um ma ids call)) zs" "mset zs \<subseteq># mset calls"
    using answers_calls [OF acc] calls by blast
  note owed = owed_calls [OF mset_subset_ball [OF zs(2) calls] zs(1)]
  have len: "length (owed um ma es cf ids i (h @ h')) < 2 ^ 32"
    using length_concat_subset [OF zs(2)] small unfolding owed(1) by (rule le_less_trans)
  then have bl: "send_backlog c' = []" using all(5) c' by (auto simp: conn_drained_def)
  then have "sent_bytes c' = owed um ma es cf ids i (h @ h')" using conn_okD(4) [OF ok c'(2)] by (simp add: wire_stream_def)
  then show ?thesis using all(1,2) c' same(1) bl len owed(2) by metis
qed

lemma conversation_completes:
  fixes Q :: "'q EQueue" and cb :: "'u rpc_handler"
  assumes srv: "sys_run Q um ma es s h (ns, d, ws)" "fifo_queue Q contents" "sys_inv contents um ma es cf ids [] s"
      "staffed d ws" "(i, c) \<in> set (conns ns)" "conn_stat c = kWorking"
    and cli: "cli_run ec cb (r0, u0) calls rcv (r, u)" "conn_async r0 = None" "conn_async r = Some cc" "conn_stat cc = kWorking"
    and net: "prefix (received i h) (sent_bytes (as_server cc))" "prefix rcv (sent_bytes c)"
    and calls: "\<forall>call \<in> set calls. call_fits um ma ids call \<and> call_allowed um ma ids ec es cf (client_setting r0) call"
    and small: "length (concat (map (call_bytes ec) calls)) < 2 ^ 32"
      "length (concat (map (\<lambda>call. Message_net_str es (answer_frame es (call_answer um ma ids call))) calls)) < 2 ^ 32"
  shows "\<exists>h' ns' d' ws' c' rcv' r' u' cc'. sys_run Q um ma es s (h @ h') (ns', d', ws') \<and> (i, c') \<in> set (conns ns') \<and>
    cli_run ec cb (r0, u0) calls rcv' (r', u') \<and> conn_async r' = Some cc' \<and>
    conversation_over contents (h @ h') i c' d' ws' rcv' cc'"
proof -
  let ?B = "concat (map (call_bytes ec) calls)"
  from requests_come_in [OF srv(1,2,3,5,6) cli net(1) calls small(1)] obtain r1 cc1 h1 ns1 d1 c1 where
    one: "cli_run ec cb (r0, u0) calls rcv (r1, u)" "conn_async r1 = Some cc1" "conn_stat cc1 = kWorking"
      "send_backlog (as_server cc1) = []" "sent_bytes (as_server cc1) = ?B"
    and two: "sys_run Q um ma es s (h @ h1) (ns1, d1, ws)" "(i, c1) \<in> set (conns ns1)" "conn_stat c1 = kWorking"
      "received i (h @ h1) = ?B"
    by blast
  note inv = sys_run_inv [OF srv(1,2,3)]
  have "staffed d1 ws"
    using srv(4) sys_run_inv [OF two(1) srv(2,3)] inv by (simp add: sys_inv_def staffed_def)
  from answers_go_out [OF two(1) srv(2,3) this two(2,3,4) calls small(2)] obtain h2 ns2 d2 ws2 c2 ps where
    three: "sys_run Q um ma es s ((h @ h1) @ h2) (ns2, d2, ws2)" "(i, c2) \<in> set (conns ns2)" "conn_stat c2 = kWorking"
      "received i ((h @ h1) @ h2) = received i (h @ h1)" "workload contents d2 ws2 = 0" "send_backlog c2 = []"
      "sent_bytes c2 = owed um ma es cf ids i ((h @ h1) @ h2)" "length (sent_bytes c2) < 2 ^ 32"
      "frames ec (client_header_ok (client_setting r0)) (sent_bytes c2) = (ps, [], True)"
    by blast
  have "conns_ok um ma es cf ids h ns" using inv by (simp add: sys_inv_def)
  from append_prefixD [OF conn_okD(8) [OF conns_okD [OF this srv(5)]]]
  have "prefix (sent_bytes c) (sent_bytes c2)" unfolding three(7) by (simp add: prefix_append)
  then obtain rest where rest: "sent_bytes c2 = rcv @ rest" using net(2) prefix_order.trans by (metis prefix_def)
  from client_reads_on [OF one(1) cli(2) one(2,3) three(9,8) [unfolded rest]] obtain r2 u2 cc2 where
    four: "cli_run ec cb (r0, u0) calls (rcv @ rest) (r2, u2)" "conn_async r2 = Some cc2" "conn_stat cc2 = kWorking"
      "sent_bytes (as_server cc2) = sent_bytes (as_server cc1)" "send_backlog (as_server cc2) = send_backlog (as_server cc1)"
    by blast
  have "conversation_over contents (h @ h1 @ h2) i c2 d2 ws2 (rcv @ rest) cc2"
    unfolding conversation_over_def
    using three(3,4,6) four(3,4,5) one(4,5) two(4) rest workload_0 [OF three(5)] by simp
  moreover have "sys_run Q um ma es s (h @ h1 @ h2) (ns2, d2, ws2)" using three(1) by simp
  ultimately show ?thesis using three(2) four(1,2) by blast
qed

end
