(* ===== verification/AsyncFailure.thy ===== *)
theory AsyncFailure
  imports AsyncClient
begin

text \<open>
  The asynchronous client after a failed write.  The handler of a failed write closes the connection and leaves
  the send status as it was.  Such a connection neither sends nor refuses: \<^verbatim>\<open>do_write\<close> looks at the status before
  it looks at the connection.  The lemmas follow it through everything that can still happen to it, up to the
  call over the size limit that fails and drops it.
\<close>

section \<open>The state a failed write leaves\<close>

definition stuck :: "ClientConnAsync \<Rightarrow> bool" where
  "stuck c \<longleftrightarrow> conn_stat c = kClosed \<and> ac_send_status c = kSend \<and> sk_writes (socket c) = []"

lemma stuck_write_error:
  assumes "conn_ok e (as_conf cs) rcv dls out (as_server c)" "conn_stat c = kWorking" "sk_writes (socket c) \<noteq> []"
    and "err \<noteq> operation_aborted"
  shows "stuck (io_write_error_async err k c)"
proof -
  obtain n where n: "sk_writes (socket c) = [n]"
    using conn_okD(1) [OF assms(1)] assms(3) by (cases "sk_writes (socket c)") (auto simp: io_safe_def io_core_defs)
  moreover have "ac_send_status c = kSend"
    using conn_okD(1) [OF assms(1)] n by (cases "ac_send_status c") (auto simp: io_safe_def io_core_defs)
  ultimately show ?thesis
    using assms(4) by (cases err) (simp_all add: stuck_def io_write_error_async_def write_handler_async_def
      handle_socket_ec_async_def Let_def)
qed

lemma stuck_send:
  assumes "stuck c" "client_accepts cs msg"
  shows "fst (send_net_message_async e cs msg c)" and "stuck (snd (send_net_message_async e cs msg c))"
    and "sk_sent (socket (snd (send_net_message_async e cs msg c))) = sk_sent (socket c)"
  using assms by (auto simp: stuck_def send_net_message_async_def client_accepts_def do_write_async_def)

lemma io_read_ok_async_closed:
  assumes "conn_stat c = kClosed" "io_read_ok_async wh e cs chunk (c, u) = (c', u')"
  shows "conn_stat c' = kClosed \<and> ac_send_status c' = ac_send_status c \<and> sk_writes (socket c') = sk_writes (socket c) \<and>
    sk_sent (socket c') = sk_sent (socket c)"
proof (cases "sk_reads (socket c)")
  case Nil
  then show ?thesis using assms by (simp add: io_read_ok_async_def)
next
  case (Cons op ops)
  let ?c1 = "c\<lparr>socket := (socket c)\<lparr>sk_reads := ops\<rparr>,
    ac_recv_bound := (ac_recv_bound c)\<lparr>io_block := blit chunk (io_block (ac_recv_bound c))\<rparr>\<rparr>"
  let ?k = "take_block_async (length chunk) ?c1"
  have k: "conn_stat ?k = kClosed" "ac_send_status ?k = ac_send_status c" "sk_writes (socket ?k) = sk_writes (socket c)"
    "sk_sent (socket ?k) = sk_sent (socket c)"
    using assms(1) by (simp_all add: take_block_async_def)
  have "c' \<in> {?k, snd (parse_header_async e cs ?k), sock_shutdown_and_close kShutBoth (snd (parse_header_async e cs ?k)),
      snd (snd (parse_msg_body_async Message_default ?k)),
      sock_shutdown_and_close kShutBoth (snd (snd (parse_msg_body_async Message_default ?k)))}"
    using assms(2) Cons k(1)
    by (cases op) (auto simp: io_read_ok_async_def read_handler_async_def read_msg_handler_async_def case_prod_beta Let_def
      do_read_async_closed split: if_splits)
  then show ?thesis
    using k send_half_parse(1) [of e cs ?k] send_half_parse(2) [of Message_default ?k] by (auto simp: send_half_def)
qed

lemma io_read_error_async_closed:
  assumes "conn_stat c = kClosed" "io_read_error_async wh e cs err n (c, u) = (c', u')"
  shows "conn_stat c' = kClosed \<and> ac_send_status c' = ac_send_status c \<and> sk_writes (socket c') = sk_writes (socket c) \<and>
    sk_sent (socket c') = sk_sent (socket c)"
  using assms
  by (auto simp: io_read_error_async_def read_handler_async_def read_msg_handler_async_def handle_socket_ec_async_def Let_def
    split: list.splits read_op.splits)

lemma shutdown_stuck: "stuck c \<Longrightarrow> shutdown_and_close_socket c = c"
  by (simp add: stuck_def shutdown_and_close_socket_def sock_shutdown_and_close_def)

section \<open>What follows\<close>

text \<open>It stays so, whatever happens, and takes every further call without sending a byte.\<close>

definition stuck_since :: "ClientConnAsync \<Rightarrow> RpcClientImpl \<Rightarrow> bool" where
  "stuck_since c0 r \<longleftrightarrow> (\<exists>c. conn_async r = Some c \<and> stuck c \<and> sk_sent (socket c) = sk_sent (socket c0))"

lemma stuck_since_call:
  assumes "stuck_since c0 r"
    and "call_RPC_async e cb connect_ec ok sid op payload timeout r u = (RpcClientStatus.OK, r', u')"
  shows "stuck_since c0 r'"
proof -
  obtain c where c: "conn_async r = Some c" "stuck c" "sk_sent (socket c) = sk_sent (socket c0)"
    using assms(1) by (auto simp: stuck_since_def)
  from call_RPC_async_OK [OF assms(2) refl refl] c(1)
  have "client_accepts (client_setting r) (request_frame e sid op payload)"
    "conn_async r' = Some (snd (send_net_message_async e (client_setting r) (request_frame e sid op payload) c))"
    by auto
  then show ?thesis using stuck_send [OF c(2)] c(3) by (auto simp: stuck_since_def)
qed

lemma stuck_run:
  assumes "cli_run e cb s calls rcv t" "stuck_since c0 (fst s)"
  shows "client_setting (fst t) = client_setting (fst s) \<and> stuck_since c0 (fst t)"
  using assms
proof (induction rule: cli_run.induct)
  case Start
  then show ?case by simp
next
  case (Call calls rcv r u connect_ec ok sid op payload timeout r' u')
  then show ?case
    using stuck_since_call [OF _ Call.hyps(2), of c0] call_RPC_async_OK [OF Call.hyps(2) refl refl] by simp
next
  case (Read calls rcv r u c chunk c' u')
  then show ?case using io_read_ok_async_closed [OF _ Read.hyps(4)] by (auto simp: stuck_since_def stuck_def)
next
  case (ReadErr calls rcv r u c err n c' u')
  then show ?case using io_read_error_async_closed [OF _ ReadErr.hyps(4)] by (auto simp: stuck_since_def stuck_def)
next
  case (WriteOk calls rcv r u c)
  then show ?case by (auto simp: stuck_since_def stuck_def io_write_ok_async_def)
next
  case (WriteErr calls rcv r u c err k)
  then show ?case by (auto simp: stuck_since_def stuck_def io_write_error_async_def)
next
  case (Timer calls rcv r u r')
  then show ?case using io_rpc_timer_async [OF Timer.hyps(2)] shutdown_stuck by (auto simp: stuck_since_def)
qed

lemma stuck_call:
  assumes "stuck_since c0 r" "client_accepts (client_setting r) (request_frame e sid op payload)"
  shows "\<exists>r'. call_RPC_async e cb connect_ec ok sid op payload timeout r u = (RpcClientStatus.OK, r', u)"
proof -
  obtain c where c: "conn_async r = Some c" "stuck c" using assms(1) by (auto simp: stuck_since_def)
  show ?thesis
    using call_RPC_async_eq [OF refl refl refl refl refl, where e = e and r = r and cb = cb and ok = ok and u = u and sid = sid
        and op = op and payload = payload and connect_ec = connect_ec and timeout = timeout] c(1)
      stuck_send(1) [OF c(2) assms(2), of e] by fastforce
qed

text \<open>
  A call over the size limit is the way out: it fails, and failing drops the connection, so that the next call
  connects again.
\<close>

lemma call_RPC_async_too_big:
  assumes "conn_async r = Some c" "\<not> client_accepts (client_setting r) (request_frame e sid op payload)"
  shows "\<exists>st r'. call_RPC_async e cb connect_ec ok sid op payload timeout r u = (st, r', u) \<and>
    st \<in> {RPC_CALL_TIMEOUT, NETWORK_SEND_ERROR} \<and> conn_async r' = None \<and> client_setting r' = client_setting r"
proof -
  have "\<not> fst (send_net_message_async e (client_setting r) (request_frame e sid op payload) c)"
    using assms(2) by (auto simp: send_net_message_async_def client_accepts_def)
  then show ?thesis
    using call_RPC_async_eq [OF refl refl refl refl refl, where e = e and r = r and cb = cb and ok = ok and u = u and sid = sid
        and op = op and payload = payload and connect_ec = connect_ec and timeout = timeout] assms(1)
    by fastforce
qed

text \<open>A working connection that holds something to send has a write outstanding.\<close>

lemma backlog_outstanding:
  assumes "conn_ok e cf rcv dls out c" "conn_stat c = kWorking" "send_backlog c \<noteq> []" "length out < 2 ^ 32"
  shows "sk_writes (socket c) \<noteq> []"
proof
  assume none: "sk_writes (socket c) = []"
  note wait = conn_okD(3) [OF assms(1,2), where d = "Dispatcher_new :: unit Dispatcher"]
  have idle: "send_status c = kSendDone" using wait none by (cases "send_status c") (simp_all add: reader_views send_inv_def)
  have "length (buf_data (io_buffer (send_bound c))) \<le> length out"
    using conn_okD(4) [OF assms(1,2)] by (auto simp: wire_stream_def send_backlog_def)
  then have "buf_data (io_buffer (send_bound c)) = []"
    using conn_okD(1) [OF assms(1)] wait idle get_length_eq_0 [of "io_buffer (send_bound c)"] assms(2,4)
    by (simp add: io_safe_def io_core_defs reader_views)
  then show False using assms(3) none by (simp add: send_backlog_def in_flight_def)
qed

end
