(* ===== verification/ConversationProperties.thy ===== *)
theory ConversationProperties
  imports Completion AsyncFailure
begin

text \<open>
  The properties of an asynchronous client in conversation with the running server.
\<close>

section \<open>An example conversation\<close>

text \<open>
  The demo server has accepted a connection and started a worker; a client has made one call, of which nothing
  is transmitted yet.
\<close>

definition demo_async :: RpcClientImpl where
  "demo_async = (RpcClientImpl_new RpcClientSetting_new)\<lparr>impl_handler := True\<rparr>"

abbreviation demo_call :: "u16 \<times> u16 \<times> bytes" where
  "demo_call \<equiv> (1, 2, [7])"

lemma demo_async_simps:
  "conn_async demo_async = None" "impl_handler demo_async" "client_setting demo_async = RpcClientSetting_new"
  by (simp_all add: demo_async_def RpcClientImpl_new_def)

lemma demo_call_answer:
  "call_answer demo_unmarshal demo_marshal {1} demo_call = RpcResponseMessage_of 1 2 (str_bytes ''nicol_write_reply'')"
  by (simp add: call_answer_def CMD_WRITE_def)

lemma demo_call_allowed:
  "call_fits demo_unmarshal demo_marshal {1} demo_call"
  "call_allowed demo_unmarshal demo_marshal {1} Little Big (demo_conf 0 3) RpcClientSetting_new demo_call"
proof -
  have "length (str_bytes ''nicol_write_reply'') = 17" by (simp add: str_bytes_def)
  then show "call_fits demo_unmarshal demo_marshal {1} demo_call"
    by (simp add: call_fits_def demo_call_answer sizeof_RpcRequestHeader_def sizeof_RpcResponseHeader_def)
  show "call_allowed demo_unmarshal demo_marshal {1} Little Big (demo_conf 0 3) RpcClientSetting_new demo_call"
    by (simp add: call_allowed_def demo_call_answer answer_frame_def header_ok_def send_accepts_def client_header_ok_def
      demo_conf_def NetConf_default_def RpcClientSetting_new_def Let_def)
qed

lemma demo_call_small:
  "length (concat (map (call_bytes Little) [demo_call])) < 2 ^ 32"
  "length (concat (map (\<lambda>call. Message_net_str Big (answer_frame Big
    (call_answer demo_unmarshal demo_marshal {1} call))) [demo_call])) < 2 ^ 32"
proof -
  show "length (concat (map (call_bytes Little) [demo_call])) < 2 ^ 32"
    by (simp add: call_bytes_def request_frame_def sizeof_Header_def sizeof_RpcRequestHeader_def)
  show "length (concat (map (\<lambda>call. Message_net_str Big (answer_frame Big
      (call_answer demo_unmarshal demo_marshal {1} call))) [demo_call])) < 2 ^ 32"
    by (simp add: demo_call_answer answer_frame_def sizeof_Header_def sizeof_RpcResponseHeader_def str_bytes_def)
qed

lemma demo_call_made:
  "\<exists>r c. cli_run Little demo_cb (demo_async, []) [demo_call] [] (r, []) \<and> conn_async r = Some c \<and> conn_stat c = kWorking \<and>
    sent_bytes (as_server c) = []"
proof -
  have "client_accepts (client_setting demo_async) (request_frame Little 1 2 [7])"
    by (simp add: demo_async_simps client_accepts_def RpcClientSetting_new_def)
  from call_RPC_async_first [OF demo_async_simps(1) this, where cb = demo_cb and ok = True and timeout = 0 and u = "[]"]
  obtain r c where call: "call_RPC_async Little demo_cb None True 1 2 [7] 0 demo_async [] = (RpcClientStatus.OK, r, [])"
      "conn_async r = Some c" "conn_stat c = kWorking" "sent_bytes (as_server c) = []"
    by blast
  from cli_run.Call [OF cli_run.Start call(1)] show ?thesis using call(2,3,4) by auto
qed

lemma demo_accepting:
  assumes "Captain_init (demo_world_at [] True) Captain_new Dispatcher_new = Some (True, cap, d0)"
    and "net_server_ptr cap = Some ns0"
  shows "\<exists>ns c. sys_run list_queue demo_unmarshal demo_marshal Big (ns0, d0, []) [] (ns, d0, [(1, AtTop)]) \<and>
    (0, c) \<in> set (conns ns) \<and> conn_stat c = kWorking \<and> net_conf ns0 = demo_conf 0 3"
proof -
  let ?s = "TcpConn_start list_queue Big (demo_conf 0 3) 0 (TcpConn_new True socket_connected) d0"
  obtain ns where ns: "sys_run list_queue demo_unmarshal demo_marshal Big (ns0, d0, []) [] (ns, d0, [])"
      "conns ns = [(0, fst ?s)]" "net_conf ns0 = demo_conf 0 3"
    using demo_accept_run(1) [OF assms refl] by blast
  have "conn_stat (fst ?s) = kWorking"
    by (rule srv_stat(1) [OF TcpConn_start_waiting(1) [OF socket_connected_simps(1,2) refl]])
  then show ?thesis using sys_run.Spawn [OF ns(1), of 1] ns(2,3) by auto
qed

text \<open>The example, brought to its end.\<close>

lemma demo_conversation:
  "\<exists>cap d0 ns0 h ns d ws c rcv r u cc.
    Captain_init (demo_world_at ([] :: RpcInstance list) True) Captain_new Dispatcher_new = Some (True, cap, d0) \<and>
    net_server_ptr cap = Some ns0 \<and> service_ids d0 = {1} \<and> net_conf ns0 = demo_conf 0 3 \<and>
    sys_run list_queue demo_unmarshal demo_marshal Big (ns0, d0, []) h (ns, d, ws) \<and> (0, c) \<in> set (conns ns) \<and>
    cli_run Little demo_cb (demo_async, []) [demo_call] rcv (r, u) \<and> conn_async r = Some cc \<and>
    conversation_over (\<lambda>q. q) h 0 c d ws rcv cc"
proof -
  obtain cap d0 where init: "Captain_init (demo_world_at ([] :: RpcInstance list) True) Captain_new Dispatcher_new = Some (True, cap, d0)"
    using demo_start [of "[] :: RpcInstance list"] by blast
  obtain ns0 where ns0: "net_server_ptr cap = Some ns0" using demo_started(2) [OF init] by blast
  have ids: "service_ids d0 = {1}" by (rule demo_started(1) [OF init])
  obtain ns c where srv: "sys_run list_queue demo_unmarshal demo_marshal Big (ns0, d0, []) [] (ns, d0, [(1, AtTop)])"
      "(0, c) \<in> set (conns ns)" "conn_stat c = kWorking" "net_conf ns0 = demo_conf 0 3"
    using demo_accepting [OF init ns0] by blast
  obtain r cc where cli: "cli_run Little demo_cb (demo_async, []) [demo_call] [] (r, [])" "conn_async r = Some cc"
      "conn_stat cc = kWorking"
    using demo_call_made by blast
  have "wa_queue0 (demo_world_at ([] :: RpcInstance list) True) = []" by (simp add: demo_world_at_def)
  note inv = started_sys_inv [where contents = "\<lambda>q. q" and um = demo_unmarshal and ma = demo_marshal and e = Big,
      OF init ns0 this, unfolded ids srv(4)]
  have "staffed d0 [(1, AtTop)]" by (simp add: staffed_def ids)
  moreover have "prefix (received 0 []) (sent_bytes (as_server cc))" "prefix ([] :: bytes) (sent_bytes c)" by simp_all
  moreover have "\<forall>call \<in> set [demo_call]. call_fits demo_unmarshal demo_marshal {1} call \<and>
      call_allowed demo_unmarshal demo_marshal {1} Little Big (demo_conf 0 3) (client_setting demo_async) call"
    using demo_call_allowed by (simp add: demo_async_simps)
  moreover note demo_call_small
  ultimately have "\<exists>h' ns' d' ws' c' rcv' r' u' cc'.
      sys_run list_queue demo_unmarshal demo_marshal Big (ns0, d0, []) ([] @ h') (ns', d', ws') \<and> (0, c') \<in> set (conns ns') \<and>
      cli_run Little demo_cb (demo_async, []) [demo_call] rcv' (r', u') \<and> conn_async r' = Some cc' \<and>
      conversation_over (\<lambda>q. q) ([] @ h') 0 c' d' ws' rcv' cc'"
    by (rule conversation_completes [OF srv(1) list_queue_fifo inv _ srv(2,3) cli(1) demo_async_simps(1) cli(2,3)])
  then show ?thesis using init ns0 ids srv(4) by auto
qed

section \<open>The properties\<close>

text \<open>
  C3.  An asynchronous client talking to the running server.  The server was started and runs with all its other
  connections, services and workers, under any interleaving of accepts, reads, writes, errors, timeouts and updates;
  the client makes calls of any number from one connection, under any interleaving of its calls with completed and
  failed reads and writes and expiries of the call timer, up to the first call that fails.  On both sides every
  handler, call and run of a service is one step, and no update switches the operation time limit on or off.  Client
  and server may differ in byte order.  If the network has brought each side an initial part of what the other transmitted, and
  requests and answers fit a frame, then the payloads the server delivered from that connection are an initial part
  of the requests the client called with, in order; and the client's callback was called with answers of its own
  calls, at most one for each call, and each of them exactly the status, the ids and the body the service gives to
  that call.  When nothing is left on its way, the connection works on both sides, and the calls are within both
  sides' size limits, every call was answered exactly once.
\<close>

theorem async_conversation:
  fixes cb :: "'u rpc_handler"
  assumes "Captain_init w cap Dispatcher_new = Some (True, cap', d0)" "net_server_ptr cap' = Some ns0"
    and "fifo_queue Q contents" "contents (wa_queue0 w) = []"
    and "sys_run Q unmarshal marshal es (ns0, d0, []) h (ns, d, ws)" "(i, c) \<in> set (conns ns)"
    and "cli_run ec cb (r0, u0) calls rcv (r, u)" "conn_async r0 = None" "impl_handler r0" "conn_async r = Some cc"
    and "prefix (received i h) (sent_bytes (as_server cc))" "prefix rcv (sent_bytes c)"
    and "\<forall>call \<in> set calls. call_fits unmarshal marshal (service_ids d0) call"
  shows "prefix (delivered i h) (map (call_payload ec) calls) \<and>
    (\<exists>answered. mset answered \<subseteq># mset calls \<and>
      u = fold (response_call cb) (map (call_answer unmarshal marshal (service_ids d0)) answered) u0 \<and>
      (conversation_over contents h i c d ws rcv cc \<and>
        (\<forall>call \<in> set calls. call_allowed unmarshal marshal (service_ids d0) ec es (net_conf ns0) (client_setting r0) call) \<longrightarrow>
        mset answered = mset calls))"
proof -
  have inv: "sys_inv contents unmarshal marshal es (net_conf ns0) (service_ids d0) h (ns, d, ws)"
    by (rule sys_run_inv [OF assms(5,3) started_sys_inv [where contents = contents, OF assms(1,2,4)]])
  have cli: "cli_inv ec cb (r0, u0) calls rcv (r, u)" using cli_run_inv [OF assms(7)] assms(8) by simp
  note state = conversation_state(1) [OF inv assms(6) cli assms(10,9,11,12,13)]
  note safe = conversation_safe [OF inv assms(6) cli assms(10,9,11,12,13)]
  note complete = conversation_complete [OF inv assms(6) cli assms(10,9)]
  show ?thesis
  proof (cases "conversation_over contents h i c d ws rcv cc \<and> (\<forall>call \<in> set calls.
      call_allowed unmarshal marshal (service_ids d0) ec es (net_conf ns0) (client_setting r0) call)")
    case True
    then show ?thesis using complete assms(13) state by (metis subset_mset.order_refl)
  next
    case False
    then show ?thesis using safe state by blast
  qed
qed

theorem async_conversation_witness:
  "\<exists>cap d0 ns0 h ns d ws c rcv r u.
    Captain_init (demo_world_at ([] :: RpcInstance list) True) Captain_new Dispatcher_new = Some (True, cap, d0) \<and>
    net_server_ptr cap = Some ns0 \<and>
    sys_run list_queue demo_unmarshal demo_marshal Big (ns0, d0, []) h (ns, d, ws) \<and> (0, c) \<in> set (conns ns) \<and>
    cli_run Little demo_cb (demo_async, []) [demo_call] rcv (r, u) \<and>
    u = [(RpcClientStatus.OK, 1, 2, str_bytes ''nicol_write_reply'')]"
proof -
  obtain cap d0 ns0 h ns d ws c rcv r u cc where
    init: "Captain_init (demo_world_at ([] :: RpcInstance list) True) Captain_new Dispatcher_new = Some (True, cap, d0)"
      "net_server_ptr cap = Some ns0" "service_ids d0 = {1}" "net_conf ns0 = demo_conf 0 3"
    and run: "sys_run list_queue demo_unmarshal demo_marshal Big (ns0, d0, []) h (ns, d, ws)" "(0, c) \<in> set (conns ns)"
    and cli: "cli_run Little demo_cb (demo_async, []) [demo_call] rcv (r, u)" "conn_async r = Some cc"
    and over: "conversation_over (\<lambda>q. q) h 0 c d ws rcv cc"
    using demo_conversation by blast
  have q0: "wa_queue0 (demo_world_at ([] :: RpcInstance list) True) = []" by (simp add: demo_world_at_def)
  have net: "prefix (received 0 h) (sent_bytes (as_server cc))" "prefix rcv (sent_bytes c)"
    using over by (simp_all add: conversation_over_def)
  have fits: "\<forall>call \<in> set [demo_call]. call_fits demo_unmarshal demo_marshal (service_ids d0) call"
    using demo_call_allowed(1) by (simp add: init(3))
  from async_conversation [OF init(1,2) list_queue_fifo q0 run cli(1) demo_async_simps(1,2) cli(2) net fits]
  obtain answered where
    "u = fold (response_call demo_cb) (map (call_answer demo_unmarshal demo_marshal {1}) answered) []"
    "mset answered = mset [demo_call]"
    using over demo_call_allowed(2) unfolding init(3,4) demo_async_simps(3) by auto
  moreover from this(2) have "answered = [demo_call]" by simp
  ultimately have "u = [(RpcClientStatus.OK, 1, 2, str_bytes ''nicol_write_reply'')]"
    by (simp add: demo_call_answer demo_cb_def)
  then show ?thesis using init(1,2) run cli(1) by blast
qed

text \<open>
  C4.  Every call can be answered.  In every state such a conversation can reach in which the connection works on
  both sides and each service has a worker thread that has not left its loop, both sides can go on, with the client
  making no further call: the client's writes bring out all its requests, the server reads, serves and answers
  them, the client reads the answers.  They end with nothing left on its way, and the client's callback has been
  called exactly once for each call, with the answer of that call.  The calls are within both sides' size limits,
  and all requests, and all answers, of the conversation are less than 4 GiB together.
\<close>

theorem async_conversation_completes:
  fixes cb :: "'u rpc_handler"
  assumes "Captain_init w cap Dispatcher_new = Some (True, cap', d0)" "net_server_ptr cap' = Some ns0"
    and "fifo_queue Q contents" "contents (wa_queue0 w) = []"
    and "sys_run Q unmarshal marshal es (ns0, d0, []) h (ns, d, ws)" "(i, c) \<in> set (conns ns)" "conn_stat c = kWorking"
    and "\<forall>sid \<in> service_ids d. \<exists>worker. (sid, worker) \<in> set ws \<and> worker \<noteq> Left"
    and "cli_run ec cb (r0, u0) calls rcv (r, u)" "conn_async r0 = None" "impl_handler r0" "conn_async r = Some cc"
      "conn_stat cc = kWorking"
    and "prefix (received i h) (sent_bytes (as_server cc))" "prefix rcv (sent_bytes c)"
    and "\<forall>call \<in> set calls. call_fits unmarshal marshal (service_ids d0) call \<and>
      call_allowed unmarshal marshal (service_ids d0) ec es (net_conf ns0) (client_setting r0) call"
    and "length (concat (map (call_bytes ec) calls)) < 2 ^ 32"
    and "length (concat (map (\<lambda>call. Message_net_str es (answer_frame es (call_answer unmarshal marshal (service_ids d0) call)))
      calls)) < 2 ^ 32"
  shows "\<exists>h' ns' d' ws' c' rcv' r' u' cc' answered.
    sys_run Q unmarshal marshal es (ns0, d0, []) (h @ h') (ns', d', ws') \<and> (i, c') \<in> set (conns ns') \<and>
    cli_run ec cb (r0, u0) calls rcv' (r', u') \<and> conn_async r' = Some cc' \<and>
    conversation_over contents (h @ h') i c' d' ws' rcv' cc' \<and> mset answered = mset calls \<and>
    u' = fold (response_call cb) (map (call_answer unmarshal marshal (service_ids d0)) answered) u0"
proof -
  note start = started_sys_inv [where contents = contents and um = unmarshal and ma = marshal and e = es, OF assms(1,2,4)]
  from conversation_completes [OF assms(5,3) start assms(8) [folded staffed_def] assms(6,7,9,10,12,13,14,15,16,17,18)]
  obtain h' ns' d' ws' c' rcv' r' u' cc' where
    srv: "sys_run Q unmarshal marshal es (ns0, d0, []) (h @ h') (ns', d', ws')" "(i, c') \<in> set (conns ns')"
    and cli: "cli_run ec cb (r0, u0) calls rcv' (r', u')" "conn_async r' = Some cc'"
    and over: "conversation_over contents (h @ h') i c' d' ws' rcv' cc'"
    by blast
  have "cli_inv ec cb (r0, u0) calls rcv' (r', u')" using cli_run_inv [OF cli(1)] assms(10) by simp
  from conversation_complete [OF sys_run_inv [OF srv(1) assms(3) start] srv(2) this cli(2) assms(11) over assms(16)]
  show ?thesis using srv cli over by blast
qed

theorem async_conversation_completes_witness:
  "\<exists>cap d0 ns0 h ns d ws rcv r.
    Captain_init (demo_world_at ([] :: RpcInstance list) True) Captain_new Dispatcher_new = Some (True, cap, d0) \<and>
    net_server_ptr cap = Some ns0 \<and>
    sys_run list_queue demo_unmarshal demo_marshal Big (ns0, d0, []) h (ns, d, ws) \<and>
    cli_run Little demo_cb (demo_async, []) [demo_call] rcv (r, [(RpcClientStatus.OK, 1, 2, str_bytes ''nicol_write_reply'')])"
proof -
  obtain cap d0 where init: "Captain_init (demo_world_at ([] :: RpcInstance list) True) Captain_new Dispatcher_new = Some (True, cap, d0)"
    using demo_start [of "[] :: RpcInstance list"] by blast
  obtain ns0 where ns0: "net_server_ptr cap = Some ns0" using demo_started(2) [OF init] by blast
  have ids: "service_ids d0 = {1}" by (rule demo_started(1) [OF init])
  have q0: "wa_queue0 (demo_world_at ([] :: RpcInstance list) True) = []" by (simp add: demo_world_at_def)
  obtain ns c where srv: "sys_run list_queue demo_unmarshal demo_marshal Big (ns0, d0, []) [] (ns, d0, [(1, AtTop)])"
      "(0, c) \<in> set (conns ns)" "conn_stat c = kWorking" "net_conf ns0 = demo_conf 0 3"
    using demo_accepting [OF init ns0] by blast
  obtain r cc where cli: "cli_run Little demo_cb (demo_async, []) [demo_call] [] (r, [])" "conn_async r = Some cc"
      "conn_stat cc = kWorking"
    using demo_call_made by blast
  have staff: "\<forall>sid \<in> service_ids d0. \<exists>worker. (sid, worker) \<in> set [(1, AtTop)] \<and> worker \<noteq> Left" by (simp add: ids)
  have net: "prefix (received 0 []) (sent_bytes (as_server cc))" "prefix [] (sent_bytes c)" by simp_all
  from async_conversation_completes [OF init ns0 list_queue_fifo q0 srv(1,2,3) staff cli(1) demo_async_simps(1,2) cli(2,3)
      net, unfolded ids srv(4) demo_async_simps(3)] demo_call_allowed demo_call_small
  obtain h' ns' d' ws' rcv' r' u' answered where fin: "sys_run list_queue demo_unmarshal demo_marshal Big (ns0, d0, []) h' (ns', d', ws')"
      "cli_run Little demo_cb (demo_async, []) [demo_call] rcv' (r', u')" "mset answered = mset [demo_call]"
      "u' = fold (response_call demo_cb) (map (call_answer demo_unmarshal demo_marshal {1}) answered) []"
    by auto
  then have "answered = [demo_call]" by simp
  then have "u' = [(RpcClientStatus.OK, 1, 2, str_bytes ''nicol_write_reply'')]"
    using fin(4) by (simp add: demo_call_answer demo_cb_def)
  then show ?thesis using init ns0 fin(1,2) by blast
qed

text \<open>
  C40.  A failed write silences the asynchronous client until a call fails.  When a write of its working
  connection fails, the connection is closed but its send status still says that a write is on its way, and
  none is.  This remains so through every completed or failed operation, every expiry of the call timer and
  every further call, as long as no call is over the size limit: each call of an allowed size reports success,
  and not a byte is transmitted.  The first call over the limit fails and drops the connection, and the next
  allowed call then connects again.
\<close>

theorem failed_write_swallows_calls:
  fixes cb :: "'u rpc_handler"
  assumes "cli_run e cb (r0, u0) calls rcv (r, u)" "conn_async r0 = None" "conn_async r = Some c"
    and "conn_stat c = kWorking" "sk_writes (socket c) \<noteq> []" "err \<noteq> operation_aborted" "c1 = io_write_error_async err k c"
    and "cli_run e cb (r\<lparr>conn_async := Some c1\<rparr>, u) later_calls rcv' (r', u')"
  shows "(\<exists>c'. conn_async r' = Some c' \<and> conn_stat c' = kClosed \<and> ac_send_status c' = kSend \<and>
      sk_writes (socket c') = [] \<and> sent_bytes (as_server c') = sent_bytes (as_server c1)) \<and>
    (if client_accepts (client_setting r0) (request_frame e sid op payload)
     then \<exists>r''. call_RPC_async e cb connect_ec ok sid op payload timeout r' u' = (RpcClientStatus.OK, r'', u') \<and>
       (\<exists>c''. conn_async r'' = Some c'' \<and> conn_stat c'' = kClosed \<and> ac_send_status c'' = kSend \<and>
         sk_writes (socket c'') = [] \<and> sent_bytes (as_server c'') = sent_bytes (as_server c1))
     else \<exists>st r''. call_RPC_async e cb connect_ec ok sid op payload timeout r' u' = (st, r'', u') \<and>
       st \<in> {RPC_CALL_TIMEOUT, NETWORK_SEND_ERROR} \<and> conn_async r'' = None \<and>
       (client_accepts (client_setting r0) (request_frame e sid2 op2 payload2) \<longrightarrow>
         (\<exists>r3 c3. call_RPC_async e cb None ok2 sid2 op2 payload2 timeout2 r'' u' = (RpcClientStatus.OK, r3, u') \<and>
           conn_async r3 = Some c3 \<and> conn_stat c3 = kWorking)))"
proof -
  let ?r1 = "r\<lparr>conn_async := Some c1\<rparr>"
  have inv: "cli_inv e cb (r0, u0) calls rcv (r, u)" using cli_run_inv [OF assms(1)] assms(2) by simp
  then obtain dls where "conn_ok e (as_conf (client_setting r0)) rcv dls (concat (map (call_bytes e) calls)) (as_server c)"
    using assms(3) by (auto simp: cli_inv_def)
  from stuck_write_error [OF this assms(4,5,6)] have "stuck_since c1 ?r1" by (simp add: stuck_since_def assms(7))
  with stuck_run [OF assms(8), of c1] have run: "client_setting r' = client_setting r0" "stuck_since c1 r'"
    using inv by (simp_all add: cli_inv_def)
  have still: "\<exists>c'. conn_async t = Some c' \<and> conn_stat c' = kClosed \<and> ac_send_status c' = kSend \<and>
      sk_writes (socket c') = [] \<and> sent_bytes (as_server c') = sent_bytes (as_server c1)" if "stuck_since c1 t" for t
    using that by (auto simp: stuck_since_def stuck_def sent_bytes_def)
  show ?thesis
  proof (cases "client_accepts (client_setting r0) (request_frame e sid op payload)")
    case True
    then obtain r'' where call: "call_RPC_async e cb connect_ec ok sid op payload timeout r' u' = (RpcClientStatus.OK, r'', u')"
      using stuck_call [OF run(2), of e sid op payload cb connect_ec ok timeout u'] run(1) by auto
    then show ?thesis using still [OF run(2)] still [OF stuck_since_call [OF run(2) call]] True by simp
  next
    case False
    obtain c' where "conn_async r' = Some c'" using run(2) by (auto simp: stuck_since_def)
    from call_RPC_async_too_big [OF this, of e sid op payload cb connect_ec ok timeout u'] False run(1)
    obtain st r'' where call: "call_RPC_async e cb connect_ec ok sid op payload timeout r' u' = (st, r'', u')"
      "st \<in> {RPC_CALL_TIMEOUT, NETWORK_SEND_ERROR}" "conn_async r'' = None" "client_setting r'' = client_setting r0" by auto
    have "\<exists>r3 c3. call_RPC_async e cb None ok2 sid2 op2 payload2 timeout2 r'' u' = (RpcClientStatus.OK, r3, u') \<and>
        conn_async r3 = Some c3 \<and> conn_stat c3 = kWorking"
      if "client_accepts (client_setting r0) (request_frame e sid2 op2 payload2)"
      using call_RPC_async_first [OF call(3), of e sid2 op2 payload2 cb ok2 timeout2 u'] that call(4) by auto
    then show ?thesis using still [OF run(2)] call False by auto
  qed
qed

theorem failed_write_swallows_calls_witness:
  "\<exists>r c r''. cli_run Little demo_cb (demo_async, []) [demo_call] [] (r, []) \<and> conn_async r = Some c \<and>
    call_RPC_async Little demo_cb None True 1 2 [8] 0 (r\<lparr>conn_async := Some (io_write_error_async connection_reset 0 c)\<rparr>) [] =
      (RpcClientStatus.OK, r'', [])"
proof -
  obtain r c where run: "cli_run Little demo_cb (demo_async, []) [demo_call] [] (r, [])" "conn_async r = Some c"
      "conn_stat c = kWorking" "sent_bytes (as_server c) = []"
    using demo_call_made by blast
  have w: "conn_stat (as_server c) = kWorking" using run(3) by simp
  obtain dls where ok: "conn_ok Little (as_conf RpcClientSetting_new) [] dls (concat (map (call_bytes Little) [demo_call])) (as_server c)"
    using cli_run_inv [OF run(1)] run(2) by (auto simp: cli_inv_def demo_async_simps)
  have "send_backlog (as_server c) = call_bytes Little demo_call"
    using conn_okD(4) [OF ok w] run(4) by (simp add: wire_stream_def)
  moreover have "length (call_bytes Little demo_call) \<noteq> 0" by (simp add: call_bytes_def sizeof_Header_def)
  ultimately have "send_backlog (as_server c) \<noteq> []" by (metis list.size(3))
  from backlog_outstanding [OF ok w this demo_call_small(1)] have out: "sk_writes (socket c) \<noteq> []" by simp
  have acc: "client_accepts (client_setting demo_async) (request_frame Little 1 2 [8])"
    by (simp add: demo_async_simps client_accepts_def RpcClientSetting_new_def)
  have err: "connection_reset \<noteq> operation_aborted" by simp
  from failed_write_swallows_calls [OF run(1) demo_async_simps(1) run(2,3) out err refl cli_run.Start,
      where k = 0 and connect_ec = None and ok = True and timeout = 0 and sid = 1 and op = 2 and payload = "[8]"] acc
  obtain r'' where "call_RPC_async Little demo_cb None True 1 2 [8] 0
      (r\<lparr>conn_async := Some (io_write_error_async connection_reset 0 c)\<rparr>) [] = (RpcClientStatus.OK, r'', [])" by auto
  then show ?thesis using run(1,2) by (intro exI [where x = r] exI [where x = c] exI [where x = r''] conjI)
qed

end
