(* ===== verification/WireProperties.thy ===== *)
theory WireProperties
  imports Framing Buffer RpcResponseMessage
begin

text \<open>
  What the wire format and the byte queue promise, as properties: messages survive the way between
  hosts of any byte order, a stream has one reading only, the buffer is a queue of bytes, its raw copy
  is safe exactly when the caller keeps to the sizes, and the log lines fit their arrays.
\<close>

section \<open>Round trips\<close>

text \<open>
  C20.  Round trips between hosts of any byte orders.  All hosts write the same bytes for a message, and
  decoding the first 16 on any host gives back the header, the rest the payload.  Parsing what \<open>net_str\<close>
  wrote gives the message back, for every request, every reply and every status message with one of the
  enumerated statuses.
\<close>

theorem wire_roundtrip:
  assumes "named_status st"
  shows "Message_net_str e' (Message_of d) = Message_net_str e (Message_of d) \<and>
    Header_decode e (Message_net_str e' (Message_of d)) = m_header (Message_of d) \<and>
    drop sizeof_Header (Message_net_str e' (Message_of d)) = d \<and>
    RpcRequestMessageParse e (RpcRequestMessage_net_str e' (RpcRequestMessage_of sid op d)) q0 =
      (True, RpcRequestMessage_of sid op d) \<and>
    RpcResponseMessageParse e (RpcResponseMessage_net_str e' (RpcResponseMessage_of sid op d)) r0 =
      (True, RpcResponseMessage_of sid op d) \<and>
    RpcResponseMessageParse e (RpcResponseMessage_net_str e' (RpcResponseMessage_status st)) r0 =
      (True, RpcResponseMessage_status st)"
proof -
  have "Header_decode e (Message_net_str e' (Message_of d)) = m_header (Message_of d)"
    "drop sizeof_Header (Message_net_str e' (Message_of d)) = d"
    by (simp_all add: Message_net_str_wire Header_decode_wire_zero_rev)
  then show ?thesis
    using assms Message_of_wire [of e' d e] by (simp add: RpcRequestMessageParse_wire RpcResponseMessageParse_wire)
qed

theorem wire_roundtrip_witness:
  "RpcResponseMessageParse Big (RpcResponseMessage_net_str Little (RpcResponseMessage_status SYSTEM_ERROR))
      RpcResponseMessage_default = (True, RpcResponseMessage_status SYSTEM_ERROR)"
  using wire_roundtrip [of SYSTEM_ERROR Little "[7]" Big 1 1 RpcRequestMessage_default RpcResponseMessage_default]
  by simp

text \<open>
  A stream can be read in one way only: if two sequences of payloads (each shorter than 4 GiB) give
  the same bytes on the wire, on whatever hosts, they are the same sequence.
\<close>

theorem framing_unambiguous:
  assumes "\<forall>p \<in> set ps. length p < 2 ^ 32" "\<forall>q \<in> set qs. length q < 2 ^ 32"
    and "concat (map (\<lambda>p. Message_net_str e (Message_of p)) ps) =
      concat (map (\<lambda>q. Message_net_str e' (Message_of q)) qs)"
  shows "ps = qs"
proof -
  have "frames e (\<lambda>_. True) (concat (map (\<lambda>p. Message_net_str e (Message_of p)) ps)) = (ps, [], True)"
    using assms(1) by (intro frames_encode_all) simp
  moreover have "frames e (\<lambda>_. True) (concat (map (\<lambda>q. Message_net_str e' (Message_of q)) qs)) = (qs, [], True)"
    using assms(2) by (intro frames_encode_all) simp
  ultimately show ?thesis by (simp add: assms(3))
qed

theorem framing_unambiguous_witness:
  "concat (map (\<lambda>p. Message_net_str Big (Message_of p)) [[1, 2], [3]]) =
      concat (map (\<lambda>q. Message_net_str Little (Message_of q)) [[1, 1 + 1], [2 + 1]]) \<and>
    [[1, 2], [3 :: u8]] = [[1, 1 + 1], [2 + 1]]"
proof -
  have "concat (map (\<lambda>p. Message_net_str Big (Message_of p)) [[1, 2], [3]]) =
      concat (map (\<lambda>q. Message_net_str Little (Message_of q)) [[1, 1 + 1], [2 + 1]])"
    using Message_of_wire [of Big _ Little] by simp
  with framing_unambiguous [OF _ _ this] show ?thesis by simp
qed

section \<open>The buffer\<close>

text \<open>
  C21.  The buffer is a first-in first-out queue of bytes: in any sequence of appends and consumes, the
  bytes taken out, followed by those still in the buffer, are the initial ones followed by all that was
  appended; nothing is lost, repeated or reordered.
\<close>

theorem buffer_fifo:
  "fst (queue_run (\<lambda>s b. snd (append_internal s b)) consume_fresh ops b) @
      buf_data (snd (queue_run (\<lambda>s b. snd (append_internal s b)) consume_fresh ops b)) =
    buf_data b @ concat (map queue_put ops)"
  by (rule buf.run_fifo)

text \<open>
  The raw copy out of the buffer stays inside both memories exactly when it has nothing to do, or the
  requested size is at most the size of the buffer and of the caller's block; then it has moved the first
  bytes of the buffer to the front of the block, kept the size of the block and the rest of its bytes.
\<close>

theorem consume_raw_safe_iff:
  "((\<forall>fault. consume_raw (Some blk) sz b \<noteq> Inl fault) \<longleftrightarrow>
      sz = 0 \<or> buf_data b = [] \<or> (unat sz \<le> length (buf_data b) \<and> unat sz \<le> length blk)) \<and>
    (\<forall>blk' b'. consume_raw (Some blk) sz b = Inr (True, Some blk', b') \<longrightarrow>
      blk' = take (unat sz) (buf_data b) @ drop (unat sz) blk \<and> length blk' = length blk \<and>
      buf_data b' = drop (unat sz) (buf_data b)) \<and>
    consume_raw None sz b = Inr (False, None, b)"
proof (intro conjI)
  show "(\<forall>fault. consume_raw (Some blk) sz b \<noteq> Inl fault) \<longleftrightarrow>
      sz = 0 \<or> buf_data b = [] \<or> (unat sz \<le> length (buf_data b) \<and> unat sz \<le> length blk)"
    by (auto simp: consume_raw_def not_less)
  show "\<forall>blk' b'. consume_raw (Some blk) sz b = Inr (True, Some blk', b') \<longrightarrow>
      blk' = take (unat sz) (buf_data b) @ drop (unat sz) blk \<and> length blk' = length blk \<and>
      buf_data b' = drop (unat sz) (buf_data b)"
    by (auto simp: consume_raw_def blit_def front_erase_data min_def split: if_splits)
  show "consume_raw None sz b = Inr (False, None, b)" by (simp add: consume_raw_def)
qed

theorem consume_raw_safe_iff_witness:
  "buf_data (snd (snd (case consume_raw (Some [0, 0, 0]) 2 \<lparr>buf_data = [5, 6, 7]\<rparr> of
      Inr res \<Rightarrow> res | Inl _ \<Rightarrow> (False, None, Buffer_new)))) = [7]"
  using consume_raw_safe_iff [of "[0, 0, 0]" 2 "\<lparr>buf_data = [5, 6, 7]\<rparr>"]
  by (simp add: consume_raw_def front_erase_def blit_def)

section \<open>Log lines\<close>

text \<open>
  The 64-byte arrays of the three header dumps are large enough for every header: the dump is the
  whole text, never cut off.
\<close>

lemma dumps_complete:
  "Header_dump h = ''mgc:'' @ show_hex (unat (h_magic h)) @ '', ver:'' @ show_hex (unat (h_version h)) @
      '', len:'' @ show_dec (unat (h_length h)) \<and>
    RpcRequestHeader_dump q = ''rpc_request_header mgc:'' @ show_hex (unat (rq_magic q)) @ '', ver:'' @
      show_hex (unat (rq_version q)) @ '', sid:'' @ show_hex (unat (rq_service_id q)) @ '', opd:'' @
      show_hex (unat (rq_opcode q)) @ '' '' \<and>
    RpcResponseHeader_dump r = ''rpc_response_header mgc:'' @ show_hex (unat (rs_magic r)) @ '', ver:'' @
      show_hex (unat (rs_version r)) @ '', sid:'' @ show_hex (unat (rs_service_id r)) @ '', opd:'' @
      show_hex (unat (rs_opcode r))"
  unfolding Header_dump_def RpcRequestHeader_dump_def RpcResponseHeader_dump_def snprintf_def
  using length_show_hex_u16 [of "h_magic h"] length_show_hex_u16 [of "h_version h"] length_show_dec_u32 [of "h_length h"]
    RpcRequestHeader_dump_length [of q] RpcResponseHeader_dump_length [of r]
  by (intro conjI take_all) simp_all

end
