(* ===== verification/ClientProperties.thy ===== *)
theory ClientProperties
  imports RpcClient Samples
begin

text \<open>
  Properties of the client library's calls that fail: which status the caller gets, what a refusal of the
  server looks like, and what the call timer does after its call.
\<close>

text \<open>
  C36.  How a refusal of the server reaches the application: the blocking call compares the ids of the
  response with its own, and a refusal carries zeros, so it reports a format error instead of the server's
  status unless its own ids are zero; the asynchronous call hands the status to the callback.  A response
  to some other service or operation is a format error for the blocking call.
\<close>

theorem refusal_reported:
  assumes "named_status st" "st \<noteq> RpcResponseStatus.OK" "sid' \<noteq> sid \<or> op' \<noteq> op"
  shows "check_response e sid op (RpcResponseMessage_net_str e' (RpcResponseMessage_status st)) respload =
      (if sid = 0 \<and> op = 0 then client_status st else RECV_FORMAT_ERROR, respload) \<and>
    async_recv_wrapper e True cb (RpcResponseMessage_net_str e' (RpcResponseMessage_status st)) u =
      cb (client_status st) (- 1) (- 1) [] u \<and>
    check_response e sid op (RpcResponseMessage_net_str e' (RpcResponseMessage_of sid' op' body)) respload =
      (RECV_FORMAT_ERROR, respload)"
  using check_response_status [OF assms(1,2)] async_recv_wrapper_status [OF assms(1,2)] assms(3)
    check_response_other_ids [of sid sid' op op'] by auto

theorem refusal_reported_witness:
  "check_response Big 1 2 (RpcResponseMessage_net_str Little (RpcResponseMessage_status RpcResponseStatus.INVALID_SERVICE)) [] =
      (RECV_FORMAT_ERROR, []) \<and>
    async_recv_wrapper Big True (\<lambda>st sid op body u. u @ [st])
        (RpcResponseMessage_net_str Little (RpcResponseMessage_status RpcResponseStatus.INVALID_SERVICE)) [] =
      [RpcClientStatus.INVALID_SERVICE]"
proof -
  have "client_status RpcResponseStatus.INVALID_SERVICE = RpcClientStatus.INVALID_SERVICE"
    by (simp add: client_status_def client_status_of_byte_def)
  then show ?thesis
    using refusal_reported [of RpcResponseStatus.INVALID_SERVICE 2 1 2 2 Big Little "[]" "\<lambda>st sid op body u. u @ [st]" "[]" "[]"]
    by simp
qed

text \<open>
  C37.  Calls that cannot be made.  Before the client is initialised both kinds of call report it and change
  nothing; so does an asynchronous call without a callback; a blocking call whose connect fails reports that and changes nothing; one whose
  request is over the size limit is not sent, gives the connection up, and leaves the caller's answer buffer
  alone.
\<close>

theorem failing_calls:
  assumes "\<not> rc_initialized rc" "conn_sync r = None" "rc_initialized rc2" "\<not> has_handler (rc_setting rc2)"
    and "\<not> client_accepts (client_setting r) (request_frame e sid op payload)"
  shows "client_call_RPC_sync e ec ok sid op payload respload timeout ws rs rc =
      Some (NETWORK_BEFORE_ERROR, respload, ws, rs, rc) \<and>
    client_call_RPC_async e cb ec ok sid op payload timeout rc u = (NETWORK_BEFORE_ERROR, rc, u) \<and>
    client_call_RPC_async e cb ec ok sid op payload timeout rc2 u = (NETWORK_BEFORE_ERROR, rc2, u) \<and>
    call_RPC_sync e (Some err) ok sid op payload respload timeout ws rs r =
      Some (NETWORK_CONNECT_ERROR, respload, ws, rs, r) \<and>
    (\<exists>r'. call_RPC_sync e None ok sid op payload respload timeout ws rs r =
        Some (if timeout = 0 \<and> was_timeout r then RPC_CALL_TIMEOUT else NETWORK_SEND_ERROR, respload, ws, rs, r') \<and>
      conn_sync r' = None)"
proof (intro conjI)
  show "\<exists>r'. call_RPC_sync e None ok sid op payload respload timeout ws rs r =
        Some (if timeout = 0 \<and> was_timeout r then RPC_CALL_TIMEOUT else NETWORK_SEND_ERROR, respload, ws, rs, r') \<and>
      conn_sync r' = None"
    using call_RPC_sync_too_big [OF _ assms(5), where connect_ec = None and ok = ok and respload = respload
        and timeout_sec = timeout and ws = ws and rs = rs] by blast
  show "call_RPC_sync e (Some err) ok sid op payload respload timeout ws rs r =
      Some (NETWORK_CONNECT_ERROR, respload, ws, rs, r)"
    by (rule call_RPC_sync_unconnected [OF assms(2)])
qed (use assms in \<open>simp_all add: client_call_RPC_sync_def client_call_RPC_async_def split: option.split\<close>)

definition small_client :: RpcClientImpl where
  "small_client = RpcClientImpl_new (RpcClientSetting_new\<lparr>cs_send_max_msg_size := 20\<rparr>)"

lemma small_client_refuses: "\<not> client_accepts (client_setting small_client) (request_frame e sid op [1, 2, 3, 4, 5])"
  by (simp add: small_client_def RpcClientImpl_new_def client_accepts_def RpcClientSetting_new_def request_frame_def
    sizeof_RpcRequestHeader_def u32_of_size_def)

theorem failing_calls_witness:
  "client_call_RPC_sync Big None True 1 2 [] [9] 0 [] [] RpcClient_new = Some (NETWORK_BEFORE_ERROR, [9], [], [], RpcClient_new)"
proof -
  have "\<not> rc_initialized RpcClient_new" "conn_sync small_client = None" "rc_initialized (RpcClient_new\<lparr>rc_initialized := True\<rparr>)"
    "\<not> has_handler (rc_setting (RpcClient_new\<lparr>rc_initialized := True\<rparr>))"
    by (simp_all add: RpcClient_new_def small_client_def RpcClientImpl_new_def RpcClientSetting_new_def)
  from failing_calls [OF this small_client_refuses [of Big 1 2], where cb = "\<lambda>st sid op body (u :: nat). u"]
  show ?thesis by (simp add: client_call_RPC_sync_def RpcClient_new_def)
qed

text \<open>
  C38.  The call timer outlives its call.  After a blocking call with a time limit that was answered, the
  timer is still pending; when it expires, it closes the healthy connection.  The next call, whatever it asks,
  then writes and reads nothing, fails and drops the connection: without a time limit of its own it reports a
  timeout, the one noted for the call before; with one, which resets that note, it reports a send error.
\<close>

theorem late_timer_breaks_next_call:
  assumes "call_ready r before" "conn_sync r = None \<longrightarrow> connect_ec = None"
    and "client_accepts (client_setting r) (request_frame e sid op payload)"
    and "sizeof_Header + sizeof_RpcRequestHeader + length payload < 2 ^ 32"
      "sizeof_Header + sizeof_RpcRequestHeader + length payload \<le> n * kFixedIoBufferSize"
    and "\<forall>ch \<in> set chunks. length ch \<le> kFixedIoBufferSize" "length before + length (concat chunks) < 2 ^ 32"
    and "frames e (client_header_ok (client_setting r)) (before @ concat chunks) =
        (RpcResponseMessage_net_str e' (RpcResponseMessage_of sid op body) # ps, rest, g)"
    and "0 < timeout"
  shows "\<exists>ws' rs' r1 r2 r3.
    call_RPC_sync e connect_ec ok sid op payload respload timeout (replicate n (False, None)) (good_reads chunks) r =
      Some (RpcClientStatus.OK, body, ws', rs', r1) \<and>
    io_rpc_timer r1 = Some r2 \<and>
    call_RPC_sync e ec2 ok2 sid2 op2 payload2 respload2 timeout2 ws2 rs2 r2 =
      Some (if timeout2 = 0 then RPC_CALL_TIMEOUT else NETWORK_SEND_ERROR, respload2, ws2, rs2, r3) \<and>
    conn_sync r3 = None"
proof -
  obtain k left r1 where one: "call_RPC_sync e connect_ec ok sid op payload respload timeout (replicate n (False, None))
        (good_reads chunks) r = Some (RpcClientStatus.OK, body, replicate k (False, None), good_reads left, r1)"
      "conn_sync r1 \<noteq> None" "rpc_call_timer r1 = Some [True]"
    using call_RPC_sync_answered [OF assms(1) _ assms(3-8), of connect_ec ok respload timeout] assms(2,9)
    by (auto simp: check_response_reply)
  then obtain c where c: "conn_sync r1 = Some c" by auto
  let ?r2 = "r1\<lparr>rpc_call_timer := Some [], was_timeout := True, conn_sync := Some (shutdown_and_close_socket c)\<rparr>"
  have "io_rpc_timer r1 = Some ?r2" by (rule io_rpc_timer_closes [OF one(3) c])
  moreover have "\<exists>r3. call_RPC_sync e ec2 ok2 sid2 op2 payload2 respload2 timeout2 ws2 rs2 ?r2 =
      Some (if timeout2 = 0 then RPC_CALL_TIMEOUT else NETWORK_SEND_ERROR, respload2, ws2, rs2, r3) \<and> conn_sync r3 = None"
    using call_RPC_sync_closed [of ?r2 "shutdown_and_close_socket c" e ec2 ok2 sid2 op2 payload2 respload2 timeout2 ws2 rs2]
    by (simp add: shutdown_and_close_socket_def)
  ultimately show ?thesis using one(1) by blast
qed

theorem late_timer_breaks_next_call_witness:
  "\<exists>chunks ws' rs' r1 r2 r3.
    call_RPC_sync Big None True 1 2 [7] [] 5 [(False, None)] (good_reads chunks) (RpcClientImpl_new RpcClientSetting_new) =
      Some (RpcClientStatus.OK, [9], ws', rs', r1) \<and>
    io_rpc_timer r1 = Some r2 \<and>
    call_RPC_sync Big None True 1 2 [8] [] 6 [(False, None)] [] r2 = Some (NETWORK_SEND_ERROR, [], [(False, None)], [], r3)"
proof -
  let ?r = "RpcClientImpl_new RpcClientSetting_new"
  let ?p = "RpcResponseMessage_net_str Little (RpcResponseMessage_of 1 2 [9])"
  let ?fr = "Message_net_str Little (Message_of ?p)"
  have fr: "frames Big (client_header_ok RpcClientSetting_new) (concat (map (\<lambda>p. Message_net_str Little (Message_of p)) [?p])) =
      ([?p], [], True)"
    by (rule frames_encode_all) (simp add: sizeof_RpcResponseHeader_def)
  have "call_ready ?r []" "client_setting ?r = RpcClientSetting_new"
    by (simp_all add: call_ready_def RpcClientImpl_new_def)
  then have "\<exists>ws' rs' r1 r2 r3.
      call_RPC_sync Big None True 1 2 [7] [] 5 (replicate 1 (False, None)) (good_reads [?fr]) ?r =
        Some (RpcClientStatus.OK, [9], ws', rs', r1) \<and> io_rpc_timer r1 = Some r2 \<and>
      call_RPC_sync Big None True 1 2 [8] [] 6 [(False, None)] [] r2 =
        Some (if (6 :: u32) = 0 then RPC_CALL_TIMEOUT else NETWORK_SEND_ERROR, [], [(False, None)], [], r3) \<and>
      conn_sync r3 = None"
    using fr by (intro late_timer_breaks_next_call [where before = "[]" and ps = "[]" and rest = "[]" and g = True and e' = Little])
      (simp_all add: request_frame_def sizeof_Header_def sizeof_RpcRequestHeader_def sizeof_RpcResponseHeader_def
        kFixedIoBufferSize_def)
  then show ?thesis by (intro exI [where x = "[?fr]"]) auto
qed

text \<open>
  C39.  The call timer may find no connection.  A blocking call with a time limit whose request is over the
  size limit drops the connection but leaves the timer pending; when it expires, its handler dereferences
  the null connection pointer.
\<close>

theorem stale_timer_null_dereference:
  assumes "conn_sync r = None \<longrightarrow> connect_ec = None" "0 < timeout"
    and "\<not> client_accepts (client_setting r) (request_frame e sid op payload)"
  shows "\<exists>r1. call_RPC_sync e connect_ec ok sid op payload respload timeout ws rs r =
      Some (NETWORK_SEND_ERROR, respload, ws, rs, r1) \<and> conn_sync r1 = None \<and> io_rpc_timer r1 = None"
proof -
  have t: "(timeout = 0) = False" "(0 < timeout) = True" using assms(2) by auto
  obtain r1 where "call_RPC_sync e connect_ec ok sid op payload respload timeout ws rs r =
        Some (NETWORK_SEND_ERROR, respload, ws, rs, r1)" "conn_sync r1 = None" "rpc_call_timer r1 = Some [True]"
    using call_RPC_sync_too_big [OF _ assms(3), where connect_ec = connect_ec and ok = ok and respload = respload
        and timeout_sec = timeout and ws = ws and rs = rs] assms(1) unfolding t by auto
  then show ?thesis using io_rpc_timer_null by blast
qed

theorem stale_timer_null_dereference_witness:
  "\<exists>r1. call_RPC_sync Big None True 1 2 [1, 2, 3, 4, 5] [] 3 [] [] small_client =
      Some (NETWORK_SEND_ERROR, [], [], [], r1) \<and> io_rpc_timer r1 = None"
proof -
  have "conn_sync small_client = None \<longrightarrow> None = (None :: error_code option)" "(0 :: u32) < 3" by simp_all
  from stale_timer_null_dereference [OF this small_client_refuses [of Big 1 2], of True "[]" "[]" "[]"]
  show ?thesis by blast
qed

end
