(* ===== verification/Process.thy ===== *)
theory Process
  imports Captain
begin

text \<open>
  The process around the server: \<^verbatim>\<open>main.cpp\<close> (options, start-up order, exit codes) and \<^verbatim>\<open>setup.cpp\<close> (signals,
  pid file, help and version text).  The options are those \<^verbatim>\<open>getopt\<close> returned, in order, with their arguments;
  what the operating system and the support library answer is a record.  C strings are lists without NUL;
  the array \<^verbatim>\<open>cfgFile\<close> is kept as its 4096 characters, and \<open>None\<close> is a write past its end or a read that
  finds no terminator.
\<close>

section \<open>The configuration file's name\<close>

definition PATH_MAX :: nat where
  "PATH_MAX = 4096"

definition NUL :: char where
  "NUL = CHR 0x00"

text \<open>\<^verbatim>\<open>strncpy\<close>, \<^verbatim>\<open>strcat\<close> and reading an array as a string, as the C standard describes them.\<close>

definition strncpy :: "string \<Rightarrow> string \<Rightarrow> nat \<Rightarrow> string option" where
  "strncpy dst src n =
     (if n > length dst then None else Some (take n (src @ replicate n NUL) @ drop n dst))"

definition cstr :: "string \<Rightarrow> string option" where
  "cstr buf = (if NUL \<in> set buf then Some (takeWhile (\<lambda>c. c \<noteq> NUL) buf) else None)"

definition strcat :: "string \<Rightarrow> string \<Rightarrow> string option" where
  "strcat dst src =
     (case cstr dst of
        None \<Rightarrow> None
      | Some s \<Rightarrow>
          if length s + length src + 1 > length dst then None
          else Some (s @ src @ [NUL] @ drop (length s + length src + 1) dst))"

definition cfgFile0 :: string where
  "cfgFile0 = replicate PATH_MAX NUL"

definition default_cfgFile :: "string \<Rightarrow> string option" where
  "default_cfgFile prog =
     (case strncpy cfgFile0 prog (length prog) of
        None \<Rightarrow> None
      | Some buf \<Rightarrow> strcat buf ''.conf'')"

text \<open>The texts; the version strings are written by the build.\<close>

definition release_line :: "string \<Rightarrow> string \<Rightarrow> string" where
  "release_line prog version =
     [CHR 0x0A] @ '' * THIS RELEASE OF '' @ prog @ '': ver '' @ version @ '' * '' @ [CHR 0x0A]"

definition usage :: "string \<Rightarrow> string \<Rightarrow> string" where
  "usage prog version =
     release_line prog version @ [CHR 0x0A] @
     [CHR 0x09] @ '' -c cfgFile  specify config file, or using default '' @ prog @ ''.conf. '' @ [CHR 0x0A] @
     [CHR 0x09] @ '' -d          daemonize service.'' @ [CHR 0x0A] @
     [CHR 0x09] @ '' -v          print version info.'' @ [CHR 0x0A] @ [CHR 0x0A]"

definition show_vcs_info :: "string \<Rightarrow> string \<Rightarrow> string list \<Rightarrow> string" where
  "show_vcs_info prog version build_strings =
     release_line prog version @ [CHR 0x0A] @
     concat (map (\<lambda>s. ''    '' @ s @ [CHR 0x0A]) build_strings) @ [CHR 0x0A]"

text \<open>
  The loop over the options.  \<open>Inl\<close>: the process exits with a status after writing a text to the console;
  otherwise the array and the daemon flag.
\<close>

fun parse_options :: "string \<Rightarrow> string \<Rightarrow> (char \<times> string) list \<Rightarrow> string \<times> bool \<Rightarrow> ((int \<times> string) + string \<times> bool) option" where
  "parse_options help_text version_text [] st = Some (Inr st)"
| "parse_options help_text version_text ((opt_g, optarg) # opts) (cfg, daemonize) =
     (if opt_g = CHR ''c'' then
        (case strncpy (replicate (length cfg) NUL) optarg PATH_MAX of
           None \<Rightarrow> None
         | Some cfg' \<Rightarrow> parse_options help_text version_text opts (cfg', daemonize))
      else if opt_g = CHR ''d'' then parse_options help_text version_text opts (cfg, True)
      else if opt_g = CHR ''v'' then Some (Inl (0, version_text))
      else Some (Inl (0, help_text)))"

section \<open>Signals and pid file\<close>

datatype signal = SIGPIPE | SIGUSR1 | SIGHUP | OtherSignal nat

datatype disposition = Default | Ignored | Callback

datatype signal_action = UpdateRuntimeSetting | CollectStatus | LogUnhandled

text \<open>\<open>None\<close>: the accessor's assertion fails, and the null pointer is dereferenced.\<close>

definition interrupted_callback :: "signal \<Rightarrow> Captain \<Rightarrow> signal_action option" where
  "interrupted_callback sig cap =
     (if sig = SIGHUP then (if setting_ptr cap then Some UpdateRuntimeSetting else None)
      else if sig = SIGUSR1 then (if status_ptr cap then Some CollectStatus else None)
      else Some LogUnhandled)"

definition init_signal_handle :: "(signal \<Rightarrow> disposition) \<Rightarrow> signal \<Rightarrow> disposition" where
  "init_signal_handle disp = disp(SIGPIPE := Ignored, SIGUSR1 := Callback, SIGHUP := Callback)"

text \<open>
  The pid file: the return value and, when it could be opened, its name and contents.  \<^verbatim>\<open>fwrite\<close> writes the
  characters before the terminator.
\<close>

definition create_process_pid :: "string \<Rightarrow> (string \<Rightarrow> bool) \<Rightarrow> int \<Rightarrow> int \<times> (string \<times> string) option" where
  "create_process_pid prog can_open pid =
     (let pid_file = snprintf PATH_MAX (''./'' @ prog @ ''.pid'')
      in if \<not> can_open pid_file then (- 1, None)
         else (0, Some (pid_file, snprintf 24 (show_int pid @ [CHR 0x0A]))))"

section \<open>main\<close>

record 'q os_answers =
  os_prog :: string
  os_version :: string
  os_build :: "string list"
  os_ssl_ok :: bool
  os_daemon :: int
  os_can_open :: "string \<Rightarrow> bool"
  os_pid :: int
  os_world :: "string \<Rightarrow> 'q world_answers"

record 'q process =
  pr_cfg :: string
  pr_console :: string
  pr_daemon :: bool
  pr_pid_file :: "(string \<times> string) option"
  pr_signals :: "signal \<Rightarrow> disposition"
  pr_captain :: Captain
  pr_dispatcher :: "'q Dispatcher"

text \<open>
  The outcome of \<^verbatim>\<open>main\<close>: it exits before it serves, with a status and what it wrote to the console, it reaches the end of \<^verbatim>\<open>service_joinall\<close> and returns 0, or its
  behaviour is undefined (or an exception escapes).
\<close>

datatype 'q main_outcome = Exits int string | Served "'q process" | Undefined

text \<open>
  Once options and environment are in order, \<^verbatim>\<open>main\<close> is a sequence of statements on the process:
  the pid file, the signal handlers, the server's initialisation.  A step either ends the program (\<open>Inl\<close>) or
  leaves the process for the next one.  \<open>run_steps\<close> also gives the moments in between, the states in which a
  signal can find the process.
\<close>

type_synonym 'q main_step = "'q process \<Rightarrow> 'q main_outcome + 'q process"

definition process_at_start :: "string \<Rightarrow> bool \<Rightarrow> string \<Rightarrow> 'q process" where
  "process_at_start file daemonize console =
     \<lparr>pr_cfg = file, pr_console = console, pr_daemon = daemonize, pr_pid_file = None, pr_signals = (\<lambda>_. Default),
      pr_captain = Captain_new, pr_dispatcher = Dispatcher_new\<rparr>"

definition step_pid_file :: "'q os_answers \<Rightarrow> 'q main_step" where
  "step_pid_file os pr =
     Inr (pr\<lparr>pr_pid_file := snd (create_process_pid (os_prog os) (os_can_open os) (os_pid os))\<rparr>)"

definition step_signals :: "'q main_step" where
  "step_signals pr = Inr (pr\<lparr>pr_signals := init_signal_handle (pr_signals pr)\<rparr>)"

definition step_captain :: "'q os_answers \<Rightarrow> 'q main_step" where
  "step_captain os pr =
     (case Captain_init (os_world os (pr_cfg pr)) (pr_captain pr) (pr_dispatcher pr) of
        None \<Rightarrow> Inl Undefined
      | Some (ok, cap, d) \<Rightarrow>
          if \<not> ok then Inl (Exits 1 (pr_console pr))
          else Inr (pr\<lparr>pr_captain := cap, pr_dispatcher := d\<rparr>))"

definition main_steps :: "'q os_answers \<Rightarrow> 'q main_step list" where
  "main_steps os = [step_pid_file os, step_signals, step_captain os]"

fun run_steps :: "'q main_step list \<Rightarrow> 'q process \<Rightarrow> 'q process list \<times> ('q main_outcome + 'q process)" where
  "run_steps [] pr = ([pr], Inr pr)"
| "run_steps (st # sts) pr =
     (case st pr of
        Inl outcome \<Rightarrow> ([pr], Inl outcome)
      | Inr pr' \<Rightarrow> (let (moments, res) = run_steps sts pr' in (pr # moments, res)))"

text \<open>The moments of the start-up, and the outcome: after the steps \<^verbatim>\<open>main\<close> waits in \<^verbatim>\<open>service_joinall\<close>.\<close>

definition main_serve_run ::
  "'q os_answers \<Rightarrow> string \<Rightarrow> bool \<Rightarrow> string \<Rightarrow> 'q process list \<times> 'q main_outcome" where
  "main_serve_run os file daemonize console =
     (let (moments, res) = run_steps (main_steps os) (process_at_start file daemonize console)
      in (moments,
          case res of
            Inl outcome \<Rightarrow> outcome
          | Inr pr \<Rightarrow>
              (case service_joinall (pr_captain pr) of
                 None \<Rightarrow> Undefined
               | Some (_, cap') \<Rightarrow> Served (pr\<lparr>pr_captain := cap'\<rparr>))))"

definition main_serve :: "'q os_answers \<Rightarrow> string \<Rightarrow> bool \<Rightarrow> string \<Rightarrow> 'q main_outcome" where
  "main_serve os file daemonize console = snd (main_serve_run os file daemonize console)"

definition banner :: "'q os_answers \<Rightarrow> string \<Rightarrow> string" where
  "banner os file =
     ''current system cfg file ['' @ file @ ''].'' @ [CHR 0x0A] @ show_vcs_info (os_prog os) (os_version os) (os_build os)"

text \<open>\<^verbatim>\<open>main\<close> with the moments of its start-up, of which there are none when it exits before.\<close>

definition main_run :: "'q os_answers \<Rightarrow> (char \<times> string) list \<Rightarrow> 'q process list \<times> 'q main_outcome" where
  "main_run os opts =
     (case default_cfgFile (os_prog os) of
        None \<Rightarrow> ([], Undefined)
      | Some cfg \<Rightarrow>
          (case parse_options (usage (os_prog os) (os_version os)) (show_vcs_info (os_prog os) (os_version os) (os_build os))
                  opts (cfg, False) of
             None \<Rightarrow> ([], Undefined)
           | Some (Inl (status, console)) \<Rightarrow> ([], Exits status console)
           | Some (Inr (cfg', daemonize)) \<Rightarrow>
               (case cstr cfg' of
                  None \<Rightarrow> ([], Undefined)
                | Some file \<Rightarrow>
                    if \<not> os_ssl_ok os then ([], Exits 1 (banner os file))
                    else if daemonize \<and> os_daemon os \<noteq> 0 then ([], Exits 1 (banner os file))
                    else main_serve_run os file daemonize (banner os file))))"

definition main :: "'q os_answers \<Rightarrow> (char \<times> string) list \<Rightarrow> 'q main_outcome" where
  "main os opts = snd (main_run os opts)"

section \<open>The name is the argument, as long as it fits\<close>

definition c_string :: "string \<Rightarrow> bool" where
  "c_string s \<longleftrightarrow> NUL \<notin> set s"

lemma c_stringD: "c_string s \<Longrightarrow> c \<in> set s \<Longrightarrow> c \<noteq> NUL"
  by (auto simp: c_string_def)

lemma cstr_terminated:
  assumes "c_string s"
  shows "cstr (s @ NUL # rest) = Some s"
proof -
  have "takeWhile (\<lambda>c. c \<noteq> NUL) (s @ NUL # rest) = s @ takeWhile (\<lambda>c. c \<noteq> NUL) (NUL # rest)"
    using c_stringD [OF assms] by (intro takeWhile_append2)
  then show ?thesis by (simp add: cstr_def)
qed

lemma cstr_None: "c_string s \<Longrightarrow> cstr s = None"
  by (simp add: cstr_def c_string_def)

lemma strncpy_option:
  "length cfg = PATH_MAX \<Longrightarrow> strncpy (replicate (length cfg) NUL) s PATH_MAX = Some (take PATH_MAX (s @ replicate PATH_MAX NUL))"
  by (simp add: strncpy_def)

text \<open>An argument that fits is found again; one that fills the array leaves it without a terminator.\<close>

lemma strncpy_fits:
  assumes "c_string s" "length s < PATH_MAX"
  shows "cstr (take PATH_MAX (s @ replicate PATH_MAX NUL)) = Some s"
proof -
  obtain n where "PATH_MAX - length s = Suc n" using assms(2) by (metis Suc_diff_Suc)
  then have "take PATH_MAX (s @ replicate PATH_MAX NUL) = s @ NUL # replicate n NUL"
    using assms(2) by (simp add: take_replicate min_absorb1)
  then show ?thesis using cstr_terminated [OF assms(1)] by simp
qed

lemma strncpy_too_long:
  assumes "c_string s" "PATH_MAX \<le> length s"
  shows "cstr (take PATH_MAX (s @ replicate PATH_MAX NUL)) = None"
  using assms by (intro cstr_None) (auto simp: c_string_def dest: in_set_takeD)

lemma default_cfgFile_cases:
  assumes "c_string prog"
  shows "length prog + 6 \<le> PATH_MAX \<Longrightarrow> \<exists>buf. default_cfgFile prog = Some buf \<and> length buf = PATH_MAX \<and>
      cstr buf = Some (prog @ ''.conf'')"
    and "\<not> length prog + 6 \<le> PATH_MAX \<Longrightarrow> default_cfgFile prog = None"
proof -
  have conf: "c_string (prog @ ''.conf'')" using assms by (simp add: c_string_def NUL_def)
  have buf: "cstr (prog @ replicate n NUL) = (if n = 0 then None else Some prog)" for n
    using cstr_None [OF assms] cstr_terminated [OF assms] by (cases n) simp_all
  show "\<exists>buf. default_cfgFile prog = Some buf \<and> length buf = PATH_MAX \<and> cstr buf = Some (prog @ ''.conf'')"
    if "length prog + 6 \<le> PATH_MAX"
    using that buf [of "PATH_MAX - length prog"] cstr_terminated [OF conf]
    by (simp add: default_cfgFile_def strncpy_def strcat_def cfgFile0_def)
  show "default_cfgFile prog = None" if "\<not> length prog + 6 \<le> PATH_MAX"
    using that buf [of "PATH_MAX - length prog"]
    by (simp add: default_cfgFile_def strncpy_def strcat_def cfgFile0_def)
qed

text \<open>The file the options name: the argument of the last \<open>-c\<close>.\<close>

definition chosen_file :: "string \<Rightarrow> (char \<times> string) list \<Rightarrow> string" where
  "chosen_file dflt opts =
     (case filter (\<lambda>(opt, _). opt = CHR ''c'') opts of [] \<Rightarrow> dflt | xs \<Rightarrow> snd (last xs))"

lemma chosen_file_Cons:
  "chosen_file dflt ((opt, arg) # opts) = chosen_file (if opt = CHR ''c'' then arg else dflt) opts"
  by (simp add: chosen_file_def split: list.split)

text \<open>The array after the options holds that name if it fits, and otherwise has no terminator.\<close>

definition holds_name :: "string \<Rightarrow> string \<Rightarrow> bool" where
  "holds_name name buf \<longleftrightarrow> length buf = PATH_MAX \<and> cstr buf = (if length name < PATH_MAX then Some name else None)"

lemma parse_options_run:
  assumes "\<forall>(opt, arg) \<in> set opts. (opt = CHR ''c'' \<or> opt = CHR ''d'') \<and> c_string arg" "holds_name dflt cfg"
  shows "\<exists>buf. parse_options h v opts (cfg, dm) = Some (Inr (buf, dm \<or> (\<exists>arg. (CHR ''d'', arg) \<in> set opts))) \<and>
    holds_name (chosen_file dflt opts) buf"
  using assms
proof (induction opts arbitrary: cfg dflt dm)
  case Nil
  then show ?case by (simp add: chosen_file_def)
next
  case (Cons o1 opts)
  obtain opt arg where o1: "o1 = (opt, arg)" by (cases o1)
  have rest: "\<forall>(opt, arg) \<in> set opts. (opt = CHR ''c'' \<or> opt = CHR ''d'') \<and> c_string arg"
    using Cons.prems(1) by simp
  show ?case
  proof (cases "opt = CHR ''c''")
    case True
    let ?buf = "take PATH_MAX (arg @ replicate PATH_MAX NUL)"
    have "holds_name arg ?buf"
      using Cons.prems(1) strncpy_fits [of arg] strncpy_too_long [of arg]
      by (simp add: o1 holds_name_def)
    moreover have "strncpy (replicate (length cfg) NUL) arg PATH_MAX = Some ?buf"
      using Cons.prems(2) by (intro strncpy_option) (simp add: holds_name_def)
    then have "parse_options h v (o1 # opts) (cfg, dm) = parse_options h v opts (?buf, dm)"
      by (simp only: o1 parse_options.simps True option.case simp_thms if_True)
    ultimately show ?thesis
      using Cons.IH [OF rest, of arg ?buf dm] True by (simp add: o1 chosen_file_Cons)
  next
    case False
    then have "opt = CHR ''d''" using Cons.prems(1) by (simp add: o1)
    then show ?thesis
      using Cons.IH [OF rest Cons.prems(2), of True] by (auto simp: o1 chosen_file_Cons)
  qed
qed

lemma parse_options_exit:
  assumes "parse_options h v opts st = Some (Inl (status, console))"
  shows "status = 0 \<and> (console = h \<or> console = v) \<and> (\<exists>(opt, arg) \<in> set opts. opt \<noteq> CHR ''c'' \<and> opt \<noteq> CHR ''d'')"
  using assms by (induction h v opts st rule: parse_options.induct) (auto split: if_splits option.splits)

lemma service_joinall_ret: "service_joinall cap = Some (b, cap') \<Longrightarrow> b"
  by (auto simp: service_joinall_def split: option.splits)

lemma main_serve_served:
  assumes "main_serve os file dm console = Served pr"
  shows "pr_cfg pr = file \<and> (\<exists>cap. Captain_init (os_world os file) Captain_new Dispatcher_new = Some (True, cap, pr_dispatcher pr) \<and>
      service_joinall cap = Some (True, pr_captain pr)) \<and>
    pr_signals pr SIGHUP = Callback \<and> pr_signals pr SIGUSR1 = Callback \<and> pr_signals pr SIGPIPE = Ignored"
  using assms service_joinall_ret
  by (fastforce simp: main_serve_def main_serve_run_def main_steps_def step_pid_file_def step_signals_def step_captain_def
    process_at_start_def init_signal_handle_def case_prod_beta Let_def split: option.splits if_splits)

lemma main_run_moments:
  "fst (main_run os opts) \<noteq> [] \<Longrightarrow> \<exists>file dm. main_run os opts = main_serve_run os file dm (banner os file)"
  unfolding main_run_def by (auto split: option.splits sum.splits if_splits)

lemma main_ServedD: "main os opts = Served pr \<Longrightarrow> \<exists>file dm console. main_serve os file dm console = Served pr"
  unfolding main_def main_run_def main_serve_def by (auto split: option.splits sum.splits if_splits) blast+

text \<open>The moments: before the pid file, after it, with the signal handlers, and initialised if that succeeds.\<close>

lemma main_serve_moments:
  obtains pid_file where "fst (main_serve_run os file dm console) =
    (let pr0 = process_at_start file dm console; pr1 = pr0\<lparr>pr_pid_file := pid_file\<rparr>;
         pr2 = pr1\<lparr>pr_signals := init_signal_handle (\<lambda>_. Default)\<rparr>
     in [pr0, pr1, pr2] @
       (case Captain_init (os_world os file) Captain_new Dispatcher_new of
          Some (True, cap, d) \<Rightarrow> [pr2\<lparr>pr_captain := cap, pr_dispatcher := d\<rparr>] | _ \<Rightarrow> []))"
  by (rule that [of "snd (create_process_pid (os_prog os) (os_can_open os) (os_pid os))"])
    (simp add: main_serve_run_def main_steps_def step_pid_file_def step_signals_def step_captain_def process_at_start_def
      case_prod_beta Let_def split: option.split bool.split)

text \<open>The pid file holds the whole number and the newline.\<close>

lemma length_show_dec_32: "n < 2 ^ 32 \<Longrightarrow> length (show_dec n) \<le> 10"
  using length_show_dec_u32 [of "word_of_nat n"] by (simp only: unat_of_nat len_of_numeral_defs mod_less) simp

lemma length_show_int_32:
  assumes "- (2 ^ 31) \<le> i" "i < 2 ^ 31"
  shows "length (show_int i) \<le> 11"
proof -
  have "nat i < 2 ^ 32" "nat (- i) < 2 ^ 32" using assms by auto
  from this [THEN length_show_dec_32] show ?thesis by (simp add: show_int_def)
qed

lemma create_process_pid_complete:
  assumes "- (2 ^ 31) \<le> pid" "pid < 2 ^ 31" "length prog < 4000" "can_open (''./'' @ prog @ ''.pid'')"
  shows "create_process_pid prog can_open pid = (0, Some (''./'' @ prog @ ''.pid'', show_int pid @ [CHR 0x0A]))"
proof -
  have "length (show_int pid @ [CHR 0x0A]) \<le> 24 - 1" using length_show_int_32 [OF assms(1,2)] by simp
  then have "snprintf 24 (show_int pid @ [CHR 0x0A]) = show_int pid @ [CHR 0x0A]"
    unfolding snprintf_def by (rule take_all)
  moreover have "length (''./'' @ prog @ ''.pid'') \<le> PATH_MAX - 1" using assms(3) by (simp add: PATH_MAX_def)
  then have "snprintf PATH_MAX (''./'' @ prog @ ''.pid'') = ''./'' @ prog @ ''.pid''"
    unfolding snprintf_def by (rule take_all)
  ultimately show ?thesis using assms(4) by (simp only: create_process_pid_def Let_def simp_thms if_False)
qed

text \<open>The pointers the signal handler uses are set by the time \<^verbatim>\<open>init\<close> succeeds.\<close>

lemma Captain_init_ptrs:
  assumes "Captain_init w cap d = Some (True, cap', d')"
  shows "setting_ptr cap' \<and> status_ptr cap'"
  using assms
  by (simp add: Captain_init_def Let_def case_prod_beta split: if_splits option.splits) auto

end
