(* ===== verification/ProcessProperties.thy ===== *)
theory ProcessProperties
  imports ServiceProperties Process
begin

text \<open>
  Properties of the process around the server: which configuration file it reads, how it ends, and when its
  signal handler may run.
\<close>

definition demo_os :: "nat os_answers" where
  "demo_os = \<lparr>os_prog = ''tzrpc'', os_version = ''2.0'', os_build = [], os_ssl_ok = True, os_daemon = 0, os_can_open = (\<lambda>f. True), os_pid = 4711,
     os_world = (\<lambda>file. demo_world True)\<rparr>"

lemma main_run_named:
  assumes "c_string (os_prog os)" "length (os_prog os) + 6 \<le> PATH_MAX"
    and "\<forall>(opt, arg) \<in> set opts. (opt = CHR ''c'' \<or> opt = CHR ''d'') \<and> c_string arg"
    and "name = chosen_file (os_prog os @ ''.conf'') opts" "background \<longleftrightarrow> (\<exists>arg. (CHR ''d'', arg) \<in> set opts)"
  shows "main_run os opts =
    (if PATH_MAX \<le> length name then ([], Undefined)
     else if \<not> os_ssl_ok os \<or> background \<and> os_daemon os \<noteq> 0 then ([], Exits 1 (banner os name))
     else main_serve_run os name background (banner os name))"
proof -
  obtain buf where buf: "default_cfgFile (os_prog os) = Some buf" "holds_name (os_prog os @ ''.conf'') buf"
    using default_cfgFile_cases(1) [OF assms(1,2)] assms(2) by (auto simp: holds_name_def)
  obtain buf' where "parse_options (usage (os_prog os) (os_version os))
      (show_vcs_info (os_prog os) (os_version os) (os_build os)) opts (buf, False) = Some (Inr (buf', background))" "holds_name name buf'"
    using parse_options_run [OF assms(3) buf(2), where dm = False and h = "usage (os_prog os) (os_version os)"
      and v = "show_vcs_info (os_prog os) (os_version os) (os_build os)"] assms(4,5) by auto
  then show ?thesis using buf(1) by (auto simp: main_run_def holds_name_def not_less)
qed

text \<open>
  C31.  The configuration file is the argument of the last \<open>-c\<close>, or the program's name with \<open>.conf\<close>: when
  there are no options but \<open>-c\<close> and \<open>-d\<close>, and that name has fewer than 4096 characters, the process serves
  with it or, when the environment fails, exits with 1; a longer name fills the array without a terminator,
  and reading it runs past its end.
\<close>

theorem config_file_named:
  assumes "c_string (os_prog os)" "length (os_prog os) + 6 \<le> PATH_MAX"
    and "\<forall>(opt, arg) \<in> set opts. (opt = CHR ''c'' \<or> opt = CHR ''d'') \<and> c_string arg"
    and "name = chosen_file (os_prog os @ ''.conf'') opts" "background \<longleftrightarrow> (\<exists>arg. (CHR ''d'', arg) \<in> set opts)"
  shows "main os opts =
    (if PATH_MAX \<le> length name then Undefined
     else if \<not> os_ssl_ok os \<or> background \<and> os_daemon os \<noteq> 0 then Exits 1 (banner os name)
     else main_serve os name background (banner os name))"
  unfolding main_def main_run_named [OF assms] by (simp add: main_serve_def)

theorem config_file_named_witness:
  "main demo_os [(CHR ''c'', ''a.conf''), (CHR ''d'', ''''), (CHR ''c'', ''b.conf'')] = main_serve demo_os ''b.conf'' True (banner demo_os ''b.conf'')"
  using config_file_named [of demo_os "[(CHR ''c'', ''a.conf''), (CHR ''d'', ''''), (CHR ''c'', ''b.conf'')]", OF _ _ _ refl refl]
  by (simp add: demo_os_def c_string_def NUL_def PATH_MAX_def chosen_file_def)



end
