(* ===== verification/Spec2Isabelle.thy ===== *)
theory Spec2Isabelle
  imports Samples Session SystemProperties ConversationProperties WireProperties ConnSafety ServiceProperties ClientProperties ProcessProperties
begin

text \<open>
  tzrpc: a remote procedure call server and its client library, in C++ over boost.asio.

  \<^bold>\<open>The program.\<close>  A server process (\<^verbatim>\<open>Captain\<close>) reads its settings, opens a listening socket
  (\<^verbatim>\<open>NetServer\<close>, \<^verbatim>\<open>NetConf\<close>) and registers services with the \<^verbatim>\<open>Dispatcher\<close>.  Every accepted connection
  (\<^verbatim>\<open>Network/TcpConnAsync\<close>) cuts its byte stream into frames (\<^verbatim>\<open>Message\<close>, \<^verbatim>\<open>Buffer\<close>), wraps each payload as an
  \<^verbatim>\<open>RpcInstance\<close> and gives it to the dispatcher, which checks it and puts it into the queue of the service's
  \<^verbatim>\<open>Executor\<close>.  A worker thread of the executor takes it out and runs the service (\<^verbatim>\<open>XtraTaskService\<close>), which
  answers on the connection the request came from.  The client library (\<^verbatim>\<open>RpcClient\<close>, \<^verbatim>\<open>RpcClientImpl\<close>) sends a
  request over a blocking connection (\<^verbatim>\<open>Client/TcpConnSync\<close>) or an asynchronous one
  (\<^verbatim>\<open>Client/TcpConnAsync\<close>) and checks the response.

  \<^bold>\<open>Theories and sources\<close> (paths under \<^verbatim>\<open>src/source\<close>; a definition has the name of the C++ method or type it
  models, qualified by a word where two classes share a name; the trailing underscore of members is dropped).

  \<^item> \<^verbatim>\<open>Prelude\<close>: byte order, packed memory images, the fixed block, list and word lemmas.
  \<^item> \<^verbatim>\<open>Message\<close>, \<^verbatim>\<open>Buffer\<close>, \<^verbatim>\<open>RpcRequestMessage\<close>, \<^verbatim>\<open>RpcResponseMessage\<close>: the files of those names in \<^verbatim>\<open>Core\<close> and \<^verbatim>\<open>RPC\<close>.
  \<^item> \<^verbatim>\<open>Framing\<close>: the specification of a receiver, \<open>frames\<close>, and the locale \<open>stream_reader\<close>.
    \<^verbatim>\<open>Sender\<close>: the specification of a sender, locales \<open>message_sender\<close> and \<open>live_sender\<close>.
  \<^item> \<^verbatim>\<open>NetConn\<close>, \<^verbatim>\<open>NetConf\<close>, \<^verbatim>\<open>NetServer\<close>: the files of those names in \<^verbatim>\<open>Network\<close>.  \<^verbatim>\<open>TcpConnWrite\<close>, \<^verbatim>\<open>TcpConnRead\<close>: the two halves
    of \<^verbatim>\<open>Network/TcpConnAsync\<close>; \<^verbatim>\<open>TcpConnRace\<close>: its sending half at the granularity of its lock.
  \<^item> \<^verbatim>\<open>RpcInstance\<close>, \<^verbatim>\<open>Executor\<close>, \<^verbatim>\<open>Dispatcher\<close> (with \<^verbatim>\<open>StdMap\<close>): the files in \<^verbatim>\<open>RPC\<close>.  \<^verbatim>\<open>XtraTaskService\<close>: \<^verbatim>\<open>RPC/Service.h\<close> and
    \<^verbatim>\<open>Protocol/ServiceImpl\<close>.  \<^verbatim>\<open>Pool\<close>: the executor's worker threads together (\<^verbatim>\<open>RPC/Executor.cpp\<close>).
    \<^verbatim>\<open>Captain\<close>: \<^verbatim>\<open>Captain.h\<close>, \<^verbatim>\<open>Captain.cpp\<close>.  \<^verbatim>\<open>Process\<close>: \<^verbatim>\<open>src/main.cpp\<close>, \<^verbatim>\<open>src/setup.cpp\<close>.
  \<^item> \<^verbatim>\<open>ClientSetting\<close>, \<^verbatim>\<open>TcpConnSync\<close>, \<^verbatim>\<open>ClientTcpConnAsync\<close>, \<^verbatim>\<open>RpcClientImpl\<close>, \<^verbatim>\<open>RpcClient\<close>: the files in \<^verbatim>\<open>Client\<close>.
  \<^item> \<^verbatim>\<open>ConnHistory\<close>: a server connection against the history of what it received, handed over and owes.  \<^verbatim>\<open>System\<close>:
    all of the server at once, \<open>sys_run\<close>, with the invariant \<open>sys_inv\<close> of its runs.
  \<^item> \<^verbatim>\<open>AsyncClient\<close>: the asynchronous client at work, \<open>cli_run\<close>, with its invariant \<open>cli_inv\<close>; \<^verbatim>\<open>AsyncFailure\<close>: after a
    failed write.  \<^verbatim>\<open>Conversation\<close>: such a client and the whole server together, with \<open>call_answer\<close>, what a call is answered;
    \<^verbatim>\<open>Completion\<close>: how a conversation goes on to its end.
  \<^item> \<^verbatim>\<open>EndToEnd\<close>, \<^verbatim>\<open>Session\<close>: client, wire and server composed, for one call and for a sequence of calls.  \<^verbatim>\<open>Samples\<close>: a small concrete system for the examples.
  \<^item> \<^verbatim>\<open>WireProperties\<close>, \<^verbatim>\<open>ConnSafety\<close>, \<^verbatim>\<open>ServerProperties\<close>, \<^verbatim>\<open>ServiceProperties\<close>, \<^verbatim>\<open>ClientProperties\<close>,
    \<^verbatim>\<open>ProcessProperties\<close>: the properties of single components; \<^verbatim>\<open>SystemProperties\<close>: those of the whole server;
    \<^verbatim>\<open>ConversationProperties\<close>: those of an asynchronous client and the server; this theory has the others that span several components.

  \<^bold>\<open>State and effects.\<close>  An object is a record that is passed along; singletons and the strong references
  of asio's handlers become arguments and results.  A connection's socket keeps what the program can observe
  of it: the outstanding reads and writes, the bytes it was told to transmit, whether it is open.  Completion
  of an operation is a function of the environment (\<open>io_read_ok\<close>, \<open>io_write_ok\<close>, \<open>io_timer\<close>, ...;
  \<open>io_late_timer\<close> is an expiry that was queued before its timer was revoked or armed again), and \<open>conn_step\<close>
  and \<open>net_step\<close> let the environment do any of them at any time, one handler after the other as the strand
  does; \<open>pool_run\<close> lets any number of workers take turns, and \<open>run_schedule\<close> lets them interleave inside
  \<^verbatim>\<open>async_send_message\<close>.  \<open>sys_run\<close> has the accept loop, every connection, the dispatcher and every worker move one
  at a time, a handler or a call of a service (with its \<^verbatim>\<open>async_send_message\<close>, although workers run outside the
  strand) being one step, and records what was received, handed over and served.  \<open>cli_run\<close> does the same for an
  asynchronous client, from the making of its connection to the first call that fails (calls that fail are the
  subject of C37 to C40); the two runs are joined by what the network has brought from one side to the other.
  \<open>main_run\<close> gives the outcome of the process with the moments of its start-up, at which signals can arrive.

  Exceptions, assertions and faults are values: \<open>None\<close>, an \<open>Inl\<close>, or the field \<open>sane\<close> (\<open>ex_sane\<close> of an executor)
  turning false.  The last is for \<^verbatim>\<open>SAFE_ASSERT\<close>, a macro of the support library; whether it stops the process is not
  decided in this repository, so the model notes the failure, goes on, and shows what the code behind it does.
  Machine integers are words.

  \<^bold>\<open>What the lemmas show.\<close>  The whole server, from start-up on and with all its connections and workers
  interleaved, serves every delivered request exactly once and sends every peer what it is owed (C1), and it can
  always catch up with its queues and send what is left to send (C2).  An asynchronous client of that server gets
  for each of its calls at most one callback, with the answer specified for that call (C3), and client and server can
  always go on until every call has its callback (C4).  The reading state machines of the server and of the client's
  two connections implement \<open>frames\<close>, whatever the division of the stream into reads (C5, C6, C9 to C11); the writing
  ones hand over exactly the frames of the accepted messages, in order (C7); requests and responses of blocking
  calls meet across the whole path, call after call (C8); dispatcher, validation, service and workers do
  what their specifications say (C12 to C16).  Over every interleaving the connection is free of faults (C17),
  the server keeps its counters (C18), and what is closed stays closed (C19).  The wire format, the buffer, the
  settings and the token bucket follow (C20 to C23).  The rest states what the code does at its limits and after
  errors, run-time updates, timeouts and signals, including behaviour that its authors cannot have meant (C24 to
  C40).

  \<^bold>\<open>Bounds.\<close>  Recursion over a byte stream ends because every round consumes a header, recursion over a script
  because it consumes the script: \<open>read_loop\<close> and \<open>write_loop\<close> return \<open>None\<close> for a script too short, which is a
  call that blocks for ever, and the theorems say which scripts are long enough (a write needs one step per
  2048-byte block).  \<open>feed_spin n\<close> runs \<open>n\<close> aborted handlers, for every \<open>n\<close>.  Stream and payload lengths are
  bounded by \<open>2 ^ 32\<close> where the code keeps them in 32 bits.

  \<^bold>\<open>Parameters.\<close>  Code outside the repository is an argument: the queue (\<open>EQueue\<close>, with hypothesis
  \<open>fifo_queue\<close>: push, pop and size are those of a queue), thread pool and timers (whether they could be
  created), \<^verbatim>\<open>getopt\<close>'s result and the operating system's answers, libconfig lookups, \<^verbatim>\<open>split\<close> and \<^verbatim>\<open>trim\<close>, protobuf (un)marshalling, address parsing, results of connect,
  read and write.  Of asio the runs rely on two things: a completed read brings at least the bytes asked for and at
  most a block (\<open>read_possible\<close>), and \<^verbatim>\<open>operation_aborted\<close> is reported only after a cancel or a close
  (\<open>error_possible\<close>).

  \<^bold>\<open>Not modelled.\<close>  The unit tests and load generators, the CMake files, the contents of log lines other than the three header dumps, \<^verbatim>\<open>service_terminate\<close>
  (sleeps and exits), \<^verbatim>\<open>RpcInstance::return_biz_error\<close> (declared, without a body), data races on single words, and
  the classes that protobuf generates.
\<close>

section \<open>The server receives\<close>

text \<open>
  C5.  Whatever complete frames a client of any byte order writes, and however the network cuts that
  stream into chunks, a new server connection ends up with exactly the well-formed requests for
  registered services in those services' queues, in order, each decoded; with exactly one refusal
  frame queued or sent for each other payload, in order, if its size is allowed; and it goes on
  working.
\<close>

theorem server_delivers_requests:
  fixes Q :: "'q EQueue"
  assumes "fifo_queue Q contents" "sk_reads sock = []" "sk_writes sock = []"
    and "\<forall>p \<in> set ps. length p < 2 ^ 32 \<and> header_ok cf (m_header (Message_of p))"
    and "concat chunks = concat (map (\<lambda>p. Message_net_str e' (Message_of p)) ps)"
    and "served_reads Q e cf i ok sock d chunks"
    and "s = served Q e cf i ok sock d chunks"
  shows "(\<forall>sid. queue_of contents (snd s) sid = queue_of contents d sid @
        map (queued_instance e i) (filter (\<lambda>p. route_of e p (service_ids d) = Enqueue sid) ps)) \<and>
    sent_bytes (fst s) @ send_backlog (fst s) = sk_sent sock @
      concat (map (\<lambda>p. refusal_bytes e cf (route_of e p (service_ids d))) ps) \<and>
    conn_stat (fst s) = kWorking"
proof -
  have fr: "frames e (header_ok cf) (concat chunks) = (ps, [], True)"
    unfolding assms(5) using assms(4) by (rule frames_encode_all)
  note run = served_frames [OF assms(2,3,6) fr, folded assms(7)]
  have "\<forall>p \<in> set ps. length p < 2 ^ 32" using assms(4) by blast
  note dl = srv_deliver_all [OF this assms(1), of e cf i "(d, sk_sent sock)"]
  show ?thesis
    using srv_world_proj [OF run(1)] dl(1) dl(2) srv_stat(1) [OF run(2)] by simp
qed

definition demo_request :: bytes where
  "demo_request = request_payload Little 1 2 [7]"

theorem server_delivers_requests_witness:
  "queue_of (\<lambda>q. q) (snd (served list_queue Big NetConf_default 3 True socket_connected demo_dispatcher
      [Message_net_str Little (Message_of demo_request)])) 1 = [queued_instance Big 3 demo_request]"
proof -
  let ?ch = "[Message_net_str Little (Message_of demo_request)]"
  have len: "length demo_request = 17"
    by (simp add: demo_request_def request_payload_def sizeof_RpcRequestHeader_def)
  have "served_reads list_queue Big NetConf_default 3 True socket_connected demo_dispatcher ?ch"
    by (rule served_reads_single) (simp_all add: len sizeof_Header_def)
  moreover have "route_of Big demo_request (service_ids demo_dispatcher) = Enqueue 1"
    unfolding demo_request_def by (rule request_payload_route) (simp_all add: demo_dispatcher_simps)
  ultimately show ?thesis
    using server_delivers_requests [OF list_queue_fifo, of socket_connected "[demo_request]" NetConf_default ?ch Little
        Big 3 True demo_dispatcher _] len demo_dispatcher_simps(2)
    by simp
qed

text \<open>
  C6.  On an arbitrary byte stream, complete or not, well-formed or not, the connection does what the
  framing specification says: every payload before the first refused header is delivered, and the
  connection is working when no header was refused and closed otherwise.
\<close>

theorem server_refines_framing:
  fixes Q :: "'q EQueue"
  assumes "sk_reads sock = []" "sk_writes sock = []" "served_reads Q e cf i ok sock d chunks"
    and "frames e (header_ok cf) (concat chunks) = (ps, r, good)"
  shows "srv_world (served Q e cf i ok sock d chunks) = fold (srv_deliver Q e cf i) ps (d, sk_sent sock) \<and>
    conn_stat (fst (served Q e cf i ok sock d chunks)) = (if good then kWorking else kClosed)"
  using served_frames [OF assms] srv_stat by metis

theorem server_refines_framing_witness:
  "conn_stat (fst (served list_queue Big NetConf_default 3 True socket_connected demo_dispatcher
      [replicate 16 0])) = kClosed"
proof -
  have "frames Big (header_ok NetConf_default) (replicate 16 0) = ([], replicate 16 0, False)"
    by (rule frames_bad, simp add: sizeof_Header_def) code_simp
  moreover have "served_reads list_queue Big NetConf_default 3 True socket_connected demo_dispatcher [replicate 16 0]"
    by (rule served_reads_single) (simp_all add: sizeof_Header_def)
  ultimately show ?thesis
    using server_refines_framing [of socket_connected list_queue Big NetConf_default 3 True demo_dispatcher
        "[replicate 16 0]" "[]" "replicate 16 0" False]
    by simp
qed

section \<open>The server sends\<close>

text \<open>
  C7.  For every interleaving of messages handed to the connection with completed writes: what has been
  transmitted, followed by what is still held in the block and the buffer, is the concatenation of
  the accepted messages in order, after what was there before.  Nothing is lost, doubled, reordered
  or torn.
\<close>

theorem server_sends_in_order:
  assumes "send_inv cf c"
    and "c' = send_run (\<lambda>msg c. snd (async_send_message e cf msg c)) (io_write_ok cf) evs c"
  shows "sent_bytes c' @ send_backlog c' =
    sent_bytes c @ send_backlog c @ concat (map (Message_net_str e) (filter (send_accepts cf) (event_msgs evs)))"
  unfolding assms(2) using assms(1) by (rule srv_send.run_stream)

theorem server_sends_in_order_witness:
  "sent_bytes (send_run (\<lambda>msg c. snd (async_send_message Little NetConf_default msg c)) (io_write_ok NetConf_default)
        [SendMsg (Message_of [1]), WriteOk, SendMsg (Message_of [2])] demo_conn) @
      send_backlog (send_run (\<lambda>msg c. snd (async_send_message Little NetConf_default msg c)) (io_write_ok NetConf_default)
        [SendMsg (Message_of [1]), WriteOk, SendMsg (Message_of [2])] demo_conn) =
    Message_net_str Little (Message_of [1]) @ Message_net_str Little (Message_of [2])"
  using server_sends_in_order [OF _ refl, of NetConf_default demo_conn Little
      "[SendMsg (Message_of [1]), WriteOk, SendMsg (Message_of [2])]"] demo_conn_live
  by (simp add: send_live_def demo_conn_quiet)

text \<open>
  A live connection writes everything out: after as many completed writes as there are bytes
  left, at the latest, nothing is left and everything has been transmitted.
\<close>

theorem server_drains:
  assumes "send_live cf c" "length (send_backlog c) \<le> n"
  shows "send_backlog ((io_write_ok cf ^^ n) c) = [] \<and>
    sent_bytes ((io_write_ok cf ^^ n) c) = sent_bytes c @ send_backlog c"
  using srv_send.drained [OF assms] by blast

theorem server_drains_witness:
  "sent_bytes ((io_write_ok NetConf_default ^^ 17)
      (snd (async_send_message Big NetConf_default (Message_of [9]) demo_conn))) =
    Message_net_str Big (Message_of [9])"
proof -
  let ?c = "snd (async_send_message Big NetConf_default (Message_of [9]) demo_conn)"
  have inv: "send_inv NetConf_default demo_conn" using demo_conn_live by (simp add: send_live_def)
  have "send_live NetConf_default (snd (do_write NetConf_default (push_message Big (Message_of [9]) demo_conn)))"
    using demo_conn_live push_message_stream(1) [OF inv] demo_conn_quiet(2)
    by (intro do_write_live) (auto simp: send_live_def push_message_def Buffer_append_data send_backlog_def
      sizeof_Header_def)
  then have live: "send_live NetConf_default ?c" by (simp add: async_send_message_eq)
  have "send_backlog ?c = Message_net_str Big (Message_of [9])"
    using async_send_message_stream(2) [OF inv, of Big "Message_of [9]"] demo_conn_quiet by simp
  moreover have "sent_bytes ?c = []" using demo_conn_quiet by (simp add: sent_bytes_def async_send_message_frame)
  ultimately show ?thesis using server_drains [OF live, of 17] by (simp add: sizeof_Header_def)
qed

section \<open>A whole call\<close>

text \<open>
  A single call with a time limit, on a connection just accepted: a request with a non-empty body, sent by a client's blocking call and cut into
  chunks by the network, is read, queued, taken by a worker and answered by the demo service; when the
  answer is a reply, the writes complete and its bytes come back in any chunks, the call returns
  \<open>OK\<close> with exactly the service's bytes, whatever the byte orders of the two hosts.
\<close>

theorem rpc_round_trip:
  fixes Q :: "'q EQueue"
  assumes Q: "fifo_queue Q contents" and d: "sid \<in> service_ids d" "queue_of contents d sid = []"
    and sock: "sk_reads sock = []" "sk_writes sock = []" "sk_sent sock = []"
    and req: "payload \<noteq> []" "sizeof_Header + sizeof_RpcRequestHeader + length payload < 2 ^ 32"
      "header_ok cf (m_header (request_frame ec sid op payload))"
    and chunks: "concat chunks = Message_net_str ec (request_frame ec sid op payload)"
      "served_reads Q es cf i ok sock d chunks"
    and answer: "service_answer unmarshal marshal es (queued_instance es i (request_payload ec sid op payload)) =
        reply_frame es sid op body" "send_accepts cf (reply_frame es sid op body)"
      "sizeof_Header + sizeof_RpcResponseHeader + length body < 2 ^ 32"
    and s: "s = serve_one unmarshal marshal Q es cf sid (served Q es cf i ok sock d chunks)"
    and chunks': "concat chunks' = sent_bytes ((io_write_ok cf ^^ (sizeof_Header + sizeof_RpcResponseHeader + length body)) (fst s))"
      "\<forall>ch \<in> set chunks'. length ch \<le> kFixedIoBufferSize"
    and client: "call_ready r []" "conn_sync r = None \<Longrightarrow> connect_ec = None"
      "client_accepts (client_setting r) (request_frame ec sid op payload)"
      "client_header_ok (client_setting r) (m_header (reply_frame es sid op body))"
      "sizeof_Header + sizeof_RpcRequestHeader + length payload \<le> n * kFixedIoBufferSize"
  shows "\<exists>ws rs r'. call_RPC_sync ec connect_ec ok' sid op payload respload timeout_sec
      (replicate n (False, None)) (good_reads chunks') r = Some (RpcClientStatus.OK, body, ws, rs, r') \<and>
    wire_sent r' = wire_sent r @ concat chunks"
proof -
  let ?p = "request_payload ec sid op payload" and ?s1 = "served Q es cf i ok sock d chunks"
  let ?q = "RpcResponseMessage_net_str es (RpcResponseMessage_of sid op body)"
  have frame: "request_frame ec sid op payload = Message_of ?p" by (simp add: request_frame_def request_payload_def)
  have plen: "length ?p < 2 ^ 32" using req(2) by (simp add: request_payload_def)
  note recv = request_received [OF Q d sock req(1) plen req(3) [unfolded frame] chunks(1) [unfolded frame] chunks(2) refl]
  have "fst s = snd (async_send_message es cf (reply_frame es sid op body) (fst ?s1))"
    using serve_one_pops(1) [OF Q recv(1), of unmarshal marshal es cf "fst ?s1"] answer(1) s by simp
  moreover have rlen: "length (m_payload (reply_frame es sid op body)) = sizeof_RpcResponseHeader + length body"
    by (simp add: reply_frame_def)
  ultimately have "concat chunks' = Message_net_str es (Message_of ?q)"
    using answer_sent [OF recv(2,4) answer(2), where n = "sizeof_Header + sizeof_RpcResponseHeader + length body"]
      answer(3) recv(3) chunks'(1) by (simp add: reply_frame_def)
  moreover have "frames ec (client_header_ok (client_setting r)) (Message_net_str es (Message_of ?q)) = ([?q], [], True)"
    by (rule reply_frames) (use answer(3) client(4) in \<open>simp_all add: reply_frame_def\<close>)
  ultimately show ?thesis
    using call_RPC_sync_answered [OF client(1,2,3) req(2) client(5) chunks'(2), where p = ?q and ps = "[]" and rest = "[]"
        and g = True and ok = ok'
        and respload = respload and timeout_sec = timeout_sec] answer(3) chunks(1)
    by (auto simp: check_response_reply)
qed

definition demo_body :: bytes where
  "demo_body = str_bytes ''nicol_write_reply''"

definition demo_served :: "TcpConn \<times> RpcInstance list Dispatcher" where
  "demo_served = serve_one (\<lambda>_. None) (\<lambda>_. []) list_queue Big NetConf_default 1
     (served list_queue Big NetConf_default 3 True socket_connected demo_dispatcher
       [Message_net_str Little (request_frame Little 1 2 [7])])"

definition demo_answer :: bytes where
  "demo_answer = sent_bytes ((io_write_ok NetConf_default ^^ 50) (fst demo_served))"

definition demo_client :: RpcClientImpl where
  "demo_client = RpcClientImpl_new RpcClientSetting_new"

lemma demo_instance:
  assumes "payload \<noteq> []" "length payload \<le> 1000"
  shows "service_id (queued_instance Big 3 (request_payload Little 1 2 payload)) = 1"
    and "opcode (queued_instance Big 3 (request_payload Little 1 2 payload)) = 2"
proof -
  let ?p = "request_payload Little 1 2 payload"
  have ok: "request_ok Big ?p" using assms(1) by (simp add: request_payload_ok)
  have "length ?p < 2 ^ 32" using assms(2) by (simp add: request_payload_def sizeof_RpcRequestHeader_def)
  note f = queued_instance_fields [OF ok this]
  show "service_id (queued_instance Big 3 ?p) = 1" "opcode (queued_instance Big 3 ?p) = 2"
    unfolding f by (simp_all add: request_payload_decode)
qed

lemma demo_reply:
  "payload \<noteq> [] \<Longrightarrow> length payload \<le> 1000 \<Longrightarrow>
    service_answer (\<lambda>_. None) (\<lambda>_. []) Big (queued_instance Big 3 (request_payload Little 1 2 payload)) = reply_frame Big 1 2 demo_body"
  by (simp add: service_answer_def demo_instance CMD_WRITE_def demo_body_def)

lemma demo_client_ready: "call_ready demo_client []" "wire_sent demo_client = []" "client_setting demo_client = RpcClientSetting_new"
  by (simp_all add: call_ready_def demo_client_def RpcClientImpl_new_def wire_sent_def)

theorem rpc_round_trip_witness:
  "\<exists>chunks' ws rs r'. concat chunks' = demo_answer \<and>
    call_RPC_sync Little None True 1 2 [7] [] 5 [(False, None)] (good_reads chunks') demo_client =
      Some (RpcClientStatus.OK, demo_body, ws, rs, r')"
proof -
  let ?fr = "Message_net_str Little (request_frame Little 1 2 [7])"
  have blen: "length demo_body = 17" by (simp add: demo_body_def str_bytes_def)
  have "served_reads list_queue Big NetConf_default 3 True socket_connected demo_dispatcher [?fr]"
    by (rule served_reads_single)
      (simp_all add: request_frame_def sizeof_Header_def sizeof_RpcRequestHeader_def)
  moreover obtain chunks' where ch: "concat chunks' = demo_answer" "\<forall>ch \<in> set chunks'. length ch \<le> kFixedIoBufferSize"
  proof
    show "concat (map (\<lambda>b. [b]) demo_answer) = demo_answer" by (simp add: concat_map_singleton)
    show "\<forall>ch \<in> set (map (\<lambda>b. [b]) demo_answer). length ch \<le> kFixedIoBufferSize" by (simp add: kFixedIoBufferSize_def)
  qed
  ultimately have "\<exists>ws rs r'. call_RPC_sync Little None True 1 2 [7] [] 5 (replicate 1 (False, None)) (good_reads chunks') demo_client =
      Some (RpcClientStatus.OK, demo_body, ws, rs, r') \<and> wire_sent r' = wire_sent demo_client @ concat [?fr]"
    by (intro rpc_round_trip [OF list_queue_fifo, where d = demo_dispatcher and es = Big and cf = NetConf_default
          and ok = True and i = 3 and unmarshal = "\<lambda>_. None" and marshal = "\<lambda>_. []" and s = demo_served
          and sock = socket_connected])
      (simp_all add: demo_dispatcher_simps demo_reply demo_served_def demo_client_ready blen demo_answer_def
        request_frame_def reply_frame_def sizeof_Header_def sizeof_RpcRequestHeader_def sizeof_RpcResponseHeader_def
        kFixedIoBufferSize_def)
  then show ?thesis using ch(1) by auto
qed

text \<open>
  C8.  A session: calls with non-empty bodies, one after the other over one connection, between hosts of any
  byte orders.  The server accepts the connection in front of empty queues; each request is read in the
  chunks the network makes, queued, served by a worker and answered; the answer's bytes reach the client in
  any chunks.  Every call returns \<open>OK\<close> with exactly the body the service gave to its request, the client has
  transmitted exactly the frames of its requests, and client and server are ready for the next call.
\<close>

theorem rpc_session:
  fixes Q :: "'q EQueue"
  assumes "fifo_queue Q contents" "sk_reads sock = []" "sk_writes sock = []" "\<forall>sid. queue_of contents d sid = []"
    and "s = TcpConn_start Q es cf i (TcpConn_new ok sock) d" "call_ready r []"
    and "session_cuts unmarshal marshal Q es ec cf i calls s"
    and "list_all2 (call_answered unmarshal marshal es ec cf (client_setting r) (service_ids d) i n) calls bodies"
  shows "\<exists>s' r'. session unmarshal marshal Q es ec cf i n calls s r = Some (map (Pair RpcClientStatus.OK) bodies, s', r') \<and>
    wire_sent r' = wire_sent r @ concat (map (session_bytes ec) calls) \<and>
    quiet es cf contents (service_ids d) s' \<and> call_ready r' []"
  using session_answers [OF assms(1) started_quiet [OF assms(2-4)] assms(6) assms(7) [unfolded assms(5)] assms(8)]
  unfolding assms(5) by blast

definition demo_calls :: "session_call list" where
  "demo_calls = map2 (whole_frames Big Little) [(1, 2, [7]), (1, 2, [8, 9])] [demo_body, demo_body]"

lemma demo_calls_answered:
  "list_all2 (call_answered (\<lambda>_. None) (\<lambda>_. []) Big Little NetConf_default (client_setting demo_client) (service_ids demo_dispatcher) 3 1)
    demo_calls [demo_body, demo_body]"
proof -
  have "length demo_body = 17" by (simp add: demo_body_def str_bytes_def)
  then show ?thesis
    by (simp add: demo_calls_def whole_frames_def call_answered_def demo_dispatcher_simps demo_reply request_fits_def
      demo_client_ready request_frame_def reply_frame_def sizeof_Header_def sizeof_RpcRequestHeader_def
      sizeof_RpcResponseHeader_def kFixedIoBufferSize_def)
qed

theorem rpc_session_witness:
  "\<exists>s' r'. session (\<lambda>_. None) (\<lambda>_. []) list_queue Big Little NetConf_default 3 1 demo_calls
      (TcpConn_start list_queue Big NetConf_default 3 (TcpConn_new True socket_connected) demo_dispatcher) demo_client =
    Some ([(RpcClientStatus.OK, demo_body), (RpcClientStatus.OK, demo_body)], s', r')"
proof -
  let ?s = "TcpConn_start list_queue Big NetConf_default 3 (TcpConn_new True socket_connected) demo_dispatcher"
  have queues: "\<forall>sid. queue_of (\<lambda>q. q) demo_dispatcher sid = []"
    by (simp add: queue_of_def demo_dispatcher_def Dispatcher_new_def map_find_def Executor_new_def)
  have blen: "length demo_body = 17" by (simp add: demo_body_def str_bytes_def)
  have "session_cuts (\<lambda>_. None) (\<lambda>_. []) list_queue Big Little NetConf_default 3 demo_calls ?s"
    unfolding demo_calls_def
    by (rule session_cuts_whole_frames [OF list_queue_fifo started_quiet [OF _ _ queues]
          demo_calls_answered [unfolded demo_calls_def]])
      (simp_all add: blen sizeof_Header_def sizeof_RpcRequestHeader_def sizeof_RpcResponseHeader_def)
  from rpc_session [OF list_queue_fifo _ _ queues refl _ this demo_calls_answered]
  show ?thesis by (auto simp: demo_client_ready)
qed

section \<open>The client\<close>

text \<open>
  C9.  Blocking calls made one after the other over a connection get the answers in order: if the
  stream of answers, cut into chunks in any way, consists of the payloads \<open>ps\<close>, the k-th call returns
  the verdict on the k-th payload, and the bytes transmitted are the requests in order.
\<close>

theorem blocking_calls_in_order:
  assumes "call_ready r before" "list_all (request_fits e (client_setting r) n) calls"
    and "\<forall>ch \<in> set chunks. length ch \<le> kFixedIoBufferSize" "length before + length (concat chunks) < 2 ^ 32"
    and "frames e (client_header_ok (client_setting r)) (before @ concat chunks) = (ps, rest, g)"
    and "length calls = length ps"
  shows "\<exists>r'. call_all e n calls (good_reads chunks) r = Some (map2 (call_verdict e) calls ps, r') \<and>
    wire_sent r' = wire_sent r @ concat (map (call_bytes e) calls)"
  using assms by (rule call_all_answers)

definition demo_replies :: "bytes list" where
  "demo_replies = map (\<lambda>b. RpcResponseMessage_net_str Big (RpcResponseMessage_of 1 2 [b])) [5, 6]"

definition demo_reply_stream :: bytes where
  "demo_reply_stream = concat (map (\<lambda>p. Message_net_str Big (Message_of p)) demo_replies)"

lemma demo_reply_frames: "frames Little (client_header_ok RpcClientSetting_new) demo_reply_stream = (demo_replies, [], True)"
  unfolding demo_reply_stream_def
  by (rule frames_encode_all) (simp add: demo_replies_def sizeof_RpcResponseHeader_def)

theorem blocking_calls_in_order_witness:
  "\<exists>r'. call_all Little 1 [(1, 2, [8]), (1, 2, [9])] (good_reads (map (\<lambda>b. [b]) demo_reply_stream)) demo_client =
    Some ([(RpcClientStatus.OK, [5]), (RpcClientStatus.OK, [6])], r')"
proof -
  have "length demo_reply_stream = 68"
    by (simp add: demo_reply_stream_def demo_replies_def sizeof_Header_def sizeof_RpcResponseHeader_def)
  then have "\<exists>r'. call_all Little 1 [(1, 2, [8]), (1, 2, [9])] (good_reads (map (\<lambda>b. [b]) demo_reply_stream)) demo_client =
      Some (map2 (call_verdict Little) [(1, 2, [8]), (1, 2, [9])] demo_replies, r') \<and>
      wire_sent r' = wire_sent demo_client @ concat (map (call_bytes Little) [(1, 2, [8]), (1, 2, [9])])"
    by (intro blocking_calls_in_order [OF demo_client_ready(1), where rest = "[]" and g = True])
      (simp_all add: demo_client_ready demo_reply_frames request_fits_def request_frame_def kFixedIoBufferSize_def
        sizeof_Header_def sizeof_RpcRequestHeader_def demo_replies_def concat_map_singleton)
  then show ?thesis by (auto simp: demo_replies_def call_verdict_def check_response_reply)
qed

text \<open>
  C10.  A blocking receive on any stream of bytes: the first frame of the framing specification if the
  stream has one, with the rest of the stream left for the next receive; a closed connection if the
  header is refused; and it never returns if the stream ends inside the frame.
\<close>

theorem blocking_receive_cases:
  assumes "sync_ready c" "\<forall>ch \<in> set chunks. length ch \<le> kFixedIoBufferSize"
    and "length (sync_data c) + length (concat chunks) < 2 ^ 32"
  shows "case frames e (client_header_ok cs) (sync_data c @ concat chunks) of
      (p # ps, _, _) \<Rightarrow>
        (\<exists>left c'. recv_net_message_sync e cs msg (good_reads chunks) c =
          Some (True, \<lparr>m_header = Header_decode e (sync_data c @ concat chunks), m_payload = p\<rparr>, False,
            good_reads left, c') \<and> read_past (sizeof_Header + length p) c chunks c' left)
    | ([], _, True) \<Rightarrow> recv_net_message_sync e cs msg (good_reads chunks) c = None
    | ([], _, False) \<Rightarrow>
        (\<exists>left c'. recv_net_message_sync e cs msg (good_reads chunks) c =
          Some (False, msg, False, good_reads left, c') \<and> conn_stat c' = kClosed)"
  using do_read_sync_frame [OF assms] do_read_sync_refused [OF assms] do_read_sync_blocks [OF assms]
  unfolding recv_net_message_sync_def
  by (auto split: prod.split list.split bool.split)

theorem blocking_receive_cases_witness:
  "recv_net_message_sync Little RpcClientSetting_new Message_default (good_reads [[1, 2, 3]])
    (TcpConnSync_new True socket_connected) = None"
proof -
  have "frames Little (client_header_ok RpcClientSetting_new) [1, 2, 3] = ([], [1, 2, 3], True)"
    by (rule frames_short) (simp add: sizeof_Header_def)
  then show ?thesis
    using blocking_receive_cases [OF TcpConnSync_new_ready(1), of "[[1, 2, 3]]" True socket_connected Little
        RpcClientSetting_new Message_default]
    by (simp add: TcpConnSync_new_ready kFixedIoBufferSize_def)
qed

text \<open>
  C11.  The asynchronous client calls the application back once per response frame, in the order of the
  stream and however it was cut: with status, service, opcode and body for a reply, with the
  server's status for a refusal.
\<close>

theorem async_client_callbacks:
  fixes cb :: "'u rpc_handler"
  assumes "sk_reads sock = []"
    and "s0 = snd (recv_net_message_async (payload_wrapper (async_recv_wrapper e True cb)) e cs (ClientConnAsync_new ok sock) u)"
    and "reads_ok cli_need (cli_residue e) (io_read_ok_async (payload_wrapper (async_recv_wrapper e True cb)) e cs) chunks s0"
    and "concat chunks = concat (map (\<lambda>m. Message_net_str e' (Message_of (RpcResponseMessage_net_str e' m))) ms)"
    and "\<forall>m \<in> set ms. server_response m \<and> length (rsm_payload m) + 17 < 2 ^ 32 \<and>
      client_header_ok cs (m_header (Message_of (RpcResponseMessage_net_str e' m)))"
  shows "snd (feed_all (io_read_ok_async (payload_wrapper (async_recv_wrapper e True cb)) e cs) chunks s0) =
    fold (response_call cb) ms u"
proof -
  let ?ps = "map (RpcResponseMessage_net_str e') ms"
  note start = recv_net_message_async_waiting [OF assms(1), where cs = cs and f = "async_recv_wrapper e True cb"
      and e = e and ok = ok and u = u, folded assms(2)]
  have "snd (feed_all (io_read_ok_async (payload_wrapper (async_recv_wrapper e True cb)) e cs) chunks s0) =
      fold (async_recv_wrapper e True cb) ?ps (snd s0)"
    by (rule cli_read.feed_all_messages(1) [OF start(1,2) assms(3)])
      (use assms(4,5) in \<open>auto simp: comp_def sizeof_RpcResponseHeader_def\<close>)
  then show ?thesis using fold_async_recv_wrapper [of ms e cb e' u] assms(5) start(3) by simp
qed

theorem async_client_callbacks_witness:
  "snd (feed_all (io_read_ok_async (payload_wrapper (async_recv_wrapper Little True demo_cb)) Little RpcClientSetting_new)
      [demo_reply_stream]
      (snd (recv_net_message_async (payload_wrapper (async_recv_wrapper Little True demo_cb)) Little
        RpcClientSetting_new (ClientConnAsync_new True socket_connected) []))) =
    [(RpcClientStatus.OK, 1, 2, [5]), (RpcClientStatus.OK, 1, 2, [6])]"
proof -
  let ?wh = "payload_wrapper (async_recv_wrapper Little True demo_cb)"
  let ?s0 = "snd (recv_net_message_async ?wh Little RpcClientSetting_new (ClientConnAsync_new True socket_connected) [])"
  let ?ms = "[RpcResponseMessage_of 1 2 [5], RpcResponseMessage_of 1 2 [6]]"
  note start = recv_net_message_async_waiting [of socket_connected, where cs = RpcClientSetting_new
      and f = "async_recv_wrapper Little True demo_cb" and e = Little and ok = True and u = "[]"]
  have "length demo_reply_stream = 68"
    by (simp add: demo_reply_stream_def demo_replies_def sizeof_Header_def sizeof_RpcResponseHeader_def)
  then have reads: "reads_ok cli_need (cli_residue Little) (io_read_ok_async ?wh Little RpcClientSetting_new)
      [demo_reply_stream] ?s0"
    using start by (intro cli_reads_single) (simp_all add: sizeof_Header_def)
  have "snd (feed_all (io_read_ok_async ?wh Little RpcClientSetting_new) [demo_reply_stream] ?s0) =
      fold (response_call demo_cb) ?ms []"
    by (rule async_client_callbacks [OF _ refl reads, where e' = Big])
      (auto simp: demo_reply_stream_def demo_replies_def server_response_def)
  then show ?thesis by (simp add: demo_cb_def)
qed

text \<open>
  The asynchronous client queues any number of calls: what its connection has transmitted and
  still holds is the requests it accepted, in order, and completed writes bring it all out.
\<close>

theorem async_client_sends:
  assumes "async_send_live cs c"
    and "c' = send_run (\<lambda>msg c. snd (send_net_message_async e cs msg c)) io_write_ok_async evs c"
  shows "sent_bytes (as_server c') @ send_backlog (as_server c') =
      sent_bytes (as_server c) @ send_backlog (as_server c) @
        concat (map (Message_net_str e) (filter (client_accepts cs) (event_msgs evs))) \<and>
    (async_send_live cs c' \<longrightarrow>
      sent_bytes (as_server ((io_write_ok_async ^^ length (send_backlog (as_server c'))) c')) =
        sent_bytes (as_server c') @ send_backlog (as_server c'))"
  using cli_send.run_stream [OF cli_send.live_inv [OF assms(1)], of e evs] cli_send.drained(2) [of cs c']
  by (simp add: assms(2))

theorem async_client_sends_witness:
  "sent_bytes (as_server (send_run (\<lambda>msg c. snd (send_net_message_async Little RpcClientSetting_new msg c))
        io_write_ok_async [SendMsg (request_frame Little 1 2 [3])] (ClientConnAsync_new True socket_connected))) @
    send_backlog (as_server (send_run (\<lambda>msg c. snd (send_net_message_async Little RpcClientSetting_new msg c))
        io_write_ok_async [SendMsg (request_frame Little 1 2 [3])] (ClientConnAsync_new True socket_connected))) =
    Message_net_str Little (request_frame Little 1 2 [3])"
proof -
  let ?c = "ClientConnAsync_new True socket_connected"
  have live: "async_send_live RpcClientSetting_new ?c"
    by (simp add: async_send_live_def send_live_def send_inv_def as_server_def ClientConnAsync_new_def set_conn_stat_def
      set_tcp_nonblocking_def set_tcp_nodelay_def IOBound_new_def Buffer_new_def Let_def as_conf_def)
  have "sent_bytes (as_server ?c) = []" "send_backlog (as_server ?c) = []"
    by (simp_all add: sent_bytes_def send_backlog_def in_flight_def as_server_def ClientConnAsync_new_def set_conn_stat_def
      set_tcp_nonblocking_def set_tcp_nodelay_def IOBound_new_def Buffer_new_def Let_def)
  then show ?thesis
    using async_client_sends [OF live refl, of Little "[SendMsg (request_frame Little 1 2 [3])]"] by simp
qed

section \<open>Routing and serving\<close>

text \<open>
  C12.  The dispatcher sends every payload one way: a well-formed request for a registered service goes
  to the end of that service's queue and nowhere else and the connection is untouched; any other
  payload leaves all queues alone and sends exactly one refusal frame with the right status.
\<close>

theorem dispatcher_routes:
  assumes "length p < 2 ^ 32" "fifo_queue Q contents"
    and "(d', sock') = dispatcher_handle_RPC Q e cf (instance_of i p) d sock"
  shows "case route_of e p (service_ids d) of
      Enqueue sid \<Rightarrow> sock' = sock \<and> service_ids d' = service_ids d \<and>
        (\<forall>sid'. queue_of contents d' sid' =
          queue_of contents d sid' @ (if sid' = sid then [queued_instance e i p] else []))
    | Refuse st \<Rightarrow> d' = d \<and>
        sock' = map_option (\<lambda>s. snd (async_send_message e cf (reject_frame e st) s)) sock"
proof (cases "route_of e p (service_ids d)")
  case (Enqueue sid)
  have d': "d' = fst (dispatcher_handle_RPC Q e cf (instance_of i p) d sock)"
    "sock' = snd (dispatcher_handle_RPC Q e cf (instance_of i p) d sock)"
    by (simp_all flip: assms(3))
  show ?thesis unfolding d' Enqueue
    using dispatcher_handle_RPC_enqueue [OF assms(1) Enqueue] assms(2) by simp
next
  case (Refuse st)
  then show ?thesis using dispatcher_handle_RPC_refuse [OF assms(1) Refuse, of Q cf i sock] assms(3) by simp
qed

theorem dispatcher_routes_witness:
  "dispatcher_handle_RPC list_queue Little NetConf_default (instance_of 0 [1, 2]) demo_dispatcher None =
    (demo_dispatcher, None)"
proof -
  obtain d' sock' where eq: "(d', sock') = dispatcher_handle_RPC list_queue Little NetConf_default (instance_of 0 [1, 2]) demo_dispatcher None"
    by (metis surj_pair)
  have "route_of Little [1, 2] (service_ids demo_dispatcher) = Refuse RpcResponseStatus.INVALID_REQUEST"
    by (simp add: route_of_def request_ok_def sizeof_RpcRequestHeader_def)
  then show ?thesis using dispatcher_routes [OF _ list_queue_fifo eq] eq by simp
qed

text \<open>
  C13.  Validation accepts exactly the payloads that are longer than the request header and carry the
  right magic and version, and then the request holds the service, the opcode and the body of the
  payload.
\<close>

theorem validation_exact:
  assumes "length p < 2 ^ 32" "(valid, r) = validate_request e (instance_of i p)"
  shows "valid = request_ok e p \<and>
    (valid \<longrightarrow> get_service_id r = rq_service_id (RpcRequestHeader_decode e p) \<and>
      get_opcode r = rq_opcode (RpcRequestHeader_decode e p) \<and>
      rqm_payload (get_rpc_request_message r) = drop sizeof_RpcRequestHeader p \<and> full_socket r = i)"
proof -
  have v: "valid = fst (validate_request e (instance_of i p))" "r = snd (validate_request e (instance_of i p))"
    by (simp_all flip: assms(2))
  then show ?thesis
    using validate_request_eq(1) [OF assms(1), of e i] queued_instance_fields [OF _ assms(1), of e i]
    by (simp add: queued_instance_def get_service_id_def get_opcode_def get_rpc_request_message_def)
qed

theorem validation_exact_witness:
  "rqm_payload (get_rpc_request_message (snd (validate_request Big (instance_of 0 demo_request)))) = [7]"
proof -
  have ok: "request_ok Big demo_request" unfolding demo_request_def by (simp add: request_payload_ok)
  have len: "length demo_request < 2 ^ 32"
    by (simp add: demo_request_def request_payload_def sizeof_RpcRequestHeader_def)
  obtain valid r where eq: "(valid, r) = validate_request Big (instance_of 0 demo_request)" by (metis surj_pair)
  have "drop sizeof_RpcRequestHeader demo_request = [7]"
    unfolding demo_request_def by (simp add: request_payload_decode)
  then show ?thesis using validation_exact [OF len eq] ok by (simp flip: eq)
qed

text \<open>
  C14.  The service code answers every request it handles with exactly one frame, whether the
  connection is still there or not, and that frame is a reply that carries the request's own service
  and opcode or the refusal \<open>INVALID_REQUEST\<close>.
\<close>

theorem service_answers_once:
  "(\<exists>frame. snd (service_handle_RPC unmarshal marshal e cf r sock) =
      map_option (\<lambda>s. snd (async_send_message e cf frame s)) sock \<and>
    (frame = reject_frame e RpcResponseStatus.INVALID_REQUEST \<or>
      (\<exists>body. frame = reply_frame e (service_id r) (opcode r) body)))"
proof (intro exI conjI)
  show "snd (service_handle_RPC unmarshal marshal e cf r sock) =
      map_option (\<lambda>s. snd (async_send_message e cf (service_answer unmarshal marshal e r) s)) sock"
    by (rule service_handle_RPC_answer)
  show "service_answer unmarshal marshal e r = reject_frame e RpcResponseStatus.INVALID_REQUEST \<or>
      (\<exists>body. service_answer unmarshal marshal e r = reply_frame e (service_id r) (opcode r) body)"
    unfolding service_answer_def Let_def by (auto split: option.split)
qed

text \<open>
  A worker thread takes requests from its queue in order and keeps none back: the requests it has
  handled, followed by what is still queued, are what was queued before; it leaves its loop only when
  told to terminate, and then takes nothing more.
\<close>

theorem worker_fifo:
  assumes "fifo_queue Q contents" "(handled, fin, ex') = executor_service_run Q sts ex"
  shows "handled @ contents (rpc_queue ex') = contents (rpc_queue ex) \<and>
    (fin \<noteq> None \<longrightarrow> kTerminating \<in> set sts)"
proof -
  have "handled = fst (executor_service_run Q sts ex)" "fin = fst (snd (executor_service_run Q sts ex))"
    "ex' = snd (snd (executor_service_run Q sts ex))"
    by (simp_all flip: assms(2))
  then show ?thesis
    using executor_service_run_fifo [OF assms(1), of sts ex] executor_service_run_stops [of Q sts ex] by simp
qed

theorem worker_fifo_witness:
  "fst (executor_service_run list_queue [kThreadRunning, kTerminating]
      (executor_handle_RPC list_queue (queued_instance Big 3 demo_request) (Executor_new [] (XtraTaskService_new [])))) =
    [queued_instance Big 3 demo_request]"
proof -
  let ?ex = "executor_handle_RPC list_queue (queued_instance Big 3 demo_request) (Executor_new [] (XtraTaskService_new []))"
  obtain handled fin ex' where eq: "(handled, fin, ex') = executor_service_run list_queue [kThreadRunning, kTerminating] ?ex"
    by (metis prod_cases3)
  have "rpc_queue (snd (snd (executor_service_run list_queue [kThreadRunning, kTerminating] ?ex))) = []"
    by (simp add: executor_service_turn_def executor_handle_RPC_def Executor_new_def list_queue_def)
  then have "rpc_queue ex' = []" by (simp only: eq [symmetric] snd_conv)
  moreover have "rpc_queue ?ex = [queued_instance Big 3 demo_request]"
    by (simp add: executor_handle_RPC_def Executor_new_def list_queue_def)
  ultimately have "handled = [queued_instance Big 3 demo_request]"
    using worker_fifo [OF list_queue_fifo eq] by simp
  then show ?thesis by (simp only: eq [symmetric] fst_conv)
qed

text \<open>
  C16.  The thread count the executor asks for under load: with valid settings and a positive step it
  exists, lies between the normal and the hard limit, and never falls when the queue grows.
\<close>

theorem thread_count_bounded:
  assumes "executor_conf_valid conf" "0 < exec_thread_step_size conf" "0 \<le> m" "m \<le> n"
  shows "\<exists>j k. expect_threads conf m = Some j \<and> expect_threads conf n = Some k \<and>
    exec_thread_number conf \<le> j \<and> j \<le> k \<and> k \<le> exec_thread_number_hard conf"
proof -
  obtain j where "expect_threads conf m = Some j" "exec_thread_number conf \<le> j"
    using expect_threads_bounds [OF assms(1,2,3)] by auto
  moreover obtain k where "expect_threads conf n = Some k" "k \<le> exec_thread_number_hard conf"
    using expect_threads_bounds [OF assms(1,2), of n] assms(3,4) by auto
  ultimately show ?thesis using expect_threads_mono [OF assms] by blast
qed

theorem thread_count_bounded_witness:
  "\<exists>j k. expect_threads \<lparr>exec_thread_number = 2, exec_thread_number_hard = 8, exec_thread_step_size = 10\<rparr> 5 = Some j \<and>
    expect_threads \<lparr>exec_thread_number = 2, exec_thread_number_hard = 8, exec_thread_step_size = 10\<rparr> 500 = Some k \<and>
    2 \<le> j \<and> j \<le> k \<and> k \<le> 8"
  using thread_count_bounded [of "\<lparr>exec_thread_number = 2, exec_thread_number_hard = 8, exec_thread_step_size = 10\<rparr>" 5 500]
  by (simp add: executor_conf_valid_def)

end
